theory Spec2Isabelle
  imports Complex_Main
begin

section \<open>Tensors and the framework primitives the layers call\<close>

text \<open>
  The layers of \<^verbatim>\<open>layers.py\<close> and \<^verbatim>\<open>Models/WRN_MOS.py\<close> are thin wrappers over a tensor
  library. A tensor is modelled as its shape together with its entries, read by index;
  entries are real numbers, so a statement about the values of such a tensor is about
  exact arithmetic and not about the rounding of the 32-bit floats the library computes
  with; the floats themselves are modelled in their own section, for the one layer whose
  property depends on them. Every tensor an
  operation builds is zero outside its shape, so that equality of tensors is equality of
  shape and of the entries inside the shape.
\<close>

datatype error =
    TypeError
  | NotImplementedError
  | AssertionError
  | IndexError
  | AttributeError
  | ValueError
  | ZeroDivisionError
  | ShapeError
  | NonFinite

record tensor =
  dims :: "nat list"
  entry :: "nat list \<Rightarrow> real"

definition and_then :: "error + 'a \<Rightarrow> ('a \<Rightarrow> error + 'b) \<Rightarrow> error + 'b" where
  "and_then m f = (case m of Inl e \<Rightarrow> Inl e | Inr v \<Rightarrow> f v)"

definition in_range :: "nat list \<Rightarrow> nat list \<Rightarrow> bool" where
  "in_range ds idx = list_all2 (<) idx ds"

definition tensor_of :: "nat list \<Rightarrow> (nat list \<Rightarrow> real) \<Rightarrow> tensor" where
  "tensor_of ds f = \<lparr>dims = ds, entry = (\<lambda>idx. if in_range ds idx then f idx else 0)\<rparr>"

fun indices :: "nat list \<Rightarrow> nat list list" where
  "indices [] = [[]]"
| "indices (d # ds) = concat (map (\<lambda>i. map ((#) i) (indices ds)) [0..<d])"

definition numel :: "nat list \<Rightarrow> nat" where
  "numel ds = prod_list ds"

definition tmap :: "(real \<Rightarrow> real) \<Rightarrow> tensor \<Rightarrow> tensor" where
  "tmap f t = tensor_of (dims t) (\<lambda>idx. f (entry t idx))"

text \<open>Broadcasting of two shapes, aligned at the last axis: sizes agree or one is 1.\<close>

fun bdims_rev :: "nat list \<Rightarrow> nat list \<Rightarrow> nat list option" where
  "bdims_rev [] ys = Some ys"
| "bdims_rev (x # xs) [] = Some (x # xs)"
| "bdims_rev (x # xs) (y # ys) =
     (if x = y \<or> y = 1 then map_option ((#) x) (bdims_rev xs ys)
      else if x = 1 then map_option ((#) y) (bdims_rev xs ys)
      else None)"

definition bdims :: "nat list \<Rightarrow> nat list \<Rightarrow> nat list option" where
  "bdims a b = map_option rev (bdims_rev (rev a) (rev b))"

definition bidx :: "nat list \<Rightarrow> nat list \<Rightarrow> nat list" where
  "bidx ds idx = map2 (\<lambda>d i. if d = 1 then 0 else i) ds (drop (length idx - length ds) idx)"

definition tbin :: "(real \<Rightarrow> real \<Rightarrow> real) \<Rightarrow> tensor \<Rightarrow> tensor \<Rightarrow> error + tensor" where
  "tbin f a b =
     (case bdims (dims a) (dims b) of
        None \<Rightarrow> Inl ShapeError
      | Some ds \<Rightarrow> Inr (tensor_of ds (\<lambda>idx. f (entry a (bidx (dims a) idx)) (entry b (bidx (dims b) idx)))))"

definition tadd :: "tensor \<Rightarrow> tensor \<Rightarrow> error + tensor" where
  "tadd = tbin (+)"

definition tmul :: "tensor \<Rightarrow> tensor \<Rightarrow> error + tensor" where
  "tmul = tbin (*)"

text \<open>
  Division is the one elementwise operation whose result may leave the reals: an entry
  divided by zero is an infinity or a NaN in the library. The model reports such a
  quotient as \<^const>\<open>NonFinite\<close>.
\<close>

definition tdiv :: "tensor \<Rightarrow> tensor \<Rightarrow> error + tensor" where
  "tdiv a b =
     (case bdims (dims a) (dims b) of
        None \<Rightarrow> Inl ShapeError
      | Some ds \<Rightarrow>
          if list_ex (\<lambda>idx. entry b (bidx (dims b) idx) = 0) (indices ds) then Inl NonFinite
          else Inr (tensor_of ds (\<lambda>idx. entry a (bidx (dims a) idx) / entry b (bidx (dims b) idx))))"

definition tscale :: "real \<Rightarrow> tensor \<Rightarrow> tensor" where
  "tscale c t = tmap (\<lambda>v. c * v) t"

text \<open>\<^verbatim>\<open>torch.norm(w)\<close>: the 2-norm of all entries, a tensor with a single entry.\<close>

definition sumsq :: "tensor \<Rightarrow> real" where
  "sumsq t = sum_list (map (\<lambda>idx. (entry t idx)\<^sup>2) (indices (dims t)))"

definition norm_t :: "tensor \<Rightarrow> tensor" where
  "norm_t t = tensor_of [] (\<lambda>idx. sqrt (sumsq t))"

text \<open>Row-major position of an index, and back; \<^verbatim>\<open>view\<close> keeps the row-major order.\<close>

fun flat_index :: "nat list \<Rightarrow> nat list \<Rightarrow> nat" where
  "flat_index (d # ds) (i # idx) = i * numel ds + flat_index ds idx"
| "flat_index ds idx = 0"

fun unflat_index :: "nat list \<Rightarrow> nat \<Rightarrow> nat list" where
  "unflat_index [] k = []"
| "unflat_index (d # ds) k = (k div numel ds) # unflat_index ds (k mod numel ds)"

definition view :: "nat list \<Rightarrow> tensor \<Rightarrow> error + tensor" where
  "view ds t =
     (if numel ds = numel (dims t)
      then Inr (tensor_of ds (\<lambda>idx. entry t (unflat_index (dims t) (flat_index ds idx))))
      else Inl ShapeError)"

definition expand_as :: "tensor \<Rightarrow> tensor \<Rightarrow> error + tensor" where
  "expand_as t w =
     (if length (dims t) \<le> length (dims w) \<and> bdims (dims w) (dims t) = Some (dims w)
      then Inr (tensor_of (dims w) (\<lambda>idx. entry t (bidx (dims t) idx)))
      else Inl ShapeError)"

text \<open>
  \<^verbatim>\<open>F.conv2d(input, weight, bias, stride, padding, dilation, groups)\<close>, a
  cross-correlation over a zero-padded input. The input is \<open>N \<times> C\<^sub>i\<^sub>n \<times> H \<times> W\<close>, the
  weight \<open>C\<^sub>o\<^sub>u\<^sub>t \<times> C\<^sub>i\<^sub>n/groups \<times> kH \<times> kW\<close>; each output axis has
  \<open>(size + 2 * padding - dilation * (k - 1) - 1) div stride + 1\<close> positions.
\<close>

definition padded :: "tensor \<Rightarrow> nat \<Rightarrow> nat \<Rightarrow> nat \<Rightarrow> nat \<Rightarrow> nat \<Rightarrow> nat \<Rightarrow> real" where
  "padded x ph pw n c r s =
     (if ph \<le> r \<and> pw \<le> s \<and> in_range (dims x) [n, c, r - ph, s - pw]
      then entry x [n, c, r - ph, s - pw] else 0)"

definition conv_out :: "nat \<Rightarrow> nat \<Rightarrow> nat \<Rightarrow> nat \<Rightarrow> nat \<Rightarrow> nat" where
  "conv_out n k stride padding dilation =
     (n + 2 * padding - dilation * (k - 1) - 1) div stride + 1"

definition conv2d ::
  "tensor \<Rightarrow> tensor \<Rightarrow> tensor option \<Rightarrow> nat \<times> nat \<Rightarrow> nat \<times> nat \<Rightarrow> nat \<times> nat \<Rightarrow> nat
     \<Rightarrow> error + tensor" where
  "conv2d x w b stride padding dilation groups =
     (case (dims x, dims w) of
        ([n, cin, h, wd], [cout, cg, kh, kw]) \<Rightarrow>
          if 0 < groups \<and> cin = cg * groups \<and> cout mod groups = 0
             \<and> 0 < fst stride \<and> 0 < snd stride \<and> 0 < fst dilation \<and> 0 < snd dilation
             \<and> 0 < kh \<and> 0 < kw \<and> 0 < cout
             \<and> fst dilation * (kh - 1) + 1 \<le> h + 2 * fst padding
             \<and> snd dilation * (kw - 1) + 1 \<le> wd + 2 * snd padding
             \<and> (case b of None \<Rightarrow> True | Some bt \<Rightarrow> dims bt = [cout])
          then Inr (tensor_of
                 [n, cout, conv_out h kh (fst stride) (fst padding) (fst dilation),
                           conv_out wd kw (snd stride) (snd padding) (snd dilation)]
                 (\<lambda>idx. case idx of
                    [i, co, r, s] \<Rightarrow>
                      (case b of None \<Rightarrow> 0 | Some bt \<Rightarrow> entry bt [co])
                      + (\<Sum>ci\<leftarrow>[0..<cg]. \<Sum>u\<leftarrow>[0..<kh]. \<Sum>v\<leftarrow>[0..<kw].
                           entry w [co, ci, u, v]
                           * padded x (fst padding) (snd padding) i
                               ((co div (cout div groups)) * cg + ci)
                               (r * fst stride + u * fst dilation)
                               (s * snd stride + v * snd dilation))
                  | _ \<Rightarrow> 0))
          else Inl ShapeError
      | _ \<Rightarrow> Inl ShapeError)"

text \<open>
  \<^verbatim>\<open>nn.Conv2d\<close>: the module keeps its configuration and its learnable weight; calling it
  is \<^const>\<open>conv2d\<close> on the stored fields.
\<close>

record Conv2d =
  in_channels :: nat
  out_channels :: nat
  kernel_size :: "nat \<times> nat"
  stride :: "nat \<times> nat"
  padding :: "nat \<times> nat"
  dilation :: "nat \<times> nat"
  groups :: nat
  weight :: tensor
  bias :: "tensor option"

definition Conv2d_forward :: "Conv2d \<Rightarrow> tensor \<Rightarrow> error + tensor" where
  "Conv2d_forward c x =
     conv2d x (weight c) (bias c) (stride c) (padding c) (dilation c) (groups c)"

text \<open>
  The constructor checks that \<open>groups\<close> divides both channel counts and allocates a weight
  of shape \<open>out \<times> in/groups \<times> kH \<times> kW\<close>. The values it draws at random are an argument
  here: \<open>wsrc\<close> gives the value stored at each index.
\<close>

definition Conv2d_init ::
  "nat \<Rightarrow> nat \<Rightarrow> nat \<times> nat \<Rightarrow> nat \<times> nat \<Rightarrow> nat \<times> nat \<Rightarrow> nat \<times> nat \<Rightarrow> nat
     \<Rightarrow> (nat list \<Rightarrow> real) \<Rightarrow> error + Conv2d" where
  "Conv2d_init n_in n_out ks st pad dil grp wsrc =
     (if grp = 0 then Inl ZeroDivisionError
      else if n_in mod grp \<noteq> 0 \<or> n_out mod grp \<noteq> 0 then Inl ValueError
      else Inr \<lparr>in_channels = n_in, out_channels = n_out, kernel_size = ks, stride = st,
                padding = pad, dilation = dil, groups = grp,
                weight = tensor_of [n_out, n_in div grp, fst ks, snd ks] wsrc,
                bias = None\<rparr>)"

text \<open>Elementwise nonlinearities: \<^verbatim>\<open>F.relu\<close>, \<^verbatim>\<open>F.sigmoid\<close>; \<^verbatim>\<open>F.tanh\<close> is \<^const>\<open>tanh\<close>.\<close>

definition relu :: "real \<Rightarrow> real" where
  "relu v = max 0 v"

definition sigmoid :: "real \<Rightarrow> real" where
  "sigmoid v = 1 / (1 + exp (- v))"

text \<open>
  \<^verbatim>\<open>nn.BatchNorm2d\<close> on an \<open>N \<times> C \<times> H \<times> W\<close> input: every channel is shifted by a mean,
  divided by the root of a variance plus \<open>eps\<close>, then scaled and shifted by the learnable
  \<open>weight\<close> and \<open>bias\<close>. In training mode the mean and the (biased) variance are those of
  the batch, otherwise the stored running ones. The update of the running statistics, a
  side effect of a training-mode call, is left out: nothing below reads them afterwards.
  Later versions of the library refuse a training-mode call that would see a single value
  per channel. The model refuses it as well, so that a call it lets succeed succeeds with
  and without that check.
\<close>

record BatchNorm2d =
  num_features :: nat
  bn_weight :: "nat \<Rightarrow> real"
  bn_bias :: "nat \<Rightarrow> real"
  running_mean :: "nat \<Rightarrow> real"
  running_var :: "nat \<Rightarrow> real"
  eps :: real
  bn_training :: bool

definition channel_mean :: "(nat list \<Rightarrow> real) \<Rightarrow> nat \<Rightarrow> nat \<Rightarrow> nat \<Rightarrow> nat \<Rightarrow> real" where
  "channel_mean f n h w c =
     (\<Sum>i\<leftarrow>[0..<n]. \<Sum>r\<leftarrow>[0..<h]. \<Sum>s\<leftarrow>[0..<w]. f [i, c, r, s]) / real (n * h * w)"

definition BatchNorm2d_forward :: "BatchNorm2d \<Rightarrow> tensor \<Rightarrow> error + tensor" where
  "BatchNorm2d_forward bn x =
     (case dims x of
        [n, c, h, w] \<Rightarrow>
          if bn_training bn \<and> n * h * w = 1 then Inl ValueError
          else if c = num_features bn then
            (let mu = (\<lambda>k. if bn_training bn then channel_mean (entry x) n h w k
                            else running_mean bn k);
                 var = (\<lambda>k. if bn_training bn
                             then channel_mean (\<lambda>idx. (entry x idx - mu k)\<^sup>2) n h w k
                             else running_var bn k)
             in Inr (tensor_of [n, c, h, w]
                  (\<lambda>idx. case idx of
                     [i, k, r, s] \<Rightarrow>
                       (entry x idx - mu k) / sqrt (var k + eps bn) * bn_weight bn k + bn_bias bn k
                   | _ \<Rightarrow> 0)))
          else Inl ShapeError
      | _ \<Rightarrow> Inl ShapeError)"

text \<open>
  A freshly constructed \<^verbatim>\<open>BatchNorm2d(c)\<close> is in training mode with running mean 0,
  running variance 1 and \<open>eps = 1e-5\<close>; its scale and shift start from \<open>gsrc\<close> and \<open>bsrc\<close>.
\<close>

definition BatchNorm2d_init :: "nat \<Rightarrow> (nat \<Rightarrow> real) \<Rightarrow> (nat \<Rightarrow> real) \<Rightarrow> BatchNorm2d" where
  "BatchNorm2d_init c gsrc bsrc =
     \<lparr>num_features = c, bn_weight = gsrc, bn_bias = bsrc, running_mean = (\<lambda>k. 0),
      running_var = (\<lambda>k. 1), eps = 1 / 100000, bn_training = True\<rparr>"

text \<open>Python's \<^verbatim>\<open>xs[i]\<close> for a non-negative index.\<close>

definition getitem :: "'a list \<Rightarrow> nat \<Rightarrow> error + 'a" where
  "getitem xs i = (if i < length xs then Inr (xs ! i) else Inl IndexError)"

text \<open>
  \<^verbatim>\<open>t[:, start::2]\<close>: every second slice along axis 1, from \<open>start\<close> (0 or 1).
\<close>

definition every_second :: "nat \<Rightarrow> tensor \<Rightarrow> error + tensor" where
  "every_second start t =
     (case dims t of
        d0 # d1 # ds \<Rightarrow>
          Inr (tensor_of (d0 # ((d1 + 1 - start) div 2) # ds)
                (\<lambda>idx. case idx of
                   i # c # rest \<Rightarrow> entry t (i # (2 * c + start) # rest)
                 | _ \<Rightarrow> 0))
      | _ \<Rightarrow> Inl IndexError)"

section \<open>layers.py: weight-normalised convolution\<close>

text \<open>
  \<^verbatim>\<open>def wn2d(w): return w / torch.norm(w).view(1,1,1,1).expand_as(w)\<close>
\<close>

definition wn2d :: "tensor \<Rightarrow> error + tensor" where
  "wn2d w =
     and_then (view [1, 1, 1, 1] (norm_t w)) (\<lambda>n1.
     and_then (expand_as n1 w) (\<lambda>n2.
     tdiv w n2))"

text \<open>\<^verbatim>\<open>WNC2D(nn.Conv2d).forward\<close>: the stored weight is normalised on every call.\<close>

definition WNC2D_forward :: "Conv2d \<Rightarrow> tensor \<Rightarrow> error + tensor" where
  "WNC2D_forward c input =
     and_then (wn2d (weight c)) (\<lambda>wn.
     conv2d input wn (bias c) (stride c) (padding c) (dilation c) (groups c))"

section \<open>32-bit floating point\<close>

text \<open>
  The library stores and computes tensors in IEEE 754 binary32. The other sections read
  the entries of a tensor as real numbers; this section gives the arithmetic the program
  runs the weight normalisation with, so that what rounding, overflow and underflow do to
  it can be stated. A float is a finite real, an infinity or a NaN. The sign of a zero is
  not kept: a zero divisor counts as \<open>+0\<close>.
\<close>

datatype f32 = Fin real | PInf | NInf | NaN

text \<open>
  Rounding to nearest, ties to the even significand. The floats next to \<open>x \<noteq> 0\<close> are the
  multiples of \<open>2 powr (e - 23)\<close>, with \<open>e\<close> the binary exponent of \<open>x\<close> and at least \<open>-126\<close>
  (below \<open>2 powr (-126)\<close> the spacing is that of the subnormal numbers). A rounded magnitude
  of \<open>2 ^ 128\<close> or more overflows to an infinity.
\<close>

definition round_even :: "real \<Rightarrow> int" where
  "round_even y =
     (let f = \<lfloor>y\<rfloor>; d = y - of_int f
      in if d < 1 / 2 then f else if 1 / 2 < d then f + 1 else if even f then f else f + 1)"

definition exponent32 :: "real \<Rightarrow> int" where
  "exponent32 x = max (- 126) \<lfloor>log 2 \<bar>x\<bar>\<rfloor>"

definition ulp32 :: "real \<Rightarrow> real" where
  "ulp32 x = 2 powr (of_int (exponent32 x) - 23)"

definition nearest32 :: "real \<Rightarrow> real" where
  "nearest32 x = (if x = 0 then 0 else ulp32 x * of_int (round_even (x / ulp32 x)))"

definition rnd32 :: "real \<Rightarrow> f32" where
  "rnd32 x =
     (let y = nearest32 x
      in if 2 ^ 128 \<le> y then PInf else if y \<le> - (2 ^ 128) then NInf else Fin y)"

text \<open>
  Sum, product, quotient and square root: the exact result rounded, with the IEEE rules
  for infinities and NaN.
\<close>

fun fadd :: "f32 \<Rightarrow> f32 \<Rightarrow> f32" where
  "fadd (Fin x) (Fin y) = rnd32 (x + y)"
| "fadd NaN b = NaN"
| "fadd a NaN = NaN"
| "fadd (Fin x) b = b"
| "fadd a (Fin y) = a"
| "fadd a b = (if a = b then a else NaN)"

fun fmul :: "f32 \<Rightarrow> f32 \<Rightarrow> f32" where
  "fmul (Fin x) (Fin y) = rnd32 (x * y)"
| "fmul NaN b = NaN"
| "fmul a NaN = NaN"
| "fmul (Fin x) b = (if x = 0 then NaN else if (0 < x) = (b = PInf) then PInf else NInf)"
| "fmul a (Fin y) = (if y = 0 then NaN else if (0 < y) = (a = PInf) then PInf else NInf)"
| "fmul a b = (if a = b then PInf else NInf)"

fun fdiv :: "f32 \<Rightarrow> f32 \<Rightarrow> f32" where
  "fdiv (Fin x) (Fin y) =
     (if y = 0 then (if x = 0 then NaN else if 0 < x then PInf else NInf) else rnd32 (x / y))"
| "fdiv NaN b = NaN"
| "fdiv a NaN = NaN"
| "fdiv (Fin x) b = Fin 0"
| "fdiv a (Fin y) = (if (0 \<le> y) = (a = PInf) then PInf else NInf)"
| "fdiv a b = NaN"

fun fsqrt :: "f32 \<Rightarrow> f32" where
  "fsqrt (Fin x) = (if x < 0 then NaN else rnd32 (sqrt x))"
| "fsqrt PInf = PInf"
| "fsqrt NInf = NaN"
| "fsqrt NaN = NaN"

text \<open>A tensor of floats, zero outside its shape. Storing real values rounds them.\<close>

record ftensor =
  fdims :: "nat list"
  fentry :: "nat list \<Rightarrow> f32"

definition ftensor_of :: "nat list \<Rightarrow> (nat list \<Rightarrow> f32) \<Rightarrow> ftensor" where
  "ftensor_of ds f = \<lparr>fdims = ds, fentry = (\<lambda>idx. if in_range ds idx then f idx else Fin 0)\<rparr>"

definition to_f32 :: "tensor \<Rightarrow> ftensor" where
  "to_f32 t = ftensor_of (dims t) (\<lambda>idx. rnd32 (entry t idx))"

text \<open>
  \<^verbatim>\<open>torch.norm\<close>, \<^verbatim>\<open>wn2d\<close>, \<^verbatim>\<open>F.conv2d\<close> and \<^verbatim>\<open>WNC2D.forward\<close> on floats. The squares under
  the norm and the products of the convolution are accumulated in index order, the bias
  added last; the library chooses its own order of accumulation, which changes a sum by
  rounding only. The quotient by a zero norm is an infinity or a NaN here, not an error.
  The module's stored weight and bias and the input are given as real tensors and rounded
  on storage.
\<close>

definition fsum :: "f32 list \<Rightarrow> f32" where
  "fsum vs = foldl fadd (Fin 0) vs"

definition norm_f32 :: "ftensor \<Rightarrow> f32" where
  "norm_f32 t = fsqrt (fsum (map (\<lambda>idx. fmul (fentry t idx) (fentry t idx)) (indices (fdims t))))"

definition wn2d_f32 :: "ftensor \<Rightarrow> error + ftensor" where
  "wn2d_f32 w =
     (if length (fdims w) < 4 then Inl ShapeError
      else Inr (ftensor_of (fdims w) (\<lambda>idx. fdiv (fentry w idx) (norm_f32 w))))"

definition fpadded :: "ftensor \<Rightarrow> nat \<Rightarrow> nat \<Rightarrow> nat \<Rightarrow> nat \<Rightarrow> nat \<Rightarrow> nat \<Rightarrow> f32" where
  "fpadded x ph pw n c r s =
     (if ph \<le> r \<and> pw \<le> s \<and> in_range (fdims x) [n, c, r - ph, s - pw]
      then fentry x [n, c, r - ph, s - pw] else Fin 0)"

definition conv2d_f32 ::
  "ftensor \<Rightarrow> ftensor \<Rightarrow> ftensor option \<Rightarrow> nat \<times> nat \<Rightarrow> nat \<times> nat \<Rightarrow> nat \<times> nat \<Rightarrow> nat
     \<Rightarrow> error + ftensor" where
  "conv2d_f32 x w b st pd dl grp =
     (case (fdims x, fdims w) of
        ([n, cin, h, wd], [cout, cg, kh, kw]) \<Rightarrow>
          if 0 < grp \<and> cin = cg * grp \<and> cout mod grp = 0
             \<and> 0 < fst st \<and> 0 < snd st \<and> 0 < fst dl \<and> 0 < snd dl
             \<and> 0 < kh \<and> 0 < kw \<and> 0 < cout
             \<and> fst dl * (kh - 1) + 1 \<le> h + 2 * fst pd
             \<and> snd dl * (kw - 1) + 1 \<le> wd + 2 * snd pd
             \<and> (case b of None \<Rightarrow> True | Some bt \<Rightarrow> fdims bt = [cout])
          then Inr (ftensor_of
                 [n, cout, conv_out h kh (fst st) (fst pd) (fst dl),
                           conv_out wd kw (snd st) (snd pd) (snd dl)]
                 (\<lambda>idx. case idx of
                    [i, co, r, s] \<Rightarrow>
                      (let acc = fsum (concat (map (\<lambda>ci. concat (map (\<lambda>u. map (\<lambda>v.
                             fmul (fentry w [co, ci, u, v])
                                  (fpadded x (fst pd) (snd pd) i
                                     ((co div (cout div grp)) * cg + ci)
                                     (r * fst st + u * fst dl)
                                     (s * snd st + v * snd dl)))
                             [0..<kw]) [0..<kh])) [0..<cg]))
                       in case b of None \<Rightarrow> acc | Some bt \<Rightarrow> fadd acc (fentry bt [co]))
                  | _ \<Rightarrow> Fin 0))
          else Inl ShapeError
      | _ \<Rightarrow> Inl ShapeError)"

definition WNC2D_forward_f32 :: "Conv2d \<Rightarrow> tensor \<Rightarrow> error + ftensor" where
  "WNC2D_forward_f32 c input =
     and_then (wn2d_f32 (to_f32 (weight c))) (\<lambda>wn.
     conv2d_f32 (to_f32 input) wn (map_option to_f32 (bias c))
       (stride c) (padding c) (dilation c) (groups c))"

text \<open>
  Scaling by a power of two is exact in binary floating point as long as nothing leaves
  the normal range. \<open>scales k x\<close>: both \<open>x\<close> and \<open>2 powr k * x\<close> are zero or of magnitude at
  least \<open>2 powr (-126)\<close> and round below \<open>2 ^ 128\<close>. \<open>sumsq_scales k a ys\<close>: computing the
  norm from the accumulator \<open>a\<close> over the stored values \<open>ys\<close> stays in that range at every
  step (each square, each partial sum and the root), for the values as they are and for
  the values scaled by \<open>2 powr k\<close>, whose squares and sums are scaled by \<open>2 powr (2 * k)\<close>.
  \<open>norm_scales k w\<close> is this condition for the entries of the weight \<open>w\<close>: neither the run
  on \<open>w\<close> nor the run on \<open>2 powr k * w\<close> overflows or underflows.
\<close>

definition scale32 :: "int \<Rightarrow> f32 \<Rightarrow> f32" where
  "scale32 k v = (case v of Fin x \<Rightarrow> Fin (2 powr of_int k * x) | _ \<Rightarrow> v)"

definition scales :: "int \<Rightarrow> real \<Rightarrow> bool" where
  "scales k x =
     (x = 0
      \<or> (2 powr (- 126) \<le> \<bar>x\<bar> \<and> 2 powr (- 126) \<le> 2 powr of_int k * \<bar>x\<bar>
         \<and> \<bar>nearest32 x\<bar> < 2 ^ 128 \<and> \<bar>nearest32 (2 powr of_int k * x)\<bar> < 2 ^ 128))"

fun sumsq_scales :: "int \<Rightarrow> real \<Rightarrow> real list \<Rightarrow> bool" where
  "sumsq_scales k a [] = scales k (sqrt a)"
| "sumsq_scales k a (y # ys) =
     (scales (2 * k) (y * y) \<and> scales (2 * k) (a + nearest32 (y * y))
      \<and> sumsq_scales k (nearest32 (a + nearest32 (y * y))) ys)"

definition norm_scales :: "int \<Rightarrow> tensor \<Rightarrow> bool" where
  "norm_scales k w =
     (list_all (\<lambda>idx. scales k (entry w idx)) (indices (dims w))
      \<and> sumsq_scales k 0 (map (\<lambda>idx. nearest32 (entry w idx)) (indices (dims w))))"

section \<open>layers.py: elementwise combinators\<close>

text \<open>
  The classes of the file and their method resolution orders. \<^verbatim>\<open>super(T, self)\<close> raises
  \<^verbatim>\<open>TypeError\<close> unless the class of \<^verbatim>\<open>self\<close> has \<open>T\<close> in its resolution order; otherwise
  it stands for the class that follows \<open>T\<close> there.
\<close>

datatype pyclass = class_object | class_Module | class_ESL | class_EML | class_CL

fun mro :: "pyclass \<Rightarrow> pyclass list" where
  "mro class_object = [class_object]"
| "mro class_Module = [class_Module, class_object]"
| "mro class_ESL = [class_ESL, class_Module, class_object]"
| "mro class_EML = [class_EML, class_Module, class_object]"
| "mro class_CL = [class_CL, class_Module, class_object]"

definition py_super :: "pyclass \<Rightarrow> pyclass \<Rightarrow> error + pyclass" where
  "py_super t self_class =
     (case dropWhile (\<lambda>k. k \<noteq> t) (mro self_class) of
        [] \<Rightarrow> Inl TypeError
      | [k] \<Rightarrow> Inl AttributeError
      | k # k' # ks \<Rightarrow> Inr k')"

record ESL =
  ESL_module :: "tensor \<Rightarrow> error + tensor"

record EML =
  EML_module :: "tensor \<Rightarrow> error + tensor"

text \<open>
  \<^verbatim>\<open>class ESL(nn.Module): def __init__(self, module): super(ESL, self).__init__(); self.module = module\<close>
\<close>

definition ESL_init :: "(tensor \<Rightarrow> error + tensor) \<Rightarrow> error + ESL" where
  "ESL_init module' =
     and_then (py_super class_ESL class_ESL) (\<lambda>parent. Inr \<lparr>ESL_module = module'\<rparr>)"

definition ESL_forward :: "ESL \<Rightarrow> tensor \<Rightarrow> error + tensor" where
  "ESL_forward self x = and_then (ESL_module self x) (\<lambda>y. tadd x y)"

text \<open>
  \<^verbatim>\<open>class EML(nn.Module): def __init__(self, module): super(ESL, self).__init__(); self.module = module\<close>
\<close>

definition EML_init :: "(tensor \<Rightarrow> error + tensor) \<Rightarrow> error + EML" where
  "EML_init module' =
     and_then (py_super class_ESL class_EML) (\<lambda>parent. Inr \<lparr>EML_module = module'\<rparr>)"

definition EML_forward :: "EML \<Rightarrow> tensor \<Rightarrow> error + tensor" where
  "EML_forward self x = and_then (EML_module self x) (\<lambda>y. tmul x y)"

section \<open>layers.py: seq\<close>

text \<open>
  \<^verbatim>\<open>seq\<close> puts a nonlinearity between an optional batch normalisation and a convolution.
  The padding of the convolution is computed from kernel size and dilation with Python's
  integer arithmetic.
\<close>

record seq =
  seq_dilation :: "nat \<times> nat"
  seq_preactivation :: bool
  seq_batchnorm :: bool
  seq_bn :: "BatchNorm2d option"
  seq_conv :: Conv2d
  seq_activation :: "real \<Rightarrow> real"

definition seq_padding :: "nat \<Rightarrow> nat \<Rightarrow> nat" where
  "seq_padding k d = nat ((int k + (int k - 1) * (int d - 1)) div 2)"

definition seq_init ::
  "nat \<Rightarrow> nat \<Rightarrow> nat \<times> nat \<Rightarrow> nat \<times> nat \<Rightarrow> bool \<Rightarrow> bool \<Rightarrow> nat \<Rightarrow> (real \<Rightarrow> real)
     \<Rightarrow> (nat list \<Rightarrow> real) \<Rightarrow> (nat \<Rightarrow> real) \<Rightarrow> (nat \<Rightarrow> real) \<Rightarrow> error + seq" where
  "seq_init n_in n_out ks dil preactivation batchnorm grp activation wsrc gsrc bsrc =
     and_then
       (Conv2d_init n_in n_out ks (1, 1)
          (seq_padding (fst ks) (fst dil), seq_padding (snd ks) (snd dil)) dil grp wsrc)
       (\<lambda>cv. Inr \<lparr>seq_dilation = dil, seq_preactivation = preactivation,
                   seq_batchnorm = batchnorm,
                   seq_bn = (if batchnorm then Some (BatchNorm2d_init n_in gsrc bsrc) else None),
                   seq_conv = cv, seq_activation = activation\<rparr>)"

definition seq_call_bn :: "seq \<Rightarrow> tensor \<Rightarrow> error + tensor" where
  "seq_call_bn self x =
     (case seq_bn self of None \<Rightarrow> Inl AttributeError | Some bn \<Rightarrow> BatchNorm2d_forward bn x)"

definition seq_forward :: "seq \<Rightarrow> tensor \<Rightarrow> (real \<Rightarrow> real) \<Rightarrow> error + tensor" where
  "seq_forward self x f =
     (if seq_preactivation self then
        (if seq_batchnorm self
         then and_then (seq_call_bn self x) (\<lambda>y. Conv2d_forward (seq_conv self) (tmap f y))
         else Conv2d_forward (seq_conv self) (tmap f x))
      else
        (if seq_batchnorm self
         then and_then (Conv2d_forward (seq_conv self) x) (\<lambda>y.
              and_then (seq_call_bn self y) (\<lambda>z. Inr (tmap f z)))
         else and_then (Conv2d_forward (seq_conv self) x) (\<lambda>y. Inr (tmap f y))))"

section \<open>layers.py: Layer\<close>

text \<open>
  The members of an \<^verbatim>\<open>nn.Sequential\<close> that \<^verbatim>\<open>Layer\<close> builds, and the two kinds of entry
  of its op list: a \<^verbatim>\<open>seq\<close>, or the bare \<^verbatim>\<open>nn.Module()\<close> stored for an inactive op, whose
  call raises \<^verbatim>\<open>NotImplementedError\<close>.
\<close>

datatype submodule =
    BatchNorm2d_module BatchNorm2d
  | ReLU_module
  | Conv2d_module Conv2d
  | WNC2D_module Conv2d

fun submodule_forward :: "submodule \<Rightarrow> tensor \<Rightarrow> error + tensor" where
  "submodule_forward (BatchNorm2d_module bn) x = BatchNorm2d_forward bn x"
| "submodule_forward ReLU_module x = Inr (tmap relu x)"
| "submodule_forward (Conv2d_module c) x = Conv2d_forward c x"
| "submodule_forward (WNC2D_module c) x = WNC2D_forward c x"

fun Sequential_forward :: "submodule list \<Rightarrow> tensor \<Rightarrow> error + tensor" where
  "Sequential_forward [] x = Inr x"
| "Sequential_forward (m # ms) x = and_then (submodule_forward m x) (Sequential_forward ms)"

datatype op_entry = seq_op seq | bare_Module

fun is_seq :: "op_entry \<Rightarrow> bool" where
  "is_seq (seq_op s) = True"
| "is_seq bare_Module = False"

fun call_op :: "op_entry \<Rightarrow> tensor \<Rightarrow> (real \<Rightarrow> real) \<Rightarrow> error + tensor" where
  "call_op (seq_op s) x f = seq_forward s x f"
| "call_op bare_Module x f = Inl NotImplementedError"

text \<open>Between the two stages \<^verbatim>\<open>out\<close> is a tensor or a Python list of two tensors.\<close>

datatype flow = single tensor | pair tensor tensor

record Layer =
  L_n_in :: nat
  L_n_bottle :: nat
  L_n_out :: nat
  L_ops :: "bool list"
  L_gate :: "bool list"
  L_dilation :: "(nat \<times> nat) list"
  L_activation :: "(real \<Rightarrow> real) list"
  L_kernel_size :: "(nat \<times> nat) list"
  L_preactivation :: bool
  L_gate_style :: string
  L_norm_style :: string
  L_initial_op :: "submodule list"
  L_seq_bn :: bool
  L_op :: "op_entry list"

text \<open>
  The loop \<^verbatim>\<open>for i, o in enumerate(ops)\<close> of the constructor. The parameter sources are
  keyed by a module number: \<open>wsrc k\<close> holds the weight values of convolution \<open>k\<close>, and
  \<open>gsrc k\<close>, \<open>bsrc k\<close> the scale and shift of normalisation \<open>k\<close>.
\<close>

fun Layer_make_ops ::
  "nat \<Rightarrow> nat \<Rightarrow> (nat \<times> nat) list \<Rightarrow> (real \<Rightarrow> real) list \<Rightarrow> (nat \<times> nat) list \<Rightarrow> nat list
     \<Rightarrow> bool \<Rightarrow> bool \<Rightarrow> (nat \<Rightarrow> nat list \<Rightarrow> real) \<Rightarrow> (nat \<Rightarrow> nat \<Rightarrow> real) \<Rightarrow> (nat \<Rightarrow> nat \<Rightarrow> real)
     \<Rightarrow> nat \<Rightarrow> bool list \<Rightarrow> error + op_entry list" where
  "Layer_make_ops n_bottle n_out dil act ks grp preact sbn wsrc gsrc bsrc i [] = Inr []"
| "Layer_make_ops n_bottle n_out dil act ks grp preact sbn wsrc gsrc bsrc i (flag # flags) =
     and_then
       (if flag then
          and_then (getitem dil i) (\<lambda>d.
          and_then (getitem ks i) (\<lambda>k.
          and_then (getitem grp i) (\<lambda>g.
          and_then (getitem act i) (\<lambda>a.
          and_then (seq_init (if i mod 2 \<noteq> 0 then n_out else n_bottle) n_out k d preact sbn g a
                      (wsrc (i + 1)) (gsrc (i + 2)) (bsrc (i + 2)))
            (\<lambda>s. Inr (seq_op s))))))
        else Inr bare_Module)
       (\<lambda>e. and_then
               (Layer_make_ops n_bottle n_out dil act ks grp preact sbn wsrc gsrc bsrc (i + 1) flags)
               (\<lambda>es. Inr (e # es)))"

definition Layer_init ::
  "nat \<Rightarrow> nat \<Rightarrow> nat \<Rightarrow> bool list \<Rightarrow> bool list \<Rightarrow> (nat \<times> nat) list \<Rightarrow> (real \<Rightarrow> real) list
     \<Rightarrow> (nat \<times> nat) list \<Rightarrow> nat list \<Rightarrow> bool \<Rightarrow> string \<Rightarrow> string
     \<Rightarrow> (nat \<Rightarrow> nat list \<Rightarrow> real) \<Rightarrow> (nat \<Rightarrow> nat \<Rightarrow> real) \<Rightarrow> (nat \<Rightarrow> nat \<Rightarrow> real)
     \<Rightarrow> error + Layer" where
  "Layer_init n_in n_bottle n_out ops gate dil act ks grp preact gate_style norm_style
       wsrc gsrc bsrc =
     and_then (Conv2d_init n_in n_bottle (1, 1) (1, 1) (0, 0) (1, 1) 1 (wsrc 0)) (\<lambda>conv1.
       (let bn1 = BatchNorm2d_init (if preact then n_in else n_bottle) (gsrc 0) (bsrc 0);
            op0 = (if norm_style \<noteq> ''WN'' then
                     (if preact
                      then [BatchNorm2d_module bn1, ReLU_module, Conv2d_module conv1]
                      else [Conv2d_module conv1, BatchNorm2d_module bn1, ReLU_module])
                   else
                     (if preact then [ReLU_module, WNC2D_module conv1]
                      else [WNC2D_module conv1, ReLU_module]));
            op1 = (if norm_style = ''sandwich''
                   then op0 @ [BatchNorm2d_module (BatchNorm2d_init n_bottle (gsrc 1) (bsrc 1))]
                   else op0);
            sbn = (norm_style = ''full'')
        in and_then
             (Layer_make_ops n_bottle n_out dil act ks grp preact sbn wsrc gsrc bsrc 0 ops)
             (\<lambda>es. Inr \<lparr>L_n_in = n_in, L_n_bottle = n_bottle, L_n_out = n_out, L_ops = ops,
                        L_gate = gate, L_dilation = dil, L_activation = act,
                        L_kernel_size = ks, L_preactivation = preact,
                        L_gate_style = gate_style, L_norm_style = norm_style,
                        L_initial_op = op1, L_seq_bn = sbn, L_op = es\<rparr>)))"

text \<open>\<^verbatim>\<open>F.tanh(pre_gate[:,::2]) * F.sigmoid(pre_gate[:,1::2])\<close>\<close>

definition split_gate :: "tensor \<Rightarrow> error + tensor" where
  "split_gate pre_gate =
     and_then (every_second 0 pre_gate) (\<lambda>ev.
     and_then (every_second 1 pre_gate) (\<lambda>od.
     tmul (tmap tanh ev) (tmap sigmoid od)))"

text \<open>
  \<open>call2 self i a f j b g\<close> is the pair \<^verbatim>\<open>self.op[i](a, f)\<close>, \<^verbatim>\<open>self.op[j](b, g)\<close>, evaluated
  left to right.
\<close>

definition call2 ::
  "Layer \<Rightarrow> nat \<Rightarrow> tensor \<Rightarrow> (real \<Rightarrow> real) \<Rightarrow> nat \<Rightarrow> tensor \<Rightarrow> (real \<Rightarrow> real)
     \<Rightarrow> (tensor \<Rightarrow> tensor \<Rightarrow> error + 'a) \<Rightarrow> error + 'a" where
  "call2 self i a f j b g k =
     and_then (getitem (L_op self) i) (\<lambda>oi.
     and_then (call_op oi a f) (\<lambda>u.
     and_then (getitem (L_op self) j) (\<lambda>oj.
     and_then (call_op oj b g) (\<lambda>v. k u v))))"

definition Layer_stage0 :: "Layer \<Rightarrow> tensor \<Rightarrow> error + flow" where
  "Layer_stage0 self out =
     and_then (getitem (L_gate self) 0) (\<lambda>g0.
       if g0 then
         (if L_gate_style self = ''mult''
          then call2 self 0 out tanh 2 out sigmoid
                 (\<lambda>u v. and_then (tmul u v) (\<lambda>t. Inr (single t)))
          else call2 self 0 out relu 2 out relu
                 (\<lambda>u v. and_then (tadd u v) (\<lambda>pre_gate.
                         and_then (split_gate pre_gate) (\<lambda>t. Inr (single t)))))
       else
         and_then (getitem (L_op self) 2) (\<lambda>o2.
           if is_seq o2
           then call2 self 0 out relu 2 out relu (\<lambda>u v. Inr (pair u v))
           else and_then (getitem (L_op self) 0) (\<lambda>o0.
                and_then (call_op o0 out relu) (\<lambda>t. Inr (single t)))))"

definition Layer_stage1 :: "Layer \<Rightarrow> flow \<Rightarrow> error + tensor" where
  "Layer_stage1 self out =
     and_then (getitem (L_gate self) 1) (\<lambda>g1.
       if g1 then
         (case out of
            pair a b \<Rightarrow>
              if L_gate_style self = ''mult''
              then call2 self 1 a tanh 3 b sigmoid tmul
              else call2 self 1 a relu 3 b relu
                     (\<lambda>u v. and_then (tadd u v) split_gate)
          | single t \<Rightarrow>
              if L_gate_style self = ''mult''
              then call2 self 1 t tanh 3 t sigmoid tmul
              else call2 self 1 t relu 3 t relu
                     (\<lambda>u v. and_then (tadd u v) split_gate))
       else
         and_then (getitem (L_op self) 3) (\<lambda>o3.
           if is_seq o3 then
             (case out of
                pair a b \<Rightarrow> call2 self 1 a relu 3 b relu tadd
              | single t \<Rightarrow> call2 self 1 t relu 3 t relu tadd)
           else
             and_then (getitem (L_op self) 1) (\<lambda>o1.
               if is_seq o1 then
                 (case out of
                    pair a b \<Rightarrow> and_then (call_op o1 a relu) (\<lambda>u. tadd u b)
                  | single t \<Rightarrow> call_op o1 t relu)
               else
                 (case out of
                    pair a b \<Rightarrow> tadd a b
                  | single t \<Rightarrow> Inr t))))"

definition Layer_forward :: "Layer \<Rightarrow> tensor \<Rightarrow> error + tensor" where
  "Layer_forward self x =
     and_then (Sequential_forward (L_initial_op self) x) (\<lambda>out.
     and_then (Layer_stage0 self out) (Layer_stage1 self))"

section \<open>layers.py: MDC\<close>

definition stencil5 :: "real list list" where
  "stencil5 = [[1,0,1,0,1],
               [0,1,1,1,0],
               [1,1,1,1,1],
               [0,1,1,1,0],
               [1,0,1,0,1]]"

definition stencil7 :: "real list list" where
  "stencil7 = [[1,0,0,1,0,0,1],
               [0,1,0,1,0,1,0],
               [0,0,1,1,1,0,0],
               [1,1,1,1,1,1,1],
               [0,0,1,1,1,0,0],
               [0,1,0,1,0,1,0],
               [1,0,0,1,0,0,1]]"

definition mask_of :: "real list list \<Rightarrow> nat \<Rightarrow> nat \<Rightarrow> tensor" where
  "mask_of st n_in n_out =
     tensor_of [n_out, n_in, length st, length st]
       (\<lambda>idx. case idx of [co, ci, u, v] \<Rightarrow> st ! u ! v | _ \<Rightarrow> 0)"

record MDC =
  MDC_dilation :: nat
  MDC_m :: "tensor option"
  MDC_conv :: Conv2d

definition MDC_init :: "nat \<Rightarrow> nat \<Rightarrow> nat \<Rightarrow> (nat list \<Rightarrow> real) \<Rightarrow> error + MDC" where
  "MDC_init n_in n_out dil wsrc =
     (let k = nat (3 + 2 * (int dil - 1)) in
      and_then (Conv2d_init n_in n_out (k, k) (1, 1) (dil, dil) (dil, dil) 1 wsrc)
        (\<lambda>cv. Inr \<lparr>MDC_dilation = dil,
                    MDC_m = (if dil = 2 then Some (mask_of stencil5 n_in n_out)
                             else if dil = 3 then Some (mask_of stencil7 n_in n_out)
                             else None),
                    MDC_conv = cv\<rparr>))"

definition MDC_forward :: "MDC \<Rightarrow> tensor \<Rightarrow> error + tensor" where
  "MDC_forward self x =
     (if MDC_dilation self > 1 then
        (case MDC_m self of
           None \<Rightarrow> Inl AttributeError
         | Some mk \<Rightarrow>
             and_then (tmul (weight (MDC_conv self)) mk) (\<lambda>w.
             conv2d x w None (1, 1) (MDC_dilation self, MDC_dilation self) (1, 1) 1))
      else Conv2d_forward (MDC_conv self) x)"

section \<open>Models/WRN\_MOS.py: BasicBlock\<close>

text \<open>
  \<^verbatim>\<open>F.dropout(out, p, training)\<close>: in training mode every entry is multiplied by a random
  factor, 0 or \<open>1 / (1 - p)\<close>; \<open>keep\<close> gives the factor drawn for each position.
\<close>

definition dropout :: "real \<Rightarrow> bool \<Rightarrow> (nat list \<Rightarrow> real) \<Rightarrow> tensor \<Rightarrow> error + tensor" where
  "dropout p training keep t =
     (if p < 0 \<or> 1 < p then Inl ValueError
      else if training then Inr (tensor_of (dims t) (\<lambda>idx. entry t idx * keep idx))
      else Inr t)"

record BasicBlock =
  BB_bn1 :: BatchNorm2d
  BB_conv1 :: Conv2d
  BB_bn2 :: BatchNorm2d
  BB_conv2 :: Conv2d
  BB_droprate :: real
  BB_equalInOut :: bool
  BB_convShortcut :: "Conv2d option"
  BB_training :: bool
  BB_keep :: "nat list \<Rightarrow> real"

text \<open>
  The parameter source \<open>psrc\<close> is keyed by a module number inside the block: 0 and 1 for
  the two 3x3 convolutions, 2 for the shortcut, 3 to 6 for the scales and shifts of the two
  normalisations.
\<close>

definition BasicBlock_init ::
  "nat \<Rightarrow> nat \<Rightarrow> nat \<Rightarrow> real \<Rightarrow> (nat \<Rightarrow> nat list \<Rightarrow> real) \<Rightarrow> (nat list \<Rightarrow> real)
     \<Rightarrow> error + BasicBlock" where
  "BasicBlock_init in_planes out_planes stride' dropRate psrc keep =
     and_then (Conv2d_init in_planes out_planes (3, 3) (stride', stride') (1, 1) (1, 1) 1 (psrc 0))
       (\<lambda>conv1.
     and_then (Conv2d_init out_planes out_planes (3, 3) (1, 1) (1, 1) (1, 1) 1 (psrc 1))
       (\<lambda>conv2.
     and_then
       (if in_planes \<noteq> out_planes
        then and_then
               (Conv2d_init in_planes out_planes (1, 1) (stride', stride') (0, 0) (1, 1) 1 (psrc 2))
               (\<lambda>c. Inr (Some c))
        else Inr None)
       (\<lambda>shortcut.
     Inr \<lparr>BB_bn1 = BatchNorm2d_init in_planes (\<lambda>k. psrc 3 [k]) (\<lambda>k. psrc 4 [k]),
          BB_conv1 = conv1,
          BB_bn2 = BatchNorm2d_init out_planes (\<lambda>k. psrc 5 [k]) (\<lambda>k. psrc 6 [k]),
          BB_conv2 = conv2,
          BB_droprate = dropRate,
          BB_equalInOut = (in_planes = out_planes),
          BB_convShortcut = shortcut,
          BB_training = True,
          BB_keep = keep\<rparr>)))"

definition bn_relu :: "BatchNorm2d \<Rightarrow> tensor \<Rightarrow> error + tensor" where
  "bn_relu bn x = and_then (BatchNorm2d_forward bn x) (\<lambda>y. Inr (tmap relu y))"

definition BasicBlock_forward :: "BasicBlock \<Rightarrow> tensor \<Rightarrow> error + tensor" where
  "BasicBlock_forward self x0 =
     and_then (bn_relu (BB_bn1 self) x0) (\<lambda>act.
       (let x = (if \<not> BB_equalInOut self then act else x0) in
        and_then (Conv2d_forward (BB_conv1 self) (if BB_equalInOut self then act else x)) (\<lambda>c1.
        and_then (bn_relu (BB_bn2 self) c1) (\<lambda>out1.
        and_then (if BB_droprate self > 0
                  then dropout (BB_droprate self) (BB_training self) (BB_keep self) out1
                  else Inr out1) (\<lambda>out2.
        and_then (Conv2d_forward (BB_conv2 self) out2) (\<lambda>out3.
        and_then (if BB_equalInOut self then Inr x
                  else (case BB_convShortcut self of
                          None \<Rightarrow> Inl TypeError
                        | Some sc \<Rightarrow> Conv2d_forward sc x)) (\<lambda>res.
        tadd res out3)))))))"

section \<open>Models/WRN\_MOS.py: Network\<close>

text \<open>\<^verbatim>\<open>nn.Linear\<close> on a matrix of row vectors.\<close>

record Linear =
  in_features :: nat
  out_features :: nat
  lin_weight :: tensor
  lin_bias :: tensor

definition Linear_forward :: "Linear \<Rightarrow> tensor \<Rightarrow> error + tensor" where
  "Linear_forward l x =
     (case dims x of
        [n, k] \<Rightarrow>
          if k = in_features l then
            Inr (tensor_of [n, out_features l]
                  (\<lambda>idx. case idx of
                     [i, j] \<Rightarrow> (\<Sum>c\<leftarrow>[0..<k]. entry x [i, c] * entry (lin_weight l) [j, c])
                                + entry (lin_bias l) [j]
                   | _ \<Rightarrow> 0))
          else Inl ShapeError
      | _ \<Rightarrow> Inl ShapeError)"

text \<open>
  \<^verbatim>\<open>F.avg_pool2d(x, (kh, kw))\<close>: the stride is the kernel, there is no padding.
\<close>

definition avg_pool2d :: "tensor \<Rightarrow> nat \<times> nat \<Rightarrow> error + tensor" where
  "avg_pool2d x k =
     (case dims x of
        [n, c, h, w] \<Rightarrow>
          if 0 < fst k \<and> 0 < snd k \<and> fst k \<le> h \<and> snd k \<le> w then
            Inr (tensor_of [n, c, (h - fst k) div fst k + 1, (w - snd k) div snd k + 1]
                  (\<lambda>idx. case idx of
                     [i, ch, r, s] \<Rightarrow>
                       (\<Sum>u\<leftarrow>[0..<fst k]. \<Sum>v\<leftarrow>[0..<snd k].
                          entry x [i, ch, r * fst k + u, s * snd k + v]) / real (fst k * snd k)
                   | _ \<Rightarrow> 0))
          else Inl ShapeError
      | _ \<Rightarrow> Inl ShapeError)"

text \<open>\<^verbatim>\<open>t.size(k)\<close>\<close>

definition size_of :: "tensor \<Rightarrow> nat \<Rightarrow> error + nat" where
  "size_of t k = getitem (dims t) k"

text \<open>
  \<^verbatim>\<open>t.view(-1, m)\<close>: rows of \<open>m\<close> entries, as many as the entries give; a tensor without
  entries gives no row. \<open>m = 0\<close> leaves the number of rows undetermined and is refused.
\<close>

definition view_rows :: "nat \<Rightarrow> tensor \<Rightarrow> error + tensor" where
  "view_rows m t =
     (if m = 0 \<or> numel (dims t) mod m \<noteq> 0 then Inl ShapeError
      else view [numel (dims t) div m, m] t)"

text \<open>
  \<^verbatim>\<open>t[:, a:b]\<close> for non-negative bounds, \<^verbatim>\<open>t[:, -k:]\<close>, \<^verbatim>\<open>t[:, i]\<close> and \<^verbatim>\<open>t.unsqueeze(1)\<close>
  on matrices and vectors.
\<close>

definition slice_cols :: "tensor \<Rightarrow> nat \<Rightarrow> nat \<Rightarrow> error + tensor" where
  "slice_cols t a b =
     (case dims t of
        [n, m] \<Rightarrow> Inr (tensor_of [n, min b m - min a m]
                       (\<lambda>idx. case idx of [i, j] \<Rightarrow> entry t [i, min a m + j] | _ \<Rightarrow> 0))
      | _ \<Rightarrow> Inl IndexError)"

definition last_cols :: "tensor \<Rightarrow> nat \<Rightarrow> error + tensor" where
  "last_cols t k =
     (case dims t of
        [n, m] \<Rightarrow> slice_cols t (if k = 0 then 0 else m - k) m
      | _ \<Rightarrow> Inl IndexError)"

definition select_col :: "tensor \<Rightarrow> nat \<Rightarrow> error + tensor" where
  "select_col t j =
     (case dims t of
        [n, m] \<Rightarrow> if j < m then Inr (tensor_of [n] (\<lambda>idx. case idx of [i] \<Rightarrow> entry t [i, j] | _ \<Rightarrow> 0))
                  else Inl IndexError
      | _ \<Rightarrow> Inl IndexError)"

definition unsqueeze1 :: "tensor \<Rightarrow> error + tensor" where
  "unsqueeze1 t =
     (case dims t of
        [n] \<Rightarrow> Inr (tensor_of [n, 1] (\<lambda>idx. case idx of [i, j] \<Rightarrow> entry t [i] | _ \<Rightarrow> 0))
      | _ \<Rightarrow> Inl IndexError)"

text \<open>
  \<^verbatim>\<open>F.softmax(t)\<close> without an axis normalises a matrix along axis 1, each row on its own.
  Only matrices are passed to it here.
\<close>

definition softmax :: "tensor \<Rightarrow> error + tensor" where
  "softmax t =
     (case dims t of
        [n, m] \<Rightarrow>
          Inr (tensor_of [n, m]
                (\<lambda>idx. case idx of
                   [i, j] \<Rightarrow> exp (entry t [i, j]) / (\<Sum>l\<leftarrow>[0..<m]. exp (entry t [i, l]))
                 | _ \<Rightarrow> 0))
      | _ \<Rightarrow> Inl ShapeError)"

text \<open>\<^verbatim>\<open>torch.stack(ts, 1)\<close> of matrices, \<^verbatim>\<open>t.sum(1)\<close> of the result, and \<^verbatim>\<open>torch.log\<close>.\<close>

definition stack1 :: "tensor list \<Rightarrow> error + tensor" where
  "stack1 ts =
     (case ts of
        [] \<Rightarrow> Inl ShapeError
      | t # rest \<Rightarrow>
          (case dims t of
             [n, m] \<Rightarrow>
               if list_all (\<lambda>u. dims u = [n, m]) rest
               then Inr (tensor_of [n, length ts, m]
                          (\<lambda>idx. case idx of [i, c, j] \<Rightarrow> entry (ts ! c) [i, j] | _ \<Rightarrow> 0))
               else Inl ShapeError
           | _ \<Rightarrow> Inl ShapeError))"

definition sum1 :: "tensor \<Rightarrow> error + tensor" where
  "sum1 t =
     (case dims t of
        [n, k, m] \<Rightarrow>
          Inr (tensor_of [n, m]
                (\<lambda>idx. case idx of [i, j] \<Rightarrow> (\<Sum>c\<leftarrow>[0..<k]. entry t [i, c, j]) | _ \<Rightarrow> 0))
      | _ \<Rightarrow> Inl ShapeError)"

definition tlog :: "tensor \<Rightarrow> error + tensor" where
  "tlog t =
     (if list_ex (\<lambda>idx. entry t idx \<le> 0) (indices (dims t)) then Inl NonFinite
      else Inr (tmap ln t))"

text \<open>Running a list of fallible computations in order, as a list comprehension does.\<close>

fun collect :: "(error + 'a) list \<Rightarrow> error + 'a list" where
  "collect [] = Inr []"
| "collect (m # ms) = and_then m (\<lambda>v. and_then (collect ms) (\<lambda>vs. Inr (v # vs)))"

text \<open>Python's \<^verbatim>\<open>a and b or c\<close> for a Boolean \<open>a\<close> and integers \<open>b\<close>, \<open>c\<close>.\<close>

definition and_or :: "bool \<Rightarrow> nat \<Rightarrow> nat \<Rightarrow> nat" where
  "and_or a b c = (if a \<and> b \<noteq> 0 then b else c)"

record Network =
  N_epochs :: nat
  N_nClasses :: nat
  N_n_components :: nat
  N_conv1 :: Conv2d
  N_block1 :: "BasicBlock list"
  N_block2 :: "BasicBlock list"
  N_block3 :: "BasicBlock list"
  N_bn1 :: BatchNorm2d
  N_fc :: Linear
  N_nChannels :: nat
  N_lr :: real
  N_j :: nat

text \<open>
  \<^verbatim>\<open>_make_layer\<close>: \<open>nb_layers\<close> blocks, the first from \<open>in_planes\<close> at the given stride, the
  others from \<open>out_planes\<close> at stride 1. \<open>range\<close> of a negative number is empty.
\<close>

definition make_layer ::
  "int \<Rightarrow> nat \<Rightarrow> nat \<Rightarrow> nat \<Rightarrow> real \<Rightarrow> (nat \<Rightarrow> nat \<Rightarrow> nat list \<Rightarrow> real) \<Rightarrow> (nat \<Rightarrow> nat list \<Rightarrow> real)
     \<Rightarrow> error + BasicBlock list" where
  "make_layer nb_layers in_planes out_planes stride' dropRate psrc keep =
     collect (map (\<lambda>i. BasicBlock_init (and_or (i = 0) in_planes out_planes) out_planes
                          (and_or (i = 0) stride' 1) dropRate (psrc i) (keep i))
                  [0..<nat nb_layers])"

text \<open>
  The constructor. \<open>depth\<close> is a Python integer; the channel multiplier and the class count
  are natural numbers. On the path past the assertion \<open>depth - 4\<close> is a multiple of 6, so
  \<^verbatim>\<open>int((depth - 4) / 6)\<close> is the exact quotient. The loop over \<^verbatim>\<open>self.modules()\<close> redraws
  every convolution weight with standard deviation \<^verbatim>\<open>math.sqrt(2. / n)\<close>, \<open>n\<close> the kernel
  area times the number of output channels, sets every normalisation to scale 1 and shift
  0 and zeroes the bias of the linear layer; the parameter source \<open>psrc\<close> stands for the
  values drawn, keyed by block group (0 for the modules outside the groups), block and
  module. The division raises when a convolution has no output channel. The optimiser
  built at the end takes the parameters as they are and is not part of the forward pass.
\<close>

definition conv_std :: "Conv2d \<Rightarrow> error + real" where
  "conv_std m =
     (let n = fst (kernel_size m) * snd (kernel_size m) * out_channels m
      in if n = 0 then Inl ZeroDivisionError else Inr (sqrt (2 / real n)))"

definition block_convs :: "BasicBlock \<Rightarrow> Conv2d list" where
  "block_convs b =
     BB_conv1 b # BB_conv2 b # (case BB_convShortcut b of None \<Rightarrow> [] | Some sc \<Rightarrow> [sc])"

definition reset_bn :: "BatchNorm2d \<Rightarrow> BatchNorm2d" where
  "reset_bn bn = bn\<lparr>bn_weight := (\<lambda>k. 1), bn_bias := (\<lambda>k. 0)\<rparr>"

definition reset_block :: "BasicBlock \<Rightarrow> BasicBlock" where
  "reset_block b = b\<lparr>BB_bn1 := reset_bn (BB_bn1 b), BB_bn2 := reset_bn (BB_bn2 b)\<rparr>"

definition Network_init ::
  "nat \<Rightarrow> int \<Rightarrow> nat \<Rightarrow> nat \<Rightarrow> real \<Rightarrow> (nat \<Rightarrow> nat \<Rightarrow> nat \<Rightarrow> nat list \<Rightarrow> real)
     \<Rightarrow> (nat \<Rightarrow> nat \<Rightarrow> nat list \<Rightarrow> real) \<Rightarrow> error + Network" where
  "Network_init widen_factor depth nClasses epochs dropRate psrc keep =
     (let nChannels = [16, 16 * widen_factor, 32 * widen_factor, 64 * widen_factor];
          n_components = 10
      in if (depth - 4) mod 6 \<noteq> 0 then Inl AssertionError
         else
           (let n = (depth - 4) div 6 in
            and_then (Conv2d_init 3 (nChannels ! 0) (3, 3) (1, 1) (1, 1) (1, 1) 1 (psrc 0 0 0))
              (\<lambda>conv1.
            and_then (make_layer n (nChannels ! 0) (nChannels ! 1) 1 dropRate (psrc 1) (keep 1))
              (\<lambda>block1.
            and_then (make_layer n (nChannels ! 1) (nChannels ! 2) 2 dropRate (psrc 2) (keep 2))
              (\<lambda>block2.
            and_then (make_layer n (nChannels ! 2) (nChannels ! 3) 2 dropRate (psrc 3) (keep 3))
              (\<lambda>block3.
            and_then (collect (map conv_std
                        (conv1 # concat (map block_convs (block1 @ block2 @ block3)))))
              (\<lambda>stds.
            Inr \<lparr>N_epochs = epochs, N_nClasses = nClasses, N_n_components = n_components,
                 N_conv1 = conv1,
                 N_block1 = map reset_block block1,
                 N_block2 = map reset_block block2,
                 N_block3 = map reset_block block3,
                 N_bn1 = reset_bn (BatchNorm2d_init (nChannels ! 3) (\<lambda>k. 1) (\<lambda>k. 0)),
                 N_fc = \<lparr>in_features = nChannels ! 3,
                         out_features = (nClasses + 1) * n_components,
                         lin_weight = tensor_of [(nClasses + 1) * n_components, nChannels ! 3]
                                        (psrc 0 0 1),
                         lin_bias = tensor_of [(nClasses + 1) * n_components] (\<lambda>idx. 0)\<rparr>,
                 N_nChannels = nChannels ! 3,
                 N_lr = 1 / 10,
                 N_j = 0\<rparr>)))))))"

fun blocks_forward :: "BasicBlock list \<Rightarrow> tensor \<Rightarrow> error + tensor" where
  "blocks_forward [] x = Inr x"
| "blocks_forward (b # bs) x = and_then (BasicBlock_forward b x) (blocks_forward bs)"

text \<open>
  The mixture head: \<open>priors\<close> is the softmax of the last \<open>n_components\<close> columns of
  \<open>context\<close>, component \<open>i\<close> the softmax of columns \<open>i * nClasses\<close> up to
  \<open>(i + 1) * nClasses\<close>, and the result the logarithm of the prior-weighted sum.
\<close>

definition mixture_component :: "Network \<Rightarrow> tensor \<Rightarrow> tensor \<Rightarrow> nat \<Rightarrow> error + tensor" where
  "mixture_component self context priors i =
     and_then (select_col priors i) (\<lambda>p.
     and_then (unsqueeze1 p) (\<lambda>p1.
     and_then (slice_cols context (i * N_nClasses self) ((i + 1) * N_nClasses self)) (\<lambda>sl.
     and_then (softmax sl) (\<lambda>sm.
     tmul p1 sm))))"

definition mixture_head :: "Network \<Rightarrow> tensor \<Rightarrow> error + tensor" where
  "mixture_head self context =
     and_then (last_cols context (N_n_components self)) (\<lambda>lc.
     and_then (softmax lc) (\<lambda>priors.
     and_then (collect (map (mixture_component self context priors) [0..<N_n_components self]))
       (\<lambda>ms.
     and_then (stack1 ms) (\<lambda>mixtures.
     and_then (sum1 mixtures) tlog))))"

text \<open>
  \<^verbatim>\<open>Network.forward\<close>: the lines up to \<^verbatim>\<open>context = self.fc(out)\<close> compute the output of
  the linear layer, the rest is the mixture head on it.
\<close>

definition Network_context :: "Network \<Rightarrow> tensor \<Rightarrow> error + tensor" where
  "Network_context self x =
     and_then (Conv2d_forward (N_conv1 self) x) (\<lambda>out1.
     and_then (blocks_forward (N_block1 self) out1) (\<lambda>out2.
     and_then (blocks_forward (N_block2 self) out2) (\<lambda>out3.
     and_then (blocks_forward (N_block3 self) out3) (\<lambda>out4.
     and_then (bn_relu (N_bn1 self) out4) (\<lambda>out5.
     and_then (size_of out5 2) (\<lambda>h.
     and_then (size_of out5 3) (\<lambda>w.
     and_then (avg_pool2d out5 (h, w)) (\<lambda>out6.
     and_then (view_rows (N_nChannels self) out6) (\<lambda>out7.
     Linear_forward (N_fc self) out7)))))))))"

definition Network_forward :: "Network \<Rightarrow> tensor \<Rightarrow> error + tensor" where
  "Network_forward self x = and_then (Network_context self x) (mixture_head self)"

section \<open>Well-formed modules\<close>

text \<open>
  A convolution module is well formed when its weight has the shape its configuration
  announces, as every constructed \<^verbatim>\<open>nn.Conv2d\<close> has.
\<close>

definition conv_ok :: "Conv2d \<Rightarrow> bool" where
  "conv_ok c =
     (dims (weight c) = [out_channels c, in_channels c div groups c,
                         fst (kernel_size c), snd (kernel_size c)]
      \<and> 0 < groups c \<and> in_channels c mod groups c = 0 \<and> out_channels c mod groups c = 0
      \<and> 0 < out_channels c \<and> 0 < fst (kernel_size c) \<and> 0 < snd (kernel_size c)
      \<and> 0 < fst (stride c) \<and> 0 < snd (stride c)
      \<and> 0 < fst (dilation c) \<and> 0 < snd (dilation c)
      \<and> bias c = None)"

text \<open>
  A normalisation module keeps a positive \<open>eps\<close> and running variances that are not
  negative, whatever its scale, shift, running mean and mode are.
\<close>

definition bn_ok :: "BatchNorm2d \<Rightarrow> bool" where
  "bn_ok bn = (0 < eps bn \<and> (\<forall>k. 0 \<le> running_var bn k))"

text \<open>
  A residual block from \<open>ip\<close> to \<open>op\<close> channels at stride \<open>s\<close>, with the layout
  \<^const>\<open>BasicBlock_init\<close> gives it: the shortcut convolution is present exactly when the
  channel counts differ. The values of the weights, scales, shifts and running statistics
  and the modes of the modules are free.
\<close>

definition block_ok :: "nat \<Rightarrow> nat \<Rightarrow> nat \<Rightarrow> BasicBlock \<Rightarrow> bool" where
  "block_ok ip op s b =
     (num_features (BB_bn1 b) = ip \<and> bn_ok (BB_bn1 b) \<and> bn_ok (BB_bn2 b)
      \<and> conv_ok (BB_conv1 b) \<and> in_channels (BB_conv1 b) = ip \<and> out_channels (BB_conv1 b) = op
      \<and> kernel_size (BB_conv1 b) = (3, 3) \<and> stride (BB_conv1 b) = (s, s)
      \<and> padding (BB_conv1 b) = (1, 1) \<and> dilation (BB_conv1 b) = (1, 1)
      \<and> num_features (BB_bn2 b) = op
      \<and> conv_ok (BB_conv2 b) \<and> in_channels (BB_conv2 b) = op \<and> out_channels (BB_conv2 b) = op
      \<and> kernel_size (BB_conv2 b) = (3, 3) \<and> stride (BB_conv2 b) = (1, 1)
      \<and> padding (BB_conv2 b) = (1, 1) \<and> dilation (BB_conv2 b) = (1, 1)
      \<and> BB_equalInOut b = (ip = op)
      \<and> BB_droprate b \<le> 1
      \<and> (case BB_convShortcut b of
            None \<Rightarrow> ip = op \<and> s = 1
          | Some sc \<Rightarrow> ip \<noteq> op \<and> conv_ok sc \<and> in_channels sc = ip \<and> out_channels sc = op
                       \<and> kernel_size sc = (1, 1) \<and> stride sc = (s, s)
                       \<and> padding sc = (0, 0) \<and> dilation sc = (1, 1)))"

fun chain_ok :: "nat \<Rightarrow> nat \<Rightarrow> nat \<Rightarrow> BasicBlock list \<Rightarrow> bool" where
  "chain_ok ip op s [] = True"
| "chain_ok ip op s (b # bs) = (block_ok ip op s b \<and> chain_ok op op 1 bs)"

text \<open>
  A network with the layout \<^const>\<open>Network_init\<close> gives a network of channel multiplier
  \<open>widen_factor\<close> and \<open>nClasses\<close> classes with at least one block in each group: the
  first convolution from 3 to 16 channels, the three groups from 16 to
  \<open>16 * widen_factor\<close>, \<open>32 * widen_factor\<close> and \<open>64 * widen_factor\<close> channels at strides
  1, 2 and 2, the final normalisation and the linear layer onto
  \<open>(nClasses + 1) * 10\<close> columns. Only the layout is fixed: the parameters may have any
  value, as after training, and every module may be in training or in evaluation mode.
\<close>

definition Network_wf :: "nat \<Rightarrow> nat \<Rightarrow> Network \<Rightarrow> bool" where
  "Network_wf widen_factor nClasses net =
     (conv_ok (N_conv1 net) \<and> in_channels (N_conv1 net) = 3 \<and> out_channels (N_conv1 net) = 16
      \<and> kernel_size (N_conv1 net) = (3, 3) \<and> stride (N_conv1 net) = (1, 1)
      \<and> padding (N_conv1 net) = (1, 1) \<and> dilation (N_conv1 net) = (1, 1)
      \<and> N_block1 net \<noteq> [] \<and> chain_ok 16 (16 * widen_factor) 1 (N_block1 net)
      \<and> N_block2 net \<noteq> []
      \<and> chain_ok (16 * widen_factor) (32 * widen_factor) 2 (N_block2 net)
      \<and> N_block3 net \<noteq> []
      \<and> chain_ok (32 * widen_factor) (64 * widen_factor) 2 (N_block3 net)
      \<and> bn_ok (N_bn1 net) \<and> num_features (N_bn1 net) = 64 * widen_factor
      \<and> in_features (N_fc net) = 64 * widen_factor
      \<and> out_features (N_fc net) = (nClasses + 1) * 10
      \<and> dims (lin_weight (N_fc net)) = [(nClasses + 1) * 10, 64 * widen_factor]
      \<and> dims (lin_bias (N_fc net)) = [(nClasses + 1) * 10]
      \<and> N_nChannels net = 64 * widen_factor
      \<and> N_nClasses net = nClasses \<and> N_n_components net = 10)"

text \<open>The strides of a group of \<open>n\<close> blocks whose first block has stride \<open>s\<close>.\<close>

definition group_strides :: "nat \<Rightarrow> nat \<Rightarrow> (nat \<times> nat) list" where
  "group_strides s n = (if n = 0 then [] else (s, s) # replicate (n - 1) (1, 1))"

definition block_strides :: "BasicBlock list \<Rightarrow> (nat \<times> nat) list" where
  "block_strides bs = map (\<lambda>b. stride (BB_conv1 b)) bs"

definition block_count :: "error + Network \<Rightarrow> error + nat" where
  "block_count made =
     and_then made (\<lambda>net. Inr (length (N_block1 net) + length (N_block2 net)
                                + length (N_block3 net)))"

text \<open>
  The mixture of softmaxes in closed form, for row \<open>i\<close> of a matrix \<open>ctx\<close> with
  \<open>(nC + 1) * nK\<close> columns: the prior of component \<open>c\<close>, the probability component \<open>c\<close>
  gives class \<open>k\<close>, and the prior-weighted sum over the components.
\<close>

definition mos_prior :: "tensor \<Rightarrow> nat \<Rightarrow> nat \<Rightarrow> nat \<Rightarrow> nat \<Rightarrow> real" where
  "mos_prior ctx nC nK i c =
     exp (entry ctx [i, nK * nC + c]) / (\<Sum>l\<leftarrow>[0..<nK]. exp (entry ctx [i, nK * nC + l]))"

definition mos_component :: "tensor \<Rightarrow> nat \<Rightarrow> nat \<Rightarrow> nat \<Rightarrow> nat \<Rightarrow> real" where
  "mos_component ctx nC i c k =
     exp (entry ctx [i, c * nC + k]) / (\<Sum>l\<leftarrow>[0..<nC]. exp (entry ctx [i, c * nC + l]))"

definition mos_mixture :: "tensor \<Rightarrow> nat \<Rightarrow> nat \<Rightarrow> nat \<Rightarrow> nat \<Rightarrow> real" where
  "mos_mixture ctx nC nK i k =
     (\<Sum>c\<leftarrow>[0..<nK]. mos_prior ctx nC nK i c * mos_component ctx nC i c k)"

section \<open>The wording of the specification, where it differs from the code\<close>

text \<open>
  Stage 0 of \<^verbatim>\<open>Layer.forward\<close> in the \<^verbatim>\<open>mult\<close> style as the specification words it:
  \<open>tanh\<close> of the output of op 0 times \<open>sigmoid\<close> of the output of op 2, each op called as
  usual.
\<close>

definition claimed_mult_stage0 :: "Layer \<Rightarrow> tensor \<Rightarrow> error + flow" where
  "claimed_mult_stage0 self out =
     call2 self 0 out relu 2 out relu
       (\<lambda>u v. and_then (tmul (tmap tanh u) (tmap sigmoid v)) (\<lambda>t. Inr (single t)))"

text \<open>
  The whole forward pass as the specification words it for a layer without gates: the
  output of the initial op passed through op 0 alone.
\<close>

definition claimed_op0_alone :: "Layer \<Rightarrow> tensor \<Rightarrow> error + tensor" where
  "claimed_op0_alone self x =
     and_then (Sequential_forward (L_initial_op self) x) (\<lambda>out.
     and_then (getitem (L_op self) 0) (\<lambda>o0. call_op o0 out relu))"

text \<open>
  The convolutional branch of a residual block, from the activated input to the output of
  the second convolution, and the forward pass as the specification words it for unequal
  channel counts: the shortcut convolution applied to the original input.
\<close>

definition BasicBlock_branch :: "BasicBlock \<Rightarrow> tensor \<Rightarrow> error + tensor" where
  "BasicBlock_branch self act =
     and_then (Conv2d_forward (BB_conv1 self) act) (\<lambda>c1.
     and_then (bn_relu (BB_bn2 self) c1) (\<lambda>out1.
     and_then (if BB_droprate self > 0
               then dropout (BB_droprate self) (BB_training self) (BB_keep self) out1
               else Inr out1) (\<lambda>out2.
     Conv2d_forward (BB_conv2 self) out2)))"

definition call_shortcut :: "BasicBlock \<Rightarrow> tensor \<Rightarrow> error + tensor" where
  "call_shortcut self t =
     (case BB_convShortcut self of None \<Rightarrow> Inl TypeError | Some sc \<Rightarrow> Conv2d_forward sc t)"

definition claimed_shortcut_forward :: "BasicBlock \<Rightarrow> tensor \<Rightarrow> error + tensor" where
  "claimed_shortcut_forward self x =
     and_then (bn_relu (BB_bn1 self) x) (\<lambda>act.
     and_then (BasicBlock_branch self act) (\<lambda>out.
     and_then (call_shortcut self x) (\<lambda>res.
     tadd res out)))"

section \<open>Small concrete instances\<close>

text \<open>
  A one-pixel, one-channel image holding \<open>v\<close>, a batch of \<open>n\<close> one-pixel images with \<open>c\<close>
  channels all holding \<open>v\<close>, a one-pixel image with two channels both holding \<open>v\<close>, and
  the 1x1 convolution on one channel
  whose single weight is \<open>v\<close>.
\<close>

definition pixel :: "real \<Rightarrow> tensor" where
  "pixel v = tensor_of [1, 1, 1, 1] (\<lambda>idx. v)"

definition pixels :: "nat \<Rightarrow> nat \<Rightarrow> real \<Rightarrow> tensor" where
  "pixels n c v = tensor_of [n, c, 1, 1] (\<lambda>idx. v)"

definition pixel2 :: "real \<Rightarrow> tensor" where
  "pixel2 v = tensor_of [1, 2, 1, 1] (\<lambda>idx. v)"

definition unit_conv :: "real \<Rightarrow> Conv2d" where
  "unit_conv v =
     \<lparr>in_channels = 1, out_channels = 1, kernel_size = (1, 1), stride = (1, 1),
      padding = (0, 0), dilation = (1, 1), groups = 1, weight = pixel v, bias = None\<rparr>"

text \<open>
  The same on floats: a one-pixel float image, the first entry of a float result, and
  \<open>2 ^ 100\<close>, a float whose square is above the largest float.
\<close>

definition fpixel :: "f32 \<Rightarrow> ftensor" where
  "fpixel v = ftensor_of [1, 1, 1, 1] (\<lambda>idx. v)"

definition first_entry_f32 :: "error + ftensor \<Rightarrow> error + f32" where
  "first_entry_f32 r = and_then r (\<lambda>t. Inr (fentry t [0, 0, 0, 0]))"

definition two_pow_100 :: real where
  "two_pow_100 = 2 ^ 100"

text \<open>Constructing a \<^verbatim>\<open>seq\<close> and calling it once with the default nonlinearity.\<close>

definition seq_run :: "error + seq \<Rightarrow> tensor \<Rightarrow> error + tensor" where
  "seq_run made x = and_then made (\<lambda>s. seq_forward s x relu)"

definition shape_of :: "error + tensor \<Rightarrow> error + nat list" where
  "shape_of r = and_then r (\<lambda>t. Inr (dims t))"

definition even_kernel_seq :: "error + seq" where
  "even_kernel_seq = seq_init 1 1 (2, 2) (1, 1) True False 1 relu (\<lambda>idx. 1) (\<lambda>k. 1) (\<lambda>k. 0)"

definition odd_kernel_seq :: "error + seq" where
  "odd_kernel_seq = seq_init 1 1 (3, 3) (2, 2) True True 1 relu (\<lambda>idx. 1) (\<lambda>k. 1) (\<lambda>k. 0)"

definition network_strides ::
  "error + Network \<Rightarrow> error + ((nat \<times> nat) list \<times> (nat \<times> nat) list \<times> (nat \<times> nat) list)" where
  "network_strides made =
     and_then made (\<lambda>net. Inr (block_strides (N_block1 net), block_strides (N_block2 net),
                                block_strides (N_block3 net)))"

text \<open>Parameter sources that draw zero everywhere, and a dropout mask that keeps all.\<close>

definition zero_src :: "nat \<Rightarrow> nat \<Rightarrow> nat \<Rightarrow> nat list \<Rightarrow> real" where
  "zero_src g i k idx = 0"

definition keep_all :: "nat \<Rightarrow> nat \<Rightarrow> nat list \<Rightarrow> real" where
  "keep_all g i idx = 1"

text \<open>
  Three small layers on one-pixel images with 1x1 kernels and all weights 1: one with all
  four ops and no gate, one gated in the \<^verbatim>\<open>mult\<close> style and one in the default style with
  two output channels.
\<close>

definition ones_src :: "nat \<Rightarrow> nat list \<Rightarrow> real" where
  "ones_src k idx = 1"

definition one_bn :: "nat \<Rightarrow> nat \<Rightarrow> real" where
  "one_bn k c = 1"

definition zero_bn :: "nat \<Rightarrow> nat \<Rightarrow> real" where
  "zero_bn k c = 0"

definition all_ops_layer :: "error + Layer" where
  "all_ops_layer =
     Layer_init 1 1 1 [True, True, True, True] [False, False] (replicate 4 (1, 1))
       (replicate 4 relu) (replicate 4 (1, 1)) (replicate 4 1) True ''add_split'' ''WN''
       ones_src one_bn zero_bn"

definition op0_only_layer :: "error + Layer" where
  "op0_only_layer =
     Layer_init 1 1 1 [True, False, False, False] [False, False] (replicate 4 (1, 1))
       (replicate 4 relu) (replicate 4 (1, 1)) (replicate 4 1) True ''add_split'' ''WN''
       ones_src one_bn zero_bn"

definition mult_gate_layer :: "error + Layer" where
  "mult_gate_layer =
     Layer_init 1 1 1 [True, False, True, False] [True, False] (replicate 4 (1, 1))
       (replicate 4 relu) (replicate 4 (1, 1)) (replicate 4 1) True ''mult'' ''WN''
       ones_src one_bn zero_bn"

definition split_gate_layer :: "error + Layer" where
  "split_gate_layer =
     Layer_init 1 1 2 [True, False, True, False] [True, False] (replicate 4 (1, 1))
       (replicate 4 relu) (replicate 4 (1, 1)) (replicate 4 1) True ''add_split'' ''WN''
       ones_src one_bn zero_bn"

definition wide_conv :: Conv2d where
  "wide_conv =
     \<lparr>in_channels = 1, out_channels = 2, kernel_size = (1, 1), stride = (1, 1),
      padding = (0, 0), dilation = (1, 1), groups = 1,
      weight = tensor_of [2, 1, 1, 1] (\<lambda>idx. 1), bias = None\<rparr>"

definition plain_seq :: "Conv2d \<Rightarrow> seq" where
  "plain_seq c =
     \<lparr>seq_dilation = (1, 1), seq_preactivation = True, seq_batchnorm = False,
      seq_bn = None, seq_conv = c, seq_activation = relu\<rparr>"

definition first_entry :: "error + tensor \<Rightarrow> error + real" where
  "first_entry r = and_then r (\<lambda>t. Inr (entry t [0, 0, 0, 0]))"

definition flow_entry :: "error + flow \<Rightarrow> error + real" where
  "flow_entry r =
     and_then r (\<lambda>fl. case fl of single t \<Rightarrow> Inr (entry t [0, 0, 0, 0])
                                | pair a b \<Rightarrow> Inl TypeError)"

definition Layer_run :: "error + Layer \<Rightarrow> (Layer \<Rightarrow> tensor \<Rightarrow> error + 'a) \<Rightarrow> tensor \<Rightarrow> error + 'a" where
  "Layer_run made method x = and_then made (\<lambda>self. method self x)"

text \<open>
  Two blocks whose drawn parameters are all 1: one from 1 to 2 channels, one from 1 to 1.
\<close>

definition shortcut_block :: "error + BasicBlock" where
  "shortcut_block = BasicBlock_init 1 2 1 0 ones_src (\<lambda>idx. 1)"

definition identity_block :: "error + BasicBlock" where
  "identity_block = BasicBlock_init 1 1 1 0 ones_src (\<lambda>idx. 1)"

definition BasicBlock_run ::
  "error + BasicBlock \<Rightarrow> (BasicBlock \<Rightarrow> tensor \<Rightarrow> error + 'a) \<Rightarrow> tensor \<Rightarrow> error + 'a" where
  "BasicBlock_run made method x = and_then made (\<lambda>self. method self x)"

text \<open>
  An all-zero batch of \<open>n\<close> images with three channels, constructing a network and calling
  it once, and the sum of the exponentials of row \<open>i\<close> of a result with \<open>m\<close> columns.
\<close>

definition zero_image :: "nat \<Rightarrow> nat \<Rightarrow> nat \<Rightarrow> tensor" where
  "zero_image n h w = tensor_of [n, 3, h, w] (\<lambda>idx. 0)"

definition Network_run :: "error + Network \<Rightarrow> tensor \<Rightarrow> error + tensor" where
  "Network_run made x = and_then made (\<lambda>net. Network_forward net x)"

definition row_exp_sum :: "error + tensor \<Rightarrow> nat \<Rightarrow> nat \<Rightarrow> error + real" where
  "row_exp_sum r i m = and_then r (\<lambda>t. Inr (\<Sum>k\<leftarrow>[0..<m]. exp (entry t [i, k])))"

text \<open>
  A network after its parameters have moved: the final normalisation in evaluation mode
  with another scale, shift and running mean, and the linear layer with another bias.
\<close>

definition retrained :: "Network \<Rightarrow> Network" where
  "retrained net =
     net\<lparr>N_bn1 := (N_bn1 net)\<lparr>bn_weight := (\<lambda>k. 2), bn_bias := (\<lambda>k. 1),
                               running_mean := (\<lambda>k. 1 / 2), bn_training := False\<rparr>,
         N_fc := (N_fc net)\<lparr>lin_bias := tensor_of (dims (lin_bias (N_fc net))) (\<lambda>idx. 1)\<rparr>\<rparr>"

definition Network_retrained :: "error + Network \<Rightarrow> error + Network" where
  "Network_retrained made = and_then made (\<lambda>net. Inr (retrained net))"

section \<open>Properties\<close>

lemma and_then_Inr [simp]: "and_then (Inr v) f = f v" by (simp add: and_then_def)
lemma and_then_Inl [simp]: "and_then (Inl e) f = Inl e" by (simp add: and_then_def)

lemma dims_tensor_of [simp]: "dims (tensor_of ds f) = ds" by (simp add: tensor_of_def)
lemma entry_tensor_of: "entry (tensor_of ds f) idx = (if in_range ds idx then f idx else 0)"
  by (simp add: tensor_of_def)

lemma tensor_of_cong: "(\<And>idx. in_range ds idx \<Longrightarrow> f idx = g idx) \<Longrightarrow> tensor_of ds f = tensor_of ds g"
  by (auto simp: tensor_of_def)

lemma set_indices: "set (indices ds) = {idx. in_range ds idx}"
proof (induction ds)
  case Nil show ?case by (auto simp: in_range_def)
next
  case (Cons d ds)
  show ?case
  proof (rule set_eqI)
    fix idx show "idx \<in> set (indices (d # ds)) \<longleftrightarrow> idx \<in> {idx. in_range (d # ds) idx}"
      using Cons by (cases idx) (auto simp: in_range_def)
  qed
qed

lemma in_range_length: "in_range ds idx \<Longrightarrow> length idx = length ds"
  by (simp add: in_range_def list_all2_lengthD)

lemma bidx_in_range: "in_range ds idx \<Longrightarrow> bidx ds idx = idx"
  unfolding bidx_def in_range_def
proof (induction idx ds rule: list_all2_induct)
  case Nil show ?case by simp
next
  case (Cons i idx d ds)
  then show ?case by (auto simp: list_all2_lengthD)
qed

lemma bdims_rev_ones: "length ds = length os \<Longrightarrow> set os \<subseteq> {1} \<Longrightarrow> bdims_rev ds os = Some ds"
  by (induction ds os rule: list_induct2) auto

lemma bdims_ones4: "length ds = 4 \<Longrightarrow> bdims ds [1,1,1,1] = Some ds"
  using bdims_rev_ones[of "rev ds" "[1,1,1,1]"] by (simp add: bdims_def)

lemma bdims_rev_same: "bdims_rev ds ds = Some ds"
  by (induction ds) auto

lemma bdims_same [simp]: "bdims ds ds = Some ds"
  by (simp add: bdims_def bdims_rev_same)

lemma bidx_ones4: "in_range ds idx \<Longrightarrow> length ds = 4 \<Longrightarrow> bidx [1,1,1,1] idx = [0,0,0,0]"
  by (drule in_range_length) (auto simp: bidx_def length_Suc_conv numeral_eq_Suc)

lemma wn2d_4d:
  assumes "length (dims w) = 4"
  shows "wn2d w = (if indices (dims w) \<noteq> [] \<and> sumsq w = 0 then Inl NonFinite
                   else Inr (tensor_of (dims w) (\<lambda>idx. entry w idx / sqrt (sumsq w))))"
proof -
  have v: "view [1,1,1,1] (norm_t w) = Inr (tensor_of [1,1,1,1] (\<lambda>idx. sqrt (sumsq w)))"
    by (simp add: view_def numel_def norm_t_def entry_tensor_of in_range_def)
  have e: "expand_as (tensor_of [1,1,1,1] (\<lambda>idx. sqrt (sumsq w))) w
           = Inr (tensor_of (dims w) (\<lambda>idx. sqrt (sumsq w)))"
  proof -
    have "tensor_of (dims w) (\<lambda>idx. entry (tensor_of [1,1,1,1] (\<lambda>idx. sqrt (sumsq w))) (bidx [1,1,1,1] idx))
          = tensor_of (dims w) (\<lambda>idx. sqrt (sumsq w))"
    proof (rule tensor_of_cong)
      fix idx assume "in_range (dims w) idx"
      from bidx_ones4[OF this assms]
      show "entry (tensor_of [1,1,1,1] (\<lambda>idx. sqrt (sumsq w))) (bidx [1,1,1,1] idx) = sqrt (sumsq w)"
        by (simp add: entry_tensor_of in_range_def)
    qed
    then show ?thesis
      unfolding expand_as_def using bdims_ones4[OF assms] assms by simp
  qed
  have ex: "list_ex (\<lambda>idx. entry (tensor_of (dims w) (\<lambda>idx. sqrt (sumsq w))) (bidx (dims w) idx) = 0) (indices (dims w))
        \<longleftrightarrow> indices (dims w) \<noteq> [] \<and> sumsq w = 0"
  proof -
    have "\<And>idx. idx \<in> set (indices (dims w)) \<Longrightarrow>
        entry (tensor_of (dims w) (\<lambda>idx. sqrt (sumsq w))) (bidx (dims w) idx) = sqrt (sumsq w)"
      by (simp add: set_indices bidx_in_range entry_tensor_of)
    then have "list_ex (\<lambda>idx. entry (tensor_of (dims w) (\<lambda>idx. sqrt (sumsq w))) (bidx (dims w) idx) = 0) (indices (dims w))
        \<longleftrightarrow> (\<exists>idx\<in>set (indices (dims w)). sqrt (sumsq w) = 0)"
      unfolding list_ex_iff by (intro bex_cong refl) simp
    also have "\<dots> \<longleftrightarrow> indices (dims w) \<noteq> [] \<and> sumsq w = 0"
      by (cases "indices (dims w)") auto
    finally show ?thesis .
  qed
  show ?thesis
    unfolding wn2d_def v e and_then_Inr tdiv_def
    using ex by (auto simp: entry_tensor_of bidx_in_range intro!: tensor_of_cong)
qed

lemma dims_tscale [simp]: "dims (tscale c w) = dims w"
  by (simp add: tscale_def tmap_def)

lemma sumsq_tscale: "sumsq (tscale c w) = c\<^sup>2 * sumsq w"
proof -
  have "sum_list (map (\<lambda>idx. (entry (tscale c w) idx)\<^sup>2) (indices (dims w)))
        = sum_list (map (\<lambda>idx. c\<^sup>2 * (entry w idx)\<^sup>2) (indices (dims w)))"
    by (rule arg_cong[where f = sum_list], rule map_cong)
       (auto simp: set_indices tscale_def tmap_def entry_tensor_of power_mult_distrib)
  then have "sumsq (tscale c w) = (\<Sum>idx\<leftarrow>indices (dims w). c\<^sup>2 * (entry w idx)\<^sup>2)"
    by (simp add: sumsq_def)
  then show ?thesis
    by (simp add: sumsq_def sum_list_const_mult)
qed

lemma sumsq_eq_0_iff: "sumsq w = 0 \<longleftrightarrow> (\<forall>idx. in_range (dims w) idx \<longrightarrow> entry w idx = 0)"
proof -
  have "sumsq w = 0 \<longleftrightarrow> (\<forall>v\<in>set (map (\<lambda>idx. (entry w idx)\<^sup>2) (indices (dims w))). v = 0)"
    unfolding sumsq_def by (rule sum_list_nonneg_eq_0_iff) auto
  then show ?thesis by (auto simp: set_indices)
qed

lemma wn2d_tscale:
  assumes "length (dims w) = 4" "0 < c"
  shows "wn2d (tscale c w) = wn2d w"
proof -
  have s: "sqrt (sumsq (tscale c w)) = c * sqrt (sumsq w)"
    using assms(2) by (simp add: sumsq_tscale real_sqrt_mult)
  have z: "sumsq (tscale c w) = 0 \<longleftrightarrow> sumsq w = 0"
    using assms(2) by (simp add: sumsq_tscale)
  have "tensor_of (dims w) (\<lambda>idx. entry (tscale c w) idx / sqrt (sumsq (tscale c w)))
        = tensor_of (dims w) (\<lambda>idx. entry w idx / sqrt (sumsq w))"
  proof (rule tensor_of_cong)
    fix idx assume "in_range (dims w) idx"
    then have "entry (tscale c w) idx = c * entry w idx"
      by (simp add: tscale_def tmap_def entry_tensor_of)
    then show "entry (tscale c w) idx / sqrt (sumsq (tscale c w)) = entry w idx / sqrt (sumsq w)"
      using assms(2) by (simp add: s)
  qed
  then show ?thesis
    using assms(1) by (simp add: wn2d_4d z)
qed

lemma conv2d_error: "conv2d x w b s p d g = Inl e \<Longrightarrow> e = ShapeError"
  by (auto simp: conv2d_def split: list.splits if_splits)

text \<open>
  Claim C10. \<^const>\<open>wn2d\<close> divides by the global norm without any guard: for a weight with
  at least one entry the quotient fails to be a tensor of reals exactly when every entry
  of the weight is zero, and \<^const>\<open>WNC2D_forward\<close> then fails the same way; for any
  other weight both are defined.
\<close>

theorem wn2d_zero_norm:
  assumes "length (dims (weight m)) = 4"
    and "indices (dims (weight m)) \<noteq> []"
  shows "(wn2d (weight m) = Inl NonFinite)
           = (\<forall>idx. in_range (dims (weight m)) idx \<longrightarrow> entry (weight m) idx = 0)
         \<and> (WNC2D_forward m input = Inl NonFinite)
           = (\<forall>idx. in_range (dims (weight m)) idx \<longrightarrow> entry (weight m) idx = 0)"
proof -
  have 1: "(wn2d (weight m) = Inl NonFinite) = (sumsq (weight m) = 0)"
    using assms by (simp add: wn2d_4d)
  have 2: "(WNC2D_forward m input = Inl NonFinite) = (sumsq (weight m) = 0)"
    using assms by (auto simp: wn2d_4d WNC2D_forward_def dest: conv2d_error)
  show ?thesis
    unfolding 1 2 sumsq_eq_0_iff by simp
qed

lemma pixel_simps [simp]: "dims (pixel v) = [1, 1, 1, 1]" "entry (pixel v) [0, 0, 0, 0] = v"
  by (simp_all add: pixel_def entry_tensor_of in_range_def)

theorem wn2d_zero_norm_witness:
  "wn2d (weight (unit_conv 0)) = Inl NonFinite \<and> WNC2D_forward (unit_conv 0) (pixel 5) = Inl NonFinite
   \<and> wn2d (weight (unit_conv 2)) \<noteq> Inl NonFinite"
proof -
  have h1: "\<And>v. length (dims (weight (unit_conv v))) = 4" by (simp add: unit_conv_def)
  have h2: "\<And>v. indices (dims (weight (unit_conv v))) \<noteq> []" by (simp add: unit_conv_def)
  have z: "\<forall>idx. in_range (dims (weight (unit_conv 0))) idx \<longrightarrow> entry (weight (unit_conv 0)) idx = 0"
    by (simp add: unit_conv_def pixel_def entry_tensor_of)
  have nz: "\<not> (\<forall>idx. in_range (dims (weight (unit_conv 2))) idx \<longrightarrow> entry (weight (unit_conv 2)) idx = 0)"
    by (simp add: unit_conv_def) (rule exI[of _ "[0, 0, 0, 0]"], simp add: in_range_def)
  from wn2d_zero_norm[OF h1 h2, of 0 "pixel 5"] wn2d_zero_norm[OF h1 h2, of 2 "pixel 5"] z nz
  show ?thesis by blast
qed

text \<open>
  Claim C7. An \<^verbatim>\<open>MDC\<close> built with dilation 1 stores no mask and a 3x3 kernel, and its
  forward pass is the plain convolution of the input with the stored weight, whatever
  that weight is, at stride 1, padding 1 and dilation 1, without bias.
\<close>

theorem MDC_dilation_one_plain:
  "\<exists>md. MDC_init n_in n_out 1 wsrc = Inr md
        \<and> MDC_m md = None
        \<and> kernel_size (MDC_conv md) = (3, 3)
        \<and> weight (MDC_conv md) = tensor_of [n_out, n_in, 3, 3] wsrc
        \<and> MDC_forward md x = conv2d x (weight (MDC_conv md)) None (1, 1) (1, 1) (1, 1) 1
        \<and> MDC_forward (md\<lparr>MDC_conv := (MDC_conv md)\<lparr>weight := w\<rparr>\<rparr>) x
            = conv2d x w None (1, 1) (1, 1) (1, 1) 1"
  by (simp add: MDC_init_def Conv2d_init_def MDC_forward_def Conv2d_forward_def)

text \<open>
  Claim C8. The constructor of \<^verbatim>\<open>EML\<close> calls \<^verbatim>\<open>super(ESL, self)\<close> on an object that is not
  an \<^verbatim>\<open>ESL\<close>: it raises \<^verbatim>\<open>TypeError\<close> for every argument, so no \<^verbatim>\<open>EML\<close> is ever
  constructed, while the constructor of \<^verbatim>\<open>ESL\<close> succeeds.
\<close>

theorem EML_init_raises:
  "EML_init module' = Inl TypeError \<and> ESL_init module' = Inr \<lparr>ESL_module = module'\<rparr>"
  by (simp add: EML_init_def ESL_init_def py_super_def)

lemma Conv2d_forward_ok:
  assumes "conv_ok c" and "dims x = [n, in_channels c, h, w]"
    and "fst (dilation c) * (fst (kernel_size c) - 1) + 1 \<le> h + 2 * fst (padding c)"
    and "snd (dilation c) * (snd (kernel_size c) - 1) + 1 \<le> w + 2 * snd (padding c)"
  shows "\<exists>y. Conv2d_forward c x = Inr y
           \<and> dims y = [n, out_channels c,
                 conv_out h (fst (kernel_size c)) (fst (stride c)) (fst (padding c)) (fst (dilation c)),
                 conv_out w (snd (kernel_size c)) (snd (stride c)) (snd (padding c)) (snd (dilation c))]"
proof -
  have "in_channels c = in_channels c div groups c * groups c"
    using assms(1) unfolding conv_ok_def by (metis div_mult_mod_eq add.right_neutral)
  then show ?thesis
    using assms unfolding conv_ok_def Conv2d_forward_def conv2d_def by simp
qed

lemma Conv2d_init_ok:
  assumes "Conv2d_init n_in n_out ks st pad dil g wsrc = Inr c"
  shows "in_channels c = n_in" "out_channels c = n_out" "kernel_size c = ks" "stride c = st"
        "padding c = pad" "dilation c = dil" "groups c = g"
        "0 < n_out \<Longrightarrow> 0 < fst ks \<Longrightarrow> 0 < snd ks \<Longrightarrow> 0 < fst st \<Longrightarrow> 0 < snd st
           \<Longrightarrow> 0 < fst dil \<Longrightarrow> 0 < snd dil \<Longrightarrow> conv_ok c"
  using assms by (auto simp: Conv2d_init_def conv_ok_def split: if_splits)

lemma BatchNorm2d_forward_ok:
  assumes "dims x = [n, num_features bn, h, w]" and "n * h * w \<noteq> 1"
  shows "\<exists>y. BatchNorm2d_forward bn x = Inr y \<and> dims y = [n, num_features bn, h, w]"
  using assms by (simp add: BatchNorm2d_forward_def Let_def)

lemma dims_tmap [simp]: "dims (tmap f t) = dims t"
  by (simp add: tmap_def)

lemma seq_padding_nat:
  assumes "0 < k" "0 < d"
  shows "seq_padding k d = (k + (k - 1) * (d - 1)) div 2"
proof -
  have "int k + (int k - 1) * (int d - 1) = int (k + (k - 1) * (d - 1))"
    using assms by (cases k; cases d) simp_all
  then show ?thesis
    unfolding seq_padding_def by (metis nat_int zdiv_int of_nat_numeral)
qed

lemma seq_padding_twice:
  assumes "0 < k" "0 < d"
  shows "2 * seq_padding k d = d * (k - 1) + (d * (k - 1)) mod 2"
proof -
  have "k + (k - 1) * (d - 1) = d * (k - 1) + 1"
    using assms by (cases k; cases d) (simp_all add: algebra_simps)
  then have "seq_padding k d = (d * (k - 1) + 1) div 2"
    using assms by (simp add: seq_padding_nat)
  then show ?thesis by presburger
qed

lemma prod_ne_1_mono:
  assumes "n * a * b \<noteq> 1" "a \<le> a'" "b \<le> b'" "0 < a" "0 < b"
  shows "n * a' * b' \<noteq> (1::nat)"
proof
  assume "n * a' * b' = 1"
  then have "n = 1" "a' = 1" "b' = 1" by simp_all
  with assms show False by simp
qed

lemma and_then_eq_Inr: "and_then m f = Inr v \<longleftrightarrow> (\<exists>u. m = Inr u \<and> f u = Inr v)"
  by (cases m) simp_all

text \<open>
  Claim C6, as the code has it. The padding of the convolution of a \<^verbatim>\<open>seq\<close> is
  \<open>(k + (k - 1) * (d - 1)) div 2\<close> on each axis, for kernel size \<open>k\<close> and dilation \<open>d\<close>.
  On a non-empty image the forward pass then returns an output whose height and width are
  those of the input plus \<open>d * (k - 1) mod 2\<close>: the size is preserved exactly when
  \<open>d * (k - 1)\<close> is even, as for every odd kernel size, and grows by one otherwise.
  (With post-activation and batch normalisation the normalisation is built for the input
  channels, so the call only succeeds when both channel counts agree; with batch
  normalisation the input holds more than one value per channel.)
\<close>

theorem seq_padding_spatial_size:
  assumes init: "seq_init n_in n_out (kh, kw) (dh, dw) preact bnorm grp act wsrc gsrc bsrc = Inr s"
    and x: "dims x = [n, n_in, h, w]"
    and pos: "0 < kh" "0 < kw" "0 < dh" "0 < dw" "0 < h" "0 < w" "0 < n_out"
    and order: "preact \<or> \<not> bnorm \<or> n_in = n_out"
    and batch: "bnorm \<longrightarrow> n * h * w \<noteq> 1"
  shows "padding (seq_conv s)
           = ((kh + (kh - 1) * (dh - 1)) div 2, (kw + (kw - 1) * (dw - 1)) div 2)
         \<and> (\<exists>y. seq_forward s x f = Inr y
                \<and> dims y = [n, n_out, h + (dh * (kh - 1)) mod 2, w + (dw * (kw - 1)) mod 2])"
proof -
  let ?ph = "seq_padding kh dh" and ?pw = "seq_padding kw dw"
  from init obtain cv where
    cv: "Conv2d_init n_in n_out (kh, kw) (1, 1) (?ph, ?pw) (dh, dw) grp wsrc = Inr cv"
    and s: "s = \<lparr>seq_dilation = (dh, dw), seq_preactivation = preact, seq_batchnorm = bnorm,
                 seq_bn = (if bnorm then Some (BatchNorm2d_init n_in gsrc bsrc) else None),
                 seq_conv = cv, seq_activation = act\<rparr>"
    by (auto simp: seq_init_def and_then_eq_Inr)
  note f = Conv2d_init_ok(1-7)[OF cv]
  have ok: "conv_ok cv"
    using Conv2d_init_ok(8)[OF cv] pos by simp
  have pad: "padding (seq_conv s)
           = ((kh + (kh - 1) * (dh - 1)) div 2, (kw + (kw - 1) * (dw - 1)) div 2)"
    using pos by (simp add: s f seq_padding_nat)
  have th: "2 * ?ph = dh * (kh - 1) + (dh * (kh - 1)) mod 2"
    and tw: "2 * ?pw = dw * (kw - 1) + (dw * (kw - 1)) mod 2"
    using pos by (simp_all add: seq_padding_twice)
  have conv: "\<exists>y. Conv2d_forward cv t = Inr y
                \<and> dims y = [n, n_out, h + (dh * (kh - 1)) mod 2, w + (dw * (kw - 1)) mod 2]"
    if t: "dims t = [n, n_in, h, w]" for t
  proof -
    have 1: "fst (dilation cv) * (fst (kernel_size cv) - 1) + 1 \<le> h + 2 * fst (padding cv)"
      using pos th by (simp add: f)
    have 2: "snd (dilation cv) * (snd (kernel_size cv) - 1) + 1 \<le> w + 2 * snd (padding cv)"
      using pos tw by (simp add: f)
    have 3: "conv_out h kh (Suc 0) ?ph dh = h + (dh * (kh - 1)) mod 2"
      using pos th by (simp add: conv_out_def)
    have 4: "conv_out w kw (Suc 0) ?pw dw = w + (dw * (kw - 1)) mod 2"
      using pos tw by (simp add: conv_out_def)
    from Conv2d_forward_ok[OF ok _ 1 2, of t n] t show ?thesis
      by (simp add: f 3 4)
  qed
  have bn: "\<exists>y. BatchNorm2d_forward (BatchNorm2d_init n_in gsrc bsrc) t = Inr y \<and> dims y = [n, n_in, a, b]"
    if "dims t = [n, n_in, a, b]" "n * a * b \<noteq> 1" for t a b
    using BatchNorm2d_forward_ok[of t n "BatchNorm2d_init n_in gsrc bsrc" a b] that
    by (simp add: BatchNorm2d_init_def)
  have fwd: "\<exists>y. seq_forward s x f = Inr y
                \<and> dims y = [n, n_out, h + (dh * (kh - 1)) mod 2, w + (dw * (kw - 1)) mod 2]"
  proof (cases preact)
    case True
    show ?thesis
    proof (cases bnorm)
      case True
      from bn[OF x] batch True obtain y where
        y: "BatchNorm2d_forward (BatchNorm2d_init n_in gsrc bsrc) x = Inr y"
        "dims y = [n, n_in, h, w]" by blast
      from conv[of "tmap f y"] y(2) show ?thesis
        using \<open>preact\<close> \<open>bnorm\<close> y(1) by (simp add: seq_forward_def s seq_call_bn_def)
    next
      case False
      from conv[of "tmap f x"] x show ?thesis
        using \<open>preact\<close> False by (simp add: seq_forward_def s)
    qed
  next
    case False
    from conv[OF x] obtain y where y: "Conv2d_forward cv x = Inr y"
      "dims y = [n, n_out, h + (dh * (kh - 1)) mod 2, w + (dw * (kw - 1)) mod 2]" by blast
    show ?thesis
    proof (cases bnorm)
      case True
      with False order have eq: "n_in = n_out" by simp
      have "n * (h + (dh * (kh - 1)) mod 2) * (w + (dw * (kw - 1)) mod 2) \<noteq> 1"
        by (rule prod_ne_1_mono[of n h w]) (use batch True pos in simp_all)
      with bn[of y] y(2) eq obtain z where
        z: "BatchNorm2d_forward (BatchNorm2d_init n_in gsrc bsrc) y = Inr z"
        "dims z = [n, n_out, h + (dh * (kh - 1)) mod 2, w + (dw * (kw - 1)) mod 2]" by auto
      show ?thesis
        using False True y z by (simp add: seq_forward_def s seq_call_bn_def)
    next
      case nb: False
      show ?thesis
        using False nb y by (simp add: seq_forward_def s)
    qed
  qed
  from pad fwd show ?thesis by blast
qed

text \<open>
  Claim C6 as stated fails for an even kernel size with an odd dilation: a 2x2 kernel at
  dilation 1 gets padding 1 and turns a 1x1 image into a 2x2 one.
\<close>

theorem seq_even_kernel_grows:
  "shape_of (seq_run even_kernel_seq (pixel 5)) = Inr [1, 1, 2, 2] \<and> dims (pixel 5) = [1, 1, 1, 1]"
  by (simp add: shape_of_def seq_run_def even_kernel_seq_def seq_init_def Conv2d_init_def
      seq_padding_def seq_forward_def Conv2d_forward_def conv2d_def conv_out_def)

theorem seq_padding_spatial_size_witness:
  "shape_of (seq_run odd_kernel_seq (pixels 2 1 5)) = Inr [2, 1, 1, 1]"
proof -
  obtain s where s: "seq_init 1 1 (3, 3) (2, 2) True True 1 relu (\<lambda>idx. 1) (\<lambda>k. 1) (\<lambda>k. 0) = Inr s"
    by (simp add: seq_init_def Conv2d_init_def)
  have x: "dims (pixels 2 1 5) = [2, 1, 1, 1]" by (simp add: pixels_def)
  from seq_padding_spatial_size[OF s x, of relu]
  obtain y where "seq_forward s (pixels 2 1 5) relu = Inr y" "dims y = [2, 1, 1, 1]"
    by auto
  then show ?thesis
    using s by (simp add: shape_of_def seq_run_def odd_kernel_seq_def)
qed

lemma collect_map:
  assumes "\<And>x. x \<in> set xs \<Longrightarrow> \<exists>y. f x = Inr y \<and> P x y"
  shows "\<exists>ys. collect (map f xs) = Inr ys \<and> list_all2 P xs ys"
  using assms
proof (induction xs)
  case Nil
  then show ?case by simp
next
  case (Cons x xs)
  from Cons.prems[of x] obtain y where y: "f x = Inr y" "P x y" by auto
  from Cons.IH Cons.prems obtain ys where ys: "collect (map f xs) = Inr ys" "list_all2 P xs ys"
    by auto
  show ?case using y ys by simp
qed

lemma upt_0_Suc: "[0..<Suc m] = 0 # map Suc [0..<m]"
  by (simp add: upt_conv_Cons map_Suc_upt del: upt_Suc)

lemma BasicBlock_init_stride:
  "\<exists>b. BasicBlock_init ip op s d psrc keep = Inr b \<and> stride (BB_conv1 b) = (s, s)"
  by (simp add: BasicBlock_init_def Conv2d_init_def)

lemma make_layer_strides:
  assumes "0 < s"
  shows "\<exists>bs. make_layer n ip op s d psrc keep = Inr bs \<and> length bs = nat n
             \<and> block_strides bs = group_strides s (nat n)"
proof -
  let ?P = "\<lambda>i b. stride (BB_conv1 b) = (if i = 0 then (s, s) else (1, 1))"
  have "\<exists>bs. make_layer n ip op s d psrc keep = Inr bs \<and> list_all2 ?P [0..<nat n] bs"
    unfolding make_layer_def
  proof (rule collect_map)
    fix i
    from BasicBlock_init_stride[of "and_or (i = 0) ip op" op "and_or (i = 0) s 1" d "psrc i" "keep i"]
    show "\<exists>y. BasicBlock_init (and_or (i = 0) ip op) op (and_or (i = 0) s 1) d (psrc i) (keep i) = Inr y
              \<and> ?P i y"
      using assms by (auto simp: and_or_def)
  qed
  then obtain bs where bs: "make_layer n ip op s d psrc keep = Inr bs"
    and all: "list_all2 ?P [0..<nat n] bs" by blast
  have len: "length bs = nat n"
    using all by (auto dest: list_all2_lengthD)
  have "map (\<lambda>b. stride (BB_conv1 b)) bs = map (\<lambda>i. if i = 0 then (s, s) else (1, 1)) [0..<nat n]"
    using all by (induction rule: list_all2_induct[OF all]) auto
  also have "\<dots> = group_strides s (nat n)"
  proof (cases "nat n")
    case 0
    then show ?thesis by (simp add: group_strides_def)
  next
    case (Suc m)
    have "map (\<lambda>i. if i = 0 then (s, s) else (1, 1)) [0..<Suc m] = (s, s) # replicate m (1, 1)"
      unfolding upt_0_Suc by (simp add: comp_def map_replicate_const)
    then show ?thesis using Suc by (simp add: group_strides_def)
  qed
  finally show ?thesis using bs len by (simp add: block_strides_def)
qed

lemma collect_Inr_all2:
  "collect ms = Inr vs \<Longrightarrow> list_all2 (\<lambda>m v. m = Inr v) ms vs"
proof (induction ms arbitrary: vs)
  case Nil
  then show ?case by simp
next
  case (Cons m ms)
  from Cons.prems obtain v vs' where "m = Inr v" "collect ms = Inr vs'" "vs = v # vs'"
    by (auto simp: and_then_eq_Inr)
  with Cons.IH show ?case by simp
qed

lemma BasicBlock_init_convs:
  assumes "BasicBlock_init ip op s d psrc keep = Inr b" and "c \<in> set (block_convs b)"
  shows "out_channels c = op \<and> 0 < fst (kernel_size c) * snd (kernel_size c)"
  using assms
  by (auto simp: BasicBlock_init_def Conv2d_init_def block_convs_def split: if_splits)

lemma make_layer_convs:
  assumes "make_layer n ip op s d psrc keep = Inr bs"
    and "b \<in> set bs" and "c \<in> set (block_convs b)"
  shows "out_channels c = op \<and> 0 < fst (kernel_size c) * snd (kernel_size c)"
proof -
  let ?f = "\<lambda>i. BasicBlock_init (and_or (i = 0) ip op) op (and_or (i = 0) s 1) d (psrc i) (keep i)"
  from collect_Inr_all2[OF assms(1)[unfolded make_layer_def]]
  have all: "list_all2 (\<lambda>m v. m = Inr v) (map ?f [0..<nat n]) bs" .
  from assms(2) obtain j where j: "j < length bs" "bs ! j = b"
    by (auto simp: in_set_conv_nth)
  from all j have "map ?f [0..<nat n] ! j = Inr b"
    by (auto simp: list_all2_conv_all_nth)
  moreover from all j have "j < nat n"
    by (auto dest: list_all2_lengthD)
  ultimately have "?f j = Inr b" by simp
  from BasicBlock_init_convs[OF this assms(3)] show ?thesis .
qed

lemma conv_std_collect:
  assumes "\<And>c. c \<in> set cs \<Longrightarrow> 0 < fst (kernel_size c) * snd (kernel_size c) * out_channels c"
  shows "\<exists>ss. collect (map conv_std cs) = Inr ss"
proof -
  have "\<exists>ss. collect (map conv_std cs) = Inr ss \<and> list_all2 (\<lambda>c v. True) cs ss"
    by (rule collect_map) (use assms in \<open>auto simp: conv_std_def Let_def\<close>)
  then show ?thesis by blast
qed

lemma init_loop_ok:
  assumes "make_layer n i1 (16 * w) s1 d p1 k1 = Inr b1"
    and "make_layer n i2 (32 * w) s2 d p2 k2 = Inr b2"
    and "make_layer n i3 (64 * w) s3 d p3 k3 = Inr b3"
    and "0 < w" and "0 < fst (kernel_size c1) * snd (kernel_size c1) * out_channels c1"
  shows "\<exists>ss. collect (map conv_std (c1 # concat (map block_convs (b1 @ b2 @ b3)))) = Inr ss"
proof (rule conv_std_collect)
  fix c assume "c \<in> set (c1 # concat (map block_convs (b1 @ b2 @ b3)))"
  then consider "c = c1"
    | b where "b \<in> set b1" "c \<in> set (block_convs b)"
    | b where "b \<in> set b2" "c \<in> set (block_convs b)"
    | b where "b \<in> set b3" "c \<in> set (block_convs b)"
    by auto
  then show "0 < fst (kernel_size c) * snd (kernel_size c) * out_channels c"
  proof cases
    case 1
    with assms(5) show ?thesis by simp
  next
    case 2
    from make_layer_convs[OF assms(1) 2] assms(4) show ?thesis by simp
  next
    case 3
    from make_layer_convs[OF assms(2) 3] assms(4) show ?thesis by simp
  next
    case 4
    from make_layer_convs[OF assms(3) 4] assms(4) show ?thesis by simp
  qed
qed

text \<open>
  Claim C9, as the code has it. For every depth with \<open>(depth - 4) mod 6 = 0\<close> the
  constructor succeeds; each of the three groups holds \<open>max 0 ((depth - 4) div 6)\<close> blocks,
  so the groups hold three times that many together, which is \<open>3 * ((depth - 4) div 6)\<close>
  whenever \<open>depth \<ge> 4\<close>. In every group the first block has the stride of the group (1, 2
  and 2) and the blocks after it have stride 1.
\<close>

theorem Network_init_blocks:
  assumes "(depth - 4) mod 6 = 0"
    and "0 < widen_factor" and "0 < nClasses" and "0 < epochs"
  shows "\<exists>net. Network_init widen_factor depth nClasses epochs dropRate psrc keep = Inr net
           \<and> length (N_block1 net) + length (N_block2 net) + length (N_block3 net)
               = 3 * nat ((depth - 4) div 6)
           \<and> block_strides (N_block1 net) = group_strides 1 (nat ((depth - 4) div 6))
           \<and> block_strides (N_block2 net) = group_strides 2 (nat ((depth - 4) div 6))
           \<and> block_strides (N_block3 net) = group_strides 2 (nat ((depth - 4) div 6))"
proof -
  let ?n = "(depth - 4) div 6" and ?w = widen_factor
  from make_layer_strides[of 1 ?n 16 "16 * ?w" dropRate "psrc 1" "keep 1"]
  obtain b1 where b1: "make_layer ?n 16 (16 * ?w) 1 dropRate (psrc 1) (keep 1) = Inr b1"
    "length b1 = nat ?n" "block_strides b1 = group_strides 1 (nat ?n)" by auto
  from make_layer_strides[of 2 ?n "16 * ?w" "32 * ?w" dropRate "psrc 2" "keep 2"]
  obtain b2 where b2: "make_layer ?n (16 * ?w) (32 * ?w) 2 dropRate (psrc 2) (keep 2) = Inr b2"
    "length b2 = nat ?n" "block_strides b2 = group_strides 2 (nat ?n)" by auto
  from make_layer_strides[of 2 ?n "32 * ?w" "64 * ?w" dropRate "psrc 3" "keep 3"]
  obtain b3 where b3: "make_layer ?n (32 * ?w) (64 * ?w) 2 dropRate (psrc 3) (keep 3) = Inr b3"
    "length b3 = nat ?n" "block_strides b3 = group_strides 2 (nat ?n)" by auto
  have rs: "\<And>bs. block_strides (map reset_block bs) = block_strides bs"
    by (simp add: block_strides_def reset_block_def comp_def)
  let ?c1 = "\<lparr>in_channels = 3, out_channels = 16, kernel_size = (3, 3), stride = (1, 1),
              padding = (1, 1), dilation = (1, 1), groups = 1,
              weight = tensor_of [16, 3, 3, 3] (psrc 0 0 0), bias = None\<rparr>"
  from init_loop_ok[OF b1(1) b2(1) b3(1) assms(2), of ?c1]
  obtain ss where ss: "collect (map conv_std (?c1 # concat (map block_convs (b1 @ b2 @ b3)))) = Inr ss"
    by auto
  show ?thesis
    using assms(1) b1 b2 b3 ss
    by (simp add: Network_init_def Let_def Conv2d_init_def rs)
qed

text \<open>
  Claim C9 as stated fails for a depth below 4: \<open>depth = -2\<close> passes the assertion,
  \<^verbatim>\<open>range(-1)\<close> is empty and the network has no block at all, not \<open>3 * (-1)\<close>.
\<close>

theorem Network_negative_depth_no_blocks:
  "block_count (Network_init 1 (- 2) 10 1 0 zero_src keep_all) = Inr 0
   \<and> (- 2 - 4) mod 6 = (0::int) \<and> 3 * ((- 2 - 4) div 6) = (- 3::int)"
  by (simp add: block_count_def Network_init_def Let_def Conv2d_init_def make_layer_def
      conv_std_def)

theorem Network_init_blocks_witness:
  "block_count (Network_init 1 16 10 1 0 zero_src keep_all) = Inr 6
   \<and> network_strides (Network_init 1 16 10 1 0 zero_src keep_all)
       = Inr ([(1, 1), (1, 1)], [(2, 2), (1, 1)], [(2, 2), (1, 1)])"
proof -
  have n: "nat ((16 - 4) div 6) = Suc (Suc 0)" by simp
  from Network_init_blocks[of 16 1 10 1 0 zero_src keep_all] show ?thesis
    unfolding n by (auto simp: block_count_def network_strides_def group_strides_def)
qed

lemma getitem_simps [simp]:
  "getitem (x # xs) 0 = Inr x"
  "getitem (x # xs) (Suc n) = getitem xs n"
  "getitem [] n = Inl IndexError"
  by (simp_all add: getitem_def)

lemma and_then_assoc: "and_then (and_then m f) g = and_then m (\<lambda>x. and_then (f x) g)"
  by (cases m) simp_all

lemma and_then_Inr_id: "and_then m (\<lambda>a. Inr a) = m"
  by (cases m) simp_all

lemma Layer_init_fields:
  assumes "Layer_init n_in n_bottle n_out ops gate dil act ks grp preact gate_style norm_style
             wsrc gsrc bsrc = Inr L"
  shows "L_gate L = gate" "L_gate_style L = gate_style"
    and "Layer_make_ops n_bottle n_out dil act ks grp preact (norm_style = ''full'') wsrc gsrc bsrc 0 ops
           = Inr (L_op L)"
  using assms by (auto simp: Layer_init_def Let_def and_then_eq_Inr)

lemma Layer_make_ops_all:
  assumes "Layer_make_ops n_bottle n_out dil act ks grp preact sbn wsrc gsrc bsrc i
             [True, True, True, True] = Inr es"
  shows "\<exists>s0 s1 s2 s3. es = [seq_op s0, seq_op s1, seq_op s2, seq_op s3]"
  using assms by (auto simp: and_then_eq_Inr)

lemma Layer_make_ops_first:
  assumes "Layer_make_ops n_bottle n_out dil act ks grp preact sbn wsrc gsrc bsrc i
             [True, False, False, False] = Inr es"
  shows "\<exists>s0. es = [seq_op s0, bare_Module, bare_Module, bare_Module]"
  using assms by (auto simp: and_then_eq_Inr)

lemma nat_numerals: "2 = Suc (Suc 0)" "3 = Suc (Suc (Suc 0))" "(1::nat) = Suc 0"
  by simp_all

text \<open>
  Claim C3, as the code has it. In a layer built with all four ops active and both gates
  off, all four branches contribute: with \<open>out\<close> the output of the initial op, the result
  is op 1 applied to op 0 of \<open>out\<close>, plus op 3 applied to op 2 of \<open>out\<close>. The result is
  the output of the initial op passed through op 0 alone in a layer built with op 0 as
  its only active op.
\<close>

theorem Layer_no_gate_forward:
  assumes allops: "Layer_init n_in n_bottle n_out [True, True, True, True] [False, False] dil act ks
             grp preact gate_style norm_style wsrc gsrc bsrc = Inr L"
    and only0: "Layer_init n_in' n_bottle' n_out' [True, False, False, False] [False, False] dil'
             act' ks' grp' preact' gate_style' norm_style' wsrc' gsrc' bsrc' = Inr L0"
  shows "(\<exists>s0 s1 s2 s3.
           L_op L = [seq_op s0, seq_op s1, seq_op s2, seq_op s3]
           \<and> Layer_forward L x =
               and_then (Sequential_forward (L_initial_op L) x) (\<lambda>out.
               and_then (seq_forward s0 out relu) (\<lambda>a.
               and_then (seq_forward s2 out relu) (\<lambda>b.
               and_then (seq_forward s1 a relu) (\<lambda>c.
               and_then (seq_forward s3 b relu) (\<lambda>d.
               tadd c d))))))
         \<and> (\<exists>s0. L_op L0 = [seq_op s0, bare_Module, bare_Module, bare_Module]
               \<and> Layer_forward L0 x =
                   and_then (Sequential_forward (L_initial_op L0) x) (\<lambda>out.
                   seq_forward s0 out relu))"
proof -
  note f = Layer_init_fields[OF allops]
  from Layer_make_ops_all[OF f(3)] obtain s0 s1 s2 s3 where
    op: "L_op L = [seq_op s0, seq_op s1, seq_op s2, seq_op s3]"
    by blast
  have st0: "Layer_stage0 L out =
      and_then (seq_forward s0 out relu) (\<lambda>a.
      and_then (seq_forward s2 out relu) (\<lambda>b. Inr (pair a b)))" for out
    by (simp add: Layer_stage0_def f op nat_numerals call2_def)
  have st1: "Layer_stage1 L (pair a b) =
      and_then (seq_forward s1 a relu) (\<lambda>c.
      and_then (seq_forward s3 b relu) (\<lambda>d. tadd c d))" for a b
    by (simp add: Layer_stage1_def f op nat_numerals call2_def)
  have 1: "Layer_forward L x =
               and_then (Sequential_forward (L_initial_op L) x) (\<lambda>out.
               and_then (seq_forward s0 out relu) (\<lambda>a.
               and_then (seq_forward s2 out relu) (\<lambda>b.
               and_then (seq_forward s1 a relu) (\<lambda>c.
               and_then (seq_forward s3 b relu) (\<lambda>d.
               tadd c d)))))"
    by (simp add: Layer_forward_def st0 st1 and_then_assoc)
  note g = Layer_init_fields[OF only0]
  from Layer_make_ops_first[OF g(3)] obtain t0 where
    op0: "L_op L0 = [seq_op t0, bare_Module, bare_Module, bare_Module]"
    by blast
  have su0: "Layer_stage0 L0 out =
      and_then (seq_forward t0 out relu) (\<lambda>a. Inr (single a))" for out
    by (simp add: Layer_stage0_def g op0 nat_numerals)
  have su1: "Layer_stage1 L0 (single a) = Inr a" for a
    by (simp add: Layer_stage1_def g op0 nat_numerals)
  have 2: "Layer_forward L0 x =
                   and_then (Sequential_forward (L_initial_op L0) x) (\<lambda>out.
                   seq_forward t0 out relu)"
    by (simp add: Layer_forward_def su0 su1 and_then_assoc and_then_Inr_id)
  from op 1 op0 2 show ?thesis by blast
qed

lemma in_range_unit: "in_range [Suc 0, Suc 0, Suc 0, Suc 0] idx \<longleftrightarrow> idx = [0, 0, 0, 0]"
  by (auto simp: in_range_def list_all2_Cons2)

lemma pixel_eqI: "f [0, 0, 0, 0] = v \<Longrightarrow> tensor_of [Suc 0, Suc 0, Suc 0, Suc 0] f = pixel v"
  unfolding pixel_def One_nat_def by (rule tensor_of_cong) (simp add: in_range_unit)

lemma tmap_pixel [simp]: "tmap f (pixel v) = pixel (f v)"
  unfolding tmap_def by (simp, rule pixel_eqI) simp

lemma tbin_pixel: "tbin f (pixel a) (pixel b) = Inr (pixel (f a b))"
  unfolding tbin_def by (simp, rule pixel_eqI) (simp add: bidx_def)

lemma tadd_pixel [simp]: "tadd (pixel a) (pixel b) = Inr (pixel (a + b))"
  by (simp add: tadd_def tbin_pixel)

lemma tmul_pixel [simp]: "tmul (pixel a) (pixel b) = Inr (pixel (a * b))"
  by (simp add: tmul_def tbin_pixel)

lemma conv2d_pixel [simp]:
  "conv2d (pixel a) (pixel w) None (Suc 0, Suc 0) (0, 0) (Suc 0, Suc 0) (Suc 0) = Inr (pixel (w * a))"
  unfolding conv2d_def
  by (simp add: conv_out_def, rule pixel_eqI) (simp add: padded_def in_range_def)

lemma wn2d_pixel [simp]: "v \<noteq> 0 \<Longrightarrow> wn2d (pixel v) = Inr (pixel (v / \<bar>v\<bar>))"
proof -
  assume v: "v \<noteq> 0"
  have s: "sumsq (pixel v) = v\<^sup>2" by (simp add: sumsq_def)
  show ?thesis
    using v by (simp add: wn2d_4d s, intro pixel_eqI) simp
qed

lemma round_even_of_int [simp]: "round_even (of_int m) = m"
  by (simp add: round_even_def)

lemma nearest32_pow2:
  assumes "- 126 \<le> k"
  shows "nearest32 (2 powr of_int k) = 2 powr of_int k"
proof -
  have e: "exponent32 (2 powr of_int k) = k"
    using assms by (simp add: exponent32_def)
  have u: "2 powr of_int k / ulp32 (2 powr of_int k) = of_int (2 ^ 23)"
    unfolding ulp32_def e
    by (simp add: powr_diff)
  have "ulp32 (2 powr of_int k) * of_int (round_even (2 powr of_int k / ulp32 (2 powr of_int k)))
        = 2 powr of_int k"
    unfolding u round_even_of_int
    unfolding ulp32_def e by (simp add: powr_diff)
  then show ?thesis
    by (simp add: nearest32_def)
qed

lemma rnd32_pow2_fin:
  assumes "- 126 \<le> k" "k < 128"
  shows "rnd32 (2 powr of_int k) = Fin (2 powr of_int k)"
proof -
  have "(2::real) powr of_int k < 2 powr of_int 128"
    using assms(2) by (intro powr_less_mono) simp_all
  then have lt: "(2::real) powr of_int k < 2 ^ 128" by simp
  have "- (2 ^ 128) < (0::real)" by simp
  also have "(0::real) < 2 powr of_int k" by simp
  finally have gt: "\<not> 2 powr of_int k \<le> - ((2::real) ^ 128)" by simp
  show ?thesis
    using lt gt by (simp add: rnd32_def Let_def nearest32_pow2[OF assms(1)])
qed

lemma rnd32_pow2_inf:
  assumes "128 \<le> k"
  shows "rnd32 (2 powr of_int k) = PInf"
proof -
  have "(2::real) powr of_int 128 \<le> 2 powr of_int k"
    using assms by (intro powr_mono) simp_all
  then have "(2::real) ^ 128 \<le> 2 powr of_int k" by simp
  moreover have "- 126 \<le> k" using assms by simp
  ultimately show ?thesis
    by (simp add: rnd32_def Let_def nearest32_pow2)
qed

lemma rnd32_0 [simp]: "rnd32 0 = Fin 0"
  by (simp add: rnd32_def nearest32_def)

lemma rnd32_1 [simp]: "rnd32 1 = Fin 1"
  using rnd32_pow2_fin[of 0] by simp

lemma rnd32_two_pow_100: "rnd32 two_pow_100 = Fin two_pow_100"
proof -
  have "two_pow_100 = 2 powr of_int 100" by (simp add: two_pow_100_def)
  then show ?thesis using rnd32_pow2_fin[of 100] by simp
qed

lemma rnd32_two_pow_100_squared: "rnd32 (two_pow_100 * two_pow_100) = PInf"
proof -
  have "two_pow_100 * two_pow_100 = 2 powr of_int 200" by (simp add: two_pow_100_def)
  then show ?thesis using rnd32_pow2_inf[of 200] by simp
qed

lemma fpixel_eqI: "f [0, 0, 0, 0] = v \<Longrightarrow> ftensor_of [Suc 0, Suc 0, Suc 0, Suc 0] f = fpixel v"
  by (auto simp: ftensor_of_def fpixel_def in_range_unit fun_eq_iff)

lemma fpixel_simps [simp]:
  "fdims (fpixel v) = [1, 1, 1, 1]" "fentry (fpixel v) [0, 0, 0, 0] = v"
  by (simp_all add: fpixel_def ftensor_of_def in_range_def)

lemma to_f32_pixel: "to_f32 (pixel v) = fpixel (rnd32 v)"
  unfolding to_f32_def by (simp, rule fpixel_eqI) simp

lemma norm_f32_fpixel: "norm_f32 (fpixel v) = fsqrt (fadd (Fin 0) (fmul v v))"
  by (simp add: norm_f32_def fsum_def)

lemma wn2d_f32_fpixel: "wn2d_f32 (fpixel v) = Inr (fpixel (fdiv v (norm_f32 (fpixel v))))"
  unfolding wn2d_f32_def by (simp, rule fpixel_eqI) simp

lemma conv2d_f32_fpixel:
  "conv2d_f32 (fpixel a) (fpixel w) None (Suc 0, Suc 0) (0, 0) (Suc 0, Suc 0) (Suc 0)
     = Inr (fpixel (fadd (Fin 0) (fmul w a)))"
  unfolding conv2d_f32_def
  by (simp add: conv_out_def, rule fpixel_eqI) (simp add: fpadded_def in_range_def fsum_def)

lemma nearest32_scale:
  assumes "x \<noteq> 0" "2 powr (- 126) \<le> \<bar>x\<bar>" "2 powr (- 126) \<le> 2 powr of_int k * \<bar>x\<bar>"
  shows "nearest32 (2 powr of_int k * x) = 2 powr of_int k * nearest32 x"
proof -
  have pos: "0 < \<bar>x\<bar>" using assms(1) by simp
  have l1: "- 126 \<le> log 2 \<bar>x\<bar>"
    using assms(2) pos by (simp add: le_log_iff)
  then have f1: "- 126 \<le> \<lfloor>log 2 \<bar>x\<bar>\<rfloor>" by (simp add: le_floor_iff)
  have lg: "log 2 (2 powr of_int k * \<bar>x\<bar>) = of_int k + log 2 \<bar>x\<bar>"
    using pos by (simp add: log_mult)
  have "- 126 \<le> log 2 (2 powr of_int k * \<bar>x\<bar>)"
    using assms(3) pos by (simp add: le_log_iff)
  then have f2: "- 126 \<le> \<lfloor>log 2 (2 powr of_int k * \<bar>x\<bar>)\<rfloor>" by (simp add: le_floor_iff)
  have fl: "\<lfloor>log 2 (2 powr of_int k * \<bar>x\<bar>)\<rfloor> = k + \<lfloor>log 2 \<bar>x\<bar>\<rfloor>"
    unfolding lg by simp
  have ab: "\<bar>2 powr of_int k * x\<bar> = 2 powr of_int k * \<bar>x\<bar>"
    by (simp add: abs_mult)
  have e1: "exponent32 x = \<lfloor>log 2 \<bar>x\<bar>\<rfloor>"
    using f1 by (simp add: exponent32_def)
  have e2: "exponent32 (2 powr of_int k * x) = k + \<lfloor>log 2 \<bar>x\<bar>\<rfloor>"
    using f2 fl by (simp add: exponent32_def ab)
  have u: "ulp32 (2 powr of_int k * x) = 2 powr of_int k * ulp32 x"
    unfolding ulp32_def e1 e2 by (simp add: powr_add powr_diff)
  have up: "0 < ulp32 x" by (simp add: ulp32_def)
  have q: "2 powr of_int k * x / (2 powr of_int k * ulp32 x) = x / ulp32 x"
    by simp
  have nz: "2 powr of_int k * x \<noteq> 0" using assms(1) by simp
  show ?thesis
    using assms(1) nz unfolding nearest32_def u q by simp
qed

lemma scales_rnd32:
  assumes "scales k x"
  shows "rnd32 x = Fin (nearest32 x)"
    and "rnd32 (2 powr of_int k * x) = Fin (2 powr of_int k * nearest32 x)"
proof -
  show "rnd32 x = Fin (nearest32 x)"
  proof (cases "x = 0")
    case True
    then show ?thesis by (simp add: rnd32_def nearest32_def)
  next
    case False
    with assms have "\<bar>nearest32 x\<bar> < 2 ^ 128" by (simp add: scales_def)
    then show ?thesis by (simp add: rnd32_def Let_def abs_less_iff not_le)
  qed
  show "rnd32 (2 powr of_int k * x) = Fin (2 powr of_int k * nearest32 x)"
  proof (cases "x = 0")
    case True
    then show ?thesis by (simp add: rnd32_def nearest32_def)
  next
    case False
    with assms have b: "2 powr (- 126) \<le> \<bar>x\<bar>" "2 powr (- 126) \<le> 2 powr of_int k * \<bar>x\<bar>"
      "\<bar>nearest32 (2 powr of_int k * x)\<bar> < 2 ^ 128" by (simp_all add: scales_def)
    from nearest32_scale[OF False b(1,2)]
    have n: "nearest32 (2 powr of_int k * x) = 2 powr of_int k * nearest32 x" .
    from b(3) show ?thesis
      unfolding rnd32_def Let_def n by (simp add: abs_less_iff not_le)
  qed
qed

lemma two_k_squared: "2 powr of_int (2 * k) = 2 powr of_int k * (2 powr of_int k :: real)"
  by (simp add: powr_add[symmetric])

lemma norm_run_scales:
  assumes "sumsq_scales k a ys"
  shows "fsqrt (foldl fadd (Fin (2 powr of_int (2 * k) * a))
                  (map (\<lambda>y. fmul (Fin (2 powr of_int k * y)) (Fin (2 powr of_int k * y))) ys))
         = scale32 k (fsqrt (foldl fadd (Fin a) (map (\<lambda>y. fmul (Fin y) (Fin y)) ys)))"
  using assms
proof (induction ys arbitrary: a)
  case Nil
  then have s: "scales k (sqrt a)" by simp
  show ?case
  proof (cases "a < 0")
    case True
    then have "2 powr of_int (2 * k) * a < 0" by (simp add: mult_pos_neg)
    with True show ?thesis by (simp add: scale32_def)
  next
    case False
    then have nn: "\<not> 2 powr of_int (2 * k) * a < 0" by (simp add: not_less)
    have "sqrt (2 powr of_int (2 * k) * a) = 2 powr of_int k * sqrt a"
      unfolding two_k_squared by (simp add: real_sqrt_mult)
    then show ?thesis
      using False nn scales_rnd32[OF s] by (simp add: scale32_def)
  qed
next
  case (Cons y ys)
  let ?s = "nearest32 (y * y)" and ?a = "nearest32 (a + nearest32 (y * y))"
  from Cons.prems have s1: "scales (2 * k) (y * y)" and s2: "scales (2 * k) (a + ?s)"
    and s3: "sumsq_scales k ?a ys" by simp_all
  have m: "2 powr of_int k * y * (2 powr of_int k * y) = 2 powr of_int (2 * k) * (y * y)"
    unfolding two_k_squared by simp
  have p1: "fmul (Fin (2 powr of_int k * y)) (Fin (2 powr of_int k * y)) = Fin (2 powr of_int (2 * k) * ?s)"
    using scales_rnd32(2)[OF s1] by (simp add: m)
  have p2: "fmul (Fin y) (Fin y) = Fin ?s"
    using scales_rnd32(1)[OF s1] by simp
  have d: "2 powr of_int (2 * k) * a + 2 powr of_int (2 * k) * ?s = 2 powr of_int (2 * k) * (a + ?s)"
    by (simp add: distrib_left)
  have q1: "fadd (Fin (2 powr of_int (2 * k) * a)) (Fin (2 powr of_int (2 * k) * ?s))
            = Fin (2 powr of_int (2 * k) * ?a)"
    by (simp only: fadd.simps d scales_rnd32(2)[OF s2])
  have q2: "fadd (Fin a) (Fin ?s) = Fin ?a"
    using scales_rnd32(1)[OF s2] by simp
  show ?case
    unfolding list.map foldl_Cons p1 p2 q1 q2 by (rule Cons.IH[OF s3])
qed

lemma fdiv_scale32: "fdiv (Fin (2 powr of_int k * y)) (scale32 k v) = fdiv (Fin y) v"
  by (cases v) (simp_all add: scale32_def zero_less_mult_iff)

lemma fentry_to_f32: "in_range (dims t) idx \<Longrightarrow> fentry (to_f32 t) idx = rnd32 (entry t idx)"
  by (simp add: to_f32_def ftensor_of_def)

lemma fdims_to_f32 [simp]: "fdims (to_f32 t) = dims t"
  by (simp add: to_f32_def ftensor_of_def)

lemma entry_tscale: "in_range (dims t) idx \<Longrightarrow> entry (tscale c t) idx = c * entry t idx"
  by (simp add: tscale_def tmap_def entry_tensor_of)

lemma ftensor_of_cong:
  "(\<And>idx. in_range ds idx \<Longrightarrow> f idx = g idx) \<Longrightarrow> ftensor_of ds f = ftensor_of ds g"
  by (auto simp: ftensor_of_def fun_eq_iff)

lemma wn2d_f32_scale:
  assumes "norm_scales k w"
  shows "wn2d_f32 (to_f32 (tscale (2 powr of_int k) w)) = wn2d_f32 (to_f32 w)"
proof -
  let ?c = "2 powr of_int k :: real"
  from assms have sc: "\<And>idx. in_range (dims w) idx \<Longrightarrow> scales k (entry w idx)"
    and run: "sumsq_scales k 0 (map (\<lambda>idx. nearest32 (entry w idx)) (indices (dims w)))"
    by (simp_all add: norm_scales_def list_all_iff set_indices)
  have e1: "fentry (to_f32 w) idx = Fin (nearest32 (entry w idx))" if "in_range (dims w) idx" for idx
    using scales_rnd32(1)[OF sc[OF that]] that by (simp add: fentry_to_f32)
  have e2: "fentry (to_f32 (tscale ?c w)) idx = Fin (?c * nearest32 (entry w idx))"
    if "in_range (dims w) idx" for idx
    using scales_rnd32(2)[OF sc[OF that]] that by (simp add: fentry_to_f32 entry_tscale)
  have l1: "map (\<lambda>idx. fmul (fentry (to_f32 w) idx) (fentry (to_f32 w) idx)) (indices (dims w))
            = map (\<lambda>y. fmul (Fin y) (Fin y)) (map (\<lambda>idx. nearest32 (entry w idx)) (indices (dims w)))"
    by (simp add: set_indices e1)
  have l2: "map (\<lambda>idx. fmul (fentry (to_f32 (tscale ?c w)) idx) (fentry (to_f32 (tscale ?c w)) idx))
              (indices (dims w))
            = map (\<lambda>y. fmul (Fin (?c * y)) (Fin (?c * y)))
                (map (\<lambda>idx. nearest32 (entry w idx)) (indices (dims w)))"
    by (simp add: set_indices e2)
  have n: "norm_f32 (to_f32 (tscale ?c w)) = scale32 k (norm_f32 (to_f32 w))"
    using norm_run_scales[OF run] by (simp add: norm_f32_def fsum_def l1 l2)
  have "ftensor_of (dims w) (\<lambda>idx. fdiv (fentry (to_f32 (tscale ?c w)) idx) (norm_f32 (to_f32 (tscale ?c w))))
        = ftensor_of (dims w) (\<lambda>idx. fdiv (fentry (to_f32 w) idx) (norm_f32 (to_f32 w)))"
    by (rule ftensor_of_cong) (simp add: e1 e2 n fdiv_scale32)
  then show ?thesis
    by (simp add: wn2d_f32_def)
qed

lemma scales_pow2:
  assumes "- 126 \<le> j" "- 126 \<le> k + j" "j < 128" "k + j < 128"
  shows "scales k (2 powr of_int j)"
proof -
  have m: "2 powr of_int k * (2 powr of_int j :: real) = 2 powr of_int (k + j)"
    by (simp add: powr_add)
  have a: "(2::real) powr (- 126) \<le> 2 powr of_int j"
    using assms(1) by (intro powr_mono) simp_all
  have b: "(2::real) powr (- 126) \<le> 2 powr of_int (k + j)"
    using assms(2) by (intro powr_mono) simp_all
  have c: "(2::real) powr of_int j < 2 ^ 128"
    using powr_less_mono[of "of_int j" "of_int 128" "2::real"] assms(3) by simp
  have d: "(2::real) powr of_int (k + j) < 2 ^ 128"
    using powr_less_mono[of "of_int (k + j)" "of_int 128" "2::real"] assms(4) by simp
  have n1: "nearest32 (2 powr of_int j) = 2 powr of_int j"
    by (rule nearest32_pow2[OF assms(1)])
  have n2: "nearest32 (2 powr of_int (k + j)) = 2 powr of_int (k + j)"
    by (rule nearest32_pow2[OF assms(2)])
  have abs1: "\<bar>2 powr of_int j\<bar> = (2 powr of_int j :: real)" by simp
  have abs2: "\<bar>2 powr of_int (k + j)\<bar> = (2 powr of_int (k + j) :: real)" by simp
  show ?thesis
    unfolding scales_def abs1 m n1 n2 abs1 abs2 using a b c d by blast
qed

lemma nearest32_2 [simp]: "nearest32 2 = 2"
  using nearest32_pow2[of 1] by simp

lemma nearest32_4 [simp]: "nearest32 4 = 4"
  using nearest32_pow2[of 2] by simp

lemma scales_2: "scales 1 2"
  using scales_pow2[of 1 1] by simp

lemma scales_4: "scales 2 4"
  using scales_pow2[of 2 2] by simp

lemma sqrt_4: "sqrt 4 = 2"
  using real_sqrt_abs[of 2] by simp

lemma norm_scales_pixel_2: "norm_scales 1 (pixel 2)"
  by (simp add: norm_scales_def scales_2 scales_4 sqrt_4)

text \<open>
  Claim C5, as the code has it. The weight that reaches the convolution is the stored
  weight \<open>w\<close> divided by its global norm. In exact arithmetic this quotient, and with it
  the output, is the same for \<open>w\<close> and for \<open>c * w\<close>, for every positive \<open>c\<close> and every \<open>w\<close>
  with four axes that is not all zero. In the 32-bit floating point the program computes
  with, the quotient and the output are the same when \<open>c\<close> is a power of two and neither
  computation of the norm overflows or underflows (\<^const>\<open>norm_scales\<close>); the scaled
  module then stores \<open>c\<close> times the floats the unscaled one stores, without rounding.
\<close>

theorem WNC2D_scale_invariant:
  assumes "length (dims (weight m)) = 4"
    and "0 < c"
    and "\<exists>idx. in_range (dims (weight m)) idx \<and> entry (weight m) idx \<noteq> 0"
  shows "WNC2D_forward (m\<lparr>weight := tscale c (weight m)\<rparr>) input = WNC2D_forward m input
         \<and> wn2d (tscale c (weight m)) = wn2d (weight m)
         \<and> wn2d (weight m) = Inr (tensor_of (dims (weight m))
               (\<lambda>idx. entry (weight m) idx / sqrt (sumsq (weight m))))
         \<and> WNC2D_forward m input
             = conv2d input (tensor_of (dims (weight m))
                               (\<lambda>idx. entry (weight m) idx / sqrt (sumsq (weight m))))
                 (bias m) (stride m) (padding m) (dilation m) (groups m)
         \<and> (\<forall>k. c = 2 powr of_int k \<and> norm_scales k (weight m) \<longrightarrow>
               wn2d_f32 (to_f32 (tscale c (weight m))) = wn2d_f32 (to_f32 (weight m))
               \<and> WNC2D_forward_f32 (m\<lparr>weight := tscale c (weight m)\<rparr>) input
                   = WNC2D_forward_f32 m input)"
proof -
  have nz: "sumsq (weight m) \<noteq> 0"
    using assms(3) by (simp add: sumsq_eq_0_iff)
  have 1: "wn2d (tscale c (weight m)) = wn2d (weight m)"
    using assms(1,2) by (rule wn2d_tscale)
  have 2: "wn2d (weight m) = Inr (tensor_of (dims (weight m))
               (\<lambda>idx. entry (weight m) idx / sqrt (sumsq (weight m))))"
    using assms(1) nz by (simp add: wn2d_4d)
  have 3: "WNC2D_forward (m\<lparr>weight := tscale c (weight m)\<rparr>) input = WNC2D_forward m input"
    by (simp add: WNC2D_forward_def 1)
  have 4: "WNC2D_forward m input
             = conv2d input (tensor_of (dims (weight m))
                               (\<lambda>idx. entry (weight m) idx / sqrt (sumsq (weight m))))
                 (bias m) (stride m) (padding m) (dilation m) (groups m)"
    by (simp add: WNC2D_forward_def 2)
  have 5: "wn2d_f32 (to_f32 (tscale c (weight m))) = wn2d_f32 (to_f32 (weight m))
           \<and> WNC2D_forward_f32 (m\<lparr>weight := tscale c (weight m)\<rparr>) input
               = WNC2D_forward_f32 m input"
    if "c = 2 powr of_int k \<and> norm_scales k (weight m)" for k
  proof -
    from that wn2d_f32_scale[of k "weight m"]
    have w: "wn2d_f32 (to_f32 (tscale c (weight m))) = wn2d_f32 (to_f32 (weight m))" by simp
    then show ?thesis by (simp add: WNC2D_forward_f32_def)
  qed
  from 1 2 3 4 5 show ?thesis by blast
qed

text \<open>
  Claim C5 as stated fails in floating point. With the single stored weight 1 and
  \<open>c = 2 ^ 100\<close>, which is a float, the square of the scaled weight is above the largest
  float: the norm is an infinity, the normalised weight is 0 and so is the output, whereas
  the module with weight 1 returns its input, 1.
\<close>

theorem WNC2D_f32_scale_overflows:
  "first_entry_f32 (WNC2D_forward_f32
      ((unit_conv 1)\<lparr>weight := tscale two_pow_100 (weight (unit_conv 1))\<rparr>) (pixel 1))
     = Inr (Fin 0)
   \<and> first_entry_f32 (WNC2D_forward_f32 (unit_conv 1) (pixel 1)) = Inr (Fin 1)
   \<and> 0 < two_pow_100 \<and> entry (weight (unit_conv 1)) [0, 0, 0, 0] \<noteq> 0"
proof -
  have w: "tscale two_pow_100 (pixel 1) = pixel two_pow_100"
    by (simp add: tscale_def)
  have n: "norm_f32 (fpixel (Fin two_pow_100)) = PInf"
    by (simp add: norm_f32_fpixel rnd32_two_pow_100_squared)
  have scaled: "WNC2D_forward_f32 ((unit_conv 1)\<lparr>weight := tscale two_pow_100 (weight (unit_conv 1))\<rparr>)
                  (pixel 1) = Inr (fpixel (Fin 0))"
    by (simp add: WNC2D_forward_f32_def unit_conv_def w to_f32_pixel rnd32_two_pow_100
        wn2d_f32_fpixel n conv2d_f32_fpixel)
  have n1: "norm_f32 (fpixel (Fin 1)) = Fin 1"
    by (simp add: norm_f32_fpixel)
  have plain: "WNC2D_forward_f32 (unit_conv 1) (pixel 1) = Inr (fpixel (Fin 1))"
    by (simp add: WNC2D_forward_f32_def unit_conv_def to_f32_pixel wn2d_f32_fpixel n1
        conv2d_f32_fpixel)
  have c: "0 < two_pow_100" by (simp add: two_pow_100_def)
  have e: "entry (weight (unit_conv 1)) [0, 0, 0, 0] \<noteq> 0" by (simp add: unit_conv_def)
  show ?thesis
    using c e by (simp add: scaled plain first_entry_f32_def)
qed

theorem WNC2D_scale_invariant_witness:
  "WNC2D_forward ((unit_conv 2)\<lparr>weight := tscale 2 (weight (unit_conv 2))\<rparr>) (pixel 4)
     = WNC2D_forward (unit_conv 2) (pixel 4)
   \<and> wn2d (weight (unit_conv 2)) = Inr (tensor_of [1, 1, 1, 1] (\<lambda>idx. entry (pixel 2) idx / 2))
   \<and> WNC2D_forward_f32 ((unit_conv 2)\<lparr>weight := tscale 2 (weight (unit_conv 2))\<rparr>) (pixel 4)
     = WNC2D_forward_f32 (unit_conv 2) (pixel 4)
   \<and> first_entry_f32 (WNC2D_forward_f32 (unit_conv 2) (pixel 4)) = Inr (Fin 4)"
proof -
  have r2: "rnd32 2 = Fin 2" using rnd32_pow2_fin[of 1] by simp
  have r4: "rnd32 4 = Fin 4" using rnd32_pow2_fin[of 2] by simp
  have n2: "norm_f32 (fpixel (Fin 2)) = Fin 2"
    by (simp add: norm_f32_fpixel r4 sqrt_4 r2)
  have run: "first_entry_f32 (WNC2D_forward_f32 (unit_conv 2) (pixel 4)) = Inr (Fin 4)"
    by (simp add: first_entry_f32_def WNC2D_forward_f32_def unit_conv_def to_f32_pixel r2 r4
        wn2d_f32_fpixel n2 conv2d_f32_fpixel)
  have h1: "length (dims (weight (unit_conv 2))) = 4" by (simp add: unit_conv_def)
  have h2: "(0::real) < 2" by simp
  have h3: "\<exists>idx. in_range (dims (weight (unit_conv 2))) idx \<and> entry (weight (unit_conv 2)) idx \<noteq> 0"
    by (rule exI[of _ "[0, 0, 0, 0]"]) (simp add: unit_conv_def in_range_def)
  have s: "sumsq (pixel 2) = 4" by (simp add: sumsq_def)
  have k: "(2::real) = 2 powr of_int 1 \<and> norm_scales 1 (weight (unit_conv 2))"
    using norm_scales_pixel_2 by (simp add: unit_conv_def)
  from WNC2D_scale_invariant[OF h1 h2 h3, of "pixel 4"] k
  have "WNC2D_forward ((unit_conv 2)\<lparr>weight := tscale 2 (weight (unit_conv 2))\<rparr>) (pixel 4)
          = WNC2D_forward (unit_conv 2) (pixel 4)"
    and "wn2d (weight (unit_conv 2)) = Inr (tensor_of (dims (weight (unit_conv 2)))
               (\<lambda>idx. entry (weight (unit_conv 2)) idx / sqrt (sumsq (weight (unit_conv 2)))))"
    and "WNC2D_forward_f32 ((unit_conv 2)\<lparr>weight := tscale 2 (weight (unit_conv 2))\<rparr>) (pixel 4)
          = WNC2D_forward_f32 (unit_conv 2) (pixel 4)"
    by blast+
  then show ?thesis
    using run by (simp add: unit_conv_def s sqrt_4)
qed

lemma unit_conv_forward [simp]:
  "Conv2d_forward (unit_conv w) (pixel a) = Inr (pixel (w * a))"
  "w \<noteq> 0 \<Longrightarrow> WNC2D_forward (unit_conv w) (pixel a) = Inr (pixel (w / \<bar>w\<bar> * a))"
  by (simp_all add: Conv2d_forward_def WNC2D_forward_def unit_conv_def)

lemma Conv2d_init_unit [simp]:
  "Conv2d_init (Suc 0) (Suc 0) (Suc 0, Suc 0) (Suc 0, Suc 0) (0, 0) (Suc 0, Suc 0) (Suc 0) (ones_src k)
     = Inr (unit_conv 1)"
  by (simp add: Conv2d_init_def unit_conv_def pixel_def ones_src_def[abs_def])

lemma seq_init_unit [simp]:
  "seq_init (Suc 0) (Suc 0) (Suc 0, Suc 0) (Suc 0, Suc 0) True False (Suc 0) relu (ones_src k) g b
     = Inr \<lparr>seq_dilation = (Suc 0, Suc 0), seq_preactivation = True, seq_batchnorm = False,
            seq_bn = None, seq_conv = unit_conv 1, seq_activation = relu\<rparr>"
  by (simp add: seq_init_def seq_padding_def)

text \<open>
  Claim C3 as stated fails: with 1x1 kernels of weight 1 on a one-pixel image holding 1,
  the layer with all four ops returns 2, and the initial op followed by op 0 alone gives 1.
\<close>

theorem Layer_all_ops_not_op0_alone:
  "first_entry (Layer_run all_ops_layer Layer_forward (pixel 1)) = Inr 2
   \<and> first_entry (Layer_run all_ops_layer claimed_op0_alone (pixel 1)) = Inr 1"
  by (simp add: first_entry_def Layer_run_def all_ops_layer_def Layer_init_def Let_def
        numeral_eq_Suc Layer_forward_def Layer_stage0_def Layer_stage1_def claimed_op0_alone_def
        call2_def seq_forward_def relu_def)

lemma Layer_init_concrete:
  "\<exists>L. all_ops_layer = Inr L \<and> L_initial_op L = [ReLU_module, WNC2D_module (unit_conv 1)]"
  "\<exists>L. op0_only_layer = Inr L \<and> L_initial_op L = [ReLU_module, WNC2D_module (unit_conv 1)]"
  by (simp_all add: all_ops_layer_def op0_only_layer_def Layer_init_def Let_def numeral_eq_Suc)

theorem Layer_no_gate_forward_witness:
  "first_entry (Layer_run all_ops_layer Layer_forward (pixel 1)) = Inr 2
   \<and> first_entry (Layer_run op0_only_layer Layer_forward (pixel 1)) = Inr 1"
proof -
  from Layer_init_concrete obtain L L0 where
    L: "all_ops_layer = Inr L" "L_initial_op L = [ReLU_module, WNC2D_module (unit_conv 1)]"
    and L0: "op0_only_layer = Inr L0" "L_initial_op L0 = [ReLU_module, WNC2D_module (unit_conv 1)]"
    by blast
  have ops: "L_op L = replicate 4 (seq_op \<lparr>seq_dilation = (1, 1), seq_preactivation = True,
            seq_batchnorm = False, seq_bn = None, seq_conv = unit_conv 1, seq_activation = relu\<rparr>)"
    using L(1) by (auto simp: all_ops_layer_def Layer_init_def Let_def numeral_eq_Suc)
  have ops0: "L_op L0 = [seq_op \<lparr>seq_dilation = (1, 1), seq_preactivation = True,
            seq_batchnorm = False, seq_bn = None, seq_conv = unit_conv 1, seq_activation = relu\<rparr>,
            bare_Module, bare_Module, bare_Module]"
    using L0(1) by (auto simp: op0_only_layer_def Layer_init_def Let_def numeral_eq_Suc)
  from Layer_no_gate_forward[OF L(1)[unfolded all_ops_layer_def] L0(1)[unfolded op0_only_layer_def],
      of "pixel 1"]
  show ?thesis
    unfolding L(1) L0(1)
    by (auto simp: ops ops0 L(2) L0(2) numeral_eq_Suc first_entry_def Layer_run_def
        seq_forward_def relu_def)
qed

lemma split_gate_even_channels:
  assumes "dims pre = [n, 2 * m, h, w]"
  shows "\<exists>t. split_gate pre = Inr t \<and> dims t = [n, m, h, w]
           \<and> (\<forall>i c r q. i < n \<and> c < m \<and> r < h \<and> q < w \<longrightarrow>
                 entry t [i, c, r, q]
                   = tanh (entry pre [i, 2 * c, r, q]) * sigmoid (entry pre [i, 2 * c + 1, r, q]))"
proof -
  let ?ev = "tensor_of [n, m, h, w]
               (\<lambda>idx. case idx of i # c # rest \<Rightarrow> entry pre (i # (2 * c + 0) # rest) | _ \<Rightarrow> 0)"
  let ?od = "tensor_of [n, m, h, w]
               (\<lambda>idx. case idx of i # c # rest \<Rightarrow> entry pre (i # (2 * c + 1) # rest) | _ \<Rightarrow> 0)"
  have ev: "every_second 0 pre = Inr ?ev" and od: "every_second 1 pre = Inr ?od"
    using assms by (simp_all add: every_second_def)
  have "split_gate pre = tmul (tmap tanh ?ev) (tmap sigmoid ?od)"
    by (simp only: split_gate_def ev od and_then_Inr)
  then show ?thesis
    by (simp add: tmul_def tbin_def entry_tensor_of in_range_def bidx_def tmap_def)
qed

text \<open>
  Claim C2, as the code has it. In a layer whose first gate is on and whose ops 0 and 2
  are active, stage 0 in any style other than \<^verbatim>\<open>mult\<close> adds the outputs of the two ops
  and returns \<open>tanh\<close> of the even-indexed channels of the sum times \<open>sigmoid\<close> of the
  odd-indexed ones: for \<open>2 * m\<close> channels, channel \<open>c\<close> of the result is \<open>tanh\<close> of channel
  \<open>2 * c\<close> times \<open>sigmoid\<close> of channel \<open>2 * c + 1\<close>. In the \<^verbatim>\<open>mult\<close> style it returns the
  product of op 0 called with \<open>tanh\<close> as its nonlinearity and op 2 called with \<open>sigmoid\<close>
  as its nonlinearity, in place of the default ReLU inside each op.
\<close>

theorem Layer_stage0_gated:
  assumes g: "getitem (L_gate L) 0 = Inr True"
    and o0: "getitem (L_op L) 0 = Inr (seq_op s0)"
    and o2: "getitem (L_op L) 2 = Inr (seq_op s2)"
  shows "(L_gate_style L \<noteq> ''mult'' \<longrightarrow>
            Layer_stage0 L out =
              and_then (seq_forward s0 out relu) (\<lambda>a.
              and_then (seq_forward s2 out relu) (\<lambda>b.
              and_then (tadd a b) (\<lambda>s.
              and_then (every_second 0 s) (\<lambda>ev.
              and_then (every_second 1 s) (\<lambda>od.
              and_then (tmul (tmap tanh ev) (tmap sigmoid od)) (\<lambda>t. Inr (single t))))))))
         \<and> (L_gate_style L = ''mult'' \<longrightarrow>
            Layer_stage0 L out =
              and_then (seq_forward s0 out tanh) (\<lambda>a.
              and_then (seq_forward s2 out sigmoid) (\<lambda>b.
              and_then (tmul a b) (\<lambda>t. Inr (single t)))))
         \<and> (dims pre = [n, 2 * m, h, w] \<longrightarrow>
            (\<exists>t. split_gate pre = Inr t \<and> dims t = [n, m, h, w]
               \<and> (\<forall>i c r q. i < n \<and> c < m \<and> r < h \<and> q < w \<longrightarrow>
                     entry t [i, c, r, q]
                       = tanh (entry pre [i, 2 * c, r, q])
                         * sigmoid (entry pre [i, 2 * c + 1, r, q]))))"
  using split_gate_even_channels[of pre n m h w]
  by (simp add: Layer_stage0_def g o0 o2 call2_def split_gate_def and_then_assoc)

lemma tanh_sigmoid_nonzero: "tanh (- 1) * sigmoid (- 1) \<noteq> (0::real)"
proof -
  have "tanh (- 1 :: real) \<noteq> 0" by simp
  moreover have "sigmoid (- 1) > 0"
    unfolding sigmoid_def by (simp add: add_pos_pos)
  ultimately show ?thesis by simp
qed

lemma mult_gate_layer_made:
  "\<exists>L. mult_gate_layer = Inr L \<and> L_gate L = [True, False] \<and> L_gate_style L = ''mult''
       \<and> L_op L = [seq_op (plain_seq (unit_conv 1)), bare_Module,
                    seq_op (plain_seq (unit_conv 1)), bare_Module]"
  by (simp add: mult_gate_layer_def Layer_init_def Let_def numeral_eq_Suc plain_seq_def)

text \<open>
  Claim C2 as stated fails in the \<^verbatim>\<open>mult\<close> style: the nonlinearity is handed to the op,
  which with pre-activation applies it before its convolution. On a one-pixel input
  holding \<open>-1\<close>, with 1x1 kernels of weight 1, the code returns \<open>tanh (-1) * sigmoid (-1)\<close>,
  while \<open>tanh\<close> and \<open>sigmoid\<close> of the ordinary outputs of the two ops multiply to 0.
\<close>

theorem Layer_mult_gate_not_tanh_of_op:
  "flow_entry (Layer_run mult_gate_layer Layer_stage0 (pixel (- 1))) = Inr (tanh (- 1) * sigmoid (- 1))
   \<and> flow_entry (Layer_run mult_gate_layer claimed_mult_stage0 (pixel (- 1))) = Inr 0
   \<and> tanh (- 1) * sigmoid (- 1) \<noteq> (0::real)"
proof -
  from mult_gate_layer_made obtain L where L: "mult_gate_layer = Inr L" "L_gate L = [True, False]"
    "L_gate_style L = ''mult''"
    "L_op L = [seq_op (plain_seq (unit_conv 1)), bare_Module,
               seq_op (plain_seq (unit_conv 1)), bare_Module]" by blast
  have 1: "flow_entry (Layer_run mult_gate_layer Layer_stage0 (pixel (- 1)))
             = Inr (tanh (- 1) * sigmoid (- 1))"
    by (simp add: L flow_entry_def Layer_run_def Layer_stage0_def call2_def nat_numerals
          seq_forward_def plain_seq_def)
  have 2: "flow_entry (Layer_run mult_gate_layer claimed_mult_stage0 (pixel (- 1))) = Inr 0"
    by (simp add: L flow_entry_def Layer_run_def claimed_mult_stage0_def call2_def nat_numerals
          seq_forward_def plain_seq_def relu_def)
  from 1 2 tanh_sigmoid_nonzero show ?thesis by blast
qed

lemma in_range_pixel2:
  "in_range [Suc 0, Suc (Suc 0), Suc 0, Suc 0] idx \<longleftrightarrow> idx = [0, 0, 0, 0] \<or> idx = [0, 1, 0, 0]"
  by (auto simp: in_range_def list_all2_Cons2 less_Suc_eq)

lemma pixel2_eqI:
  "f [0, 0, 0, 0] = v \<Longrightarrow> f [0, 1, 0, 0] = v
     \<Longrightarrow> tensor_of [Suc 0, Suc (Suc 0), Suc 0, Suc 0] f = pixel2 v"
  unfolding pixel2_def nat_numerals by (rule tensor_of_cong) (auto simp: in_range_pixel2)

lemma dims_pixel2 [simp]: "dims (pixel2 v) = [1, 2, 1, 1]"
  by (simp add: pixel2_def)

lemma entry_pixel2 [simp]: "entry (pixel2 v) [0, 0, 0, 0] = v" "entry (pixel2 v) [0, Suc 0, 0, 0] = v"
  by (simp_all add: pixel2_def entry_tensor_of in_range_def)

lemma wide_conv_forward [simp]: "Conv2d_forward wide_conv (pixel a) = Inr (pixel2 a)"
  unfolding Conv2d_forward_def conv2d_def wide_conv_def
  by (simp add: conv_out_def numeral_eq_Suc, rule pixel2_eqI)
     (simp_all add: padded_def in_range_def entry_tensor_of)

lemma tadd_pixel2 [simp]: "tadd (pixel2 a) (pixel2 b) = Inr (pixel2 (a + b))"
  unfolding tadd_def tbin_def
  by (simp add: numeral_eq_Suc, rule pixel2_eqI) (simp_all add: bidx_def numeral_eq_Suc)

lemma every_second_pixel2_0 [simp]: "every_second 0 (pixel2 a) = Inr (pixel a)"
  unfolding every_second_def
  by (simp, rule pixel_eqI) simp

lemma every_second_pixel2_1 [simp]: "every_second (Suc 0) (pixel2 a) = Inr (pixel a)"
  unfolding every_second_def
  by (simp, rule pixel_eqI) simp

lemma split_gate_layer_made:
  "\<exists>L. split_gate_layer = Inr L \<and> L_gate L = [True, False] \<and> L_gate_style L = ''add_split''
       \<and> L_op L = [seq_op (plain_seq wide_conv), bare_Module,
                    seq_op (plain_seq wide_conv), bare_Module]"
  by (simp add: split_gate_layer_def Layer_init_def Let_def numeral_eq_Suc plain_seq_def
       seq_init_def Conv2d_init_def seq_padding_def wide_conv_def ones_src_def[abs_def])

theorem Layer_stage0_gated_witness:
  "flow_entry (Layer_run split_gate_layer Layer_stage0 (pixel 1)) = Inr (tanh 2 * sigmoid 2)
   \<and> flow_entry (Layer_run mult_gate_layer Layer_stage0 (pixel (- 1)))
       = Inr (tanh (- 1) * sigmoid (- 1))"
proof -
  from split_gate_layer_made obtain L where L: "split_gate_layer = Inr L"
    "L_gate L = [True, False]" "L_gate_style L = ''add_split''"
    "L_op L = [seq_op (plain_seq wide_conv), bare_Module,
               seq_op (plain_seq wide_conv), bare_Module]" by blast
  from mult_gate_layer_made obtain M where M: "mult_gate_layer = Inr M" "L_gate M = [True, False]"
    "L_gate_style M = ''mult''"
    "L_op M = [seq_op (plain_seq (unit_conv 1)), bare_Module,
               seq_op (plain_seq (unit_conv 1)), bare_Module]" by blast
  have gL: "getitem (L_gate L) 0 = Inr True" and gM: "getitem (L_gate M) 0 = Inr True"
    by (simp_all add: L M)
  have oL: "getitem (L_op L) 0 = Inr (seq_op (plain_seq wide_conv))"
    "getitem (L_op L) 2 = Inr (seq_op (plain_seq wide_conv))"
    by (simp_all add: L nat_numerals)
  have oM: "getitem (L_op M) 0 = Inr (seq_op (plain_seq (unit_conv 1)))"
    "getitem (L_op M) 2 = Inr (seq_op (plain_seq (unit_conv 1)))"
    by (simp_all add: M nat_numerals)
  from Layer_stage0_gated[OF gL oL, of "pixel 1" "pixel2 2" 1 1 1 1]
  have 1: "flow_entry (Layer_run split_gate_layer Layer_stage0 (pixel 1)) = Inr (tanh 2 * sigmoid 2)"
    by (simp add: L(1,3) flow_entry_def Layer_run_def seq_forward_def plain_seq_def relu_def)
  from Layer_stage0_gated[OF gM oM, of "pixel (- 1)" "pixel2 2" 1 1 1 1]
  have 2: "flow_entry (Layer_run mult_gate_layer Layer_stage0 (pixel (- 1)))
       = Inr (tanh (- 1) * sigmoid (- 1))"
    by (simp add: M(1,3) flow_entry_def Layer_run_def seq_forward_def plain_seq_def)
  from 1 2 show ?thesis by blast
qed

lemma BasicBlock_forward_branch:
  "BasicBlock_forward b x =
     and_then (bn_relu (BB_bn1 b) x) (\<lambda>act.
     and_then (BasicBlock_branch b act) (\<lambda>out.
     and_then (if BB_equalInOut b then Inr x else call_shortcut b act) (\<lambda>res.
     tadd res out)))"
  by (cases "BB_equalInOut b")
     (simp_all add: BasicBlock_forward_def BasicBlock_branch_def call_shortcut_def Let_def
      and_then_assoc)

text \<open>
  Claim C4, as the code has it. A block built with different channel counts stores a 1x1
  shortcut convolution at the stride of the block; its forward pass feeds the normalised
  and activated input \<open>act\<close> into the convolutional branch, and the residual term added to
  the branch output is the shortcut convolution applied to \<open>act\<close> as well, because the
  code rebinds \<^verbatim>\<open>x\<close> to the activation before both uses. A block built with equal channel
  counts stores no shortcut convolution and adds the original input itself.
\<close>

theorem BasicBlock_shortcut:
  assumes "BasicBlock_init in_planes out_planes s dropRate psrc keep = Inr b"
  shows "(in_planes \<noteq> out_planes \<longrightarrow>
            (\<exists>sc. BB_convShortcut b = Some sc \<and> kernel_size sc = (1, 1) \<and> stride sc = (s, s)
                  \<and> padding sc = (0, 0) \<and> in_channels sc = in_planes
                  \<and> out_channels sc = out_planes
                  \<and> BasicBlock_forward b x =
                      and_then (bn_relu (BB_bn1 b) x) (\<lambda>act.
                      and_then (BasicBlock_branch b act) (\<lambda>out.
                      and_then (Conv2d_forward sc act) (\<lambda>res.
                      tadd res out)))))
         \<and> (in_planes = out_planes \<longrightarrow>
            BB_convShortcut b = None
            \<and> BasicBlock_forward b x =
                and_then (bn_relu (BB_bn1 b) x) (\<lambda>act.
                and_then (BasicBlock_branch b act) (\<lambda>out.
                tadd x out)))"
proof -
  have eq: "BB_equalInOut b = (in_planes = out_planes)"
    using assms by (auto simp: BasicBlock_init_def and_then_eq_Inr split: if_splits)
  have sc: "in_planes \<noteq> out_planes \<Longrightarrow>
      \<exists>sc. BB_convShortcut b = Some sc \<and> kernel_size sc = (1, 1) \<and> stride sc = (s, s)
                  \<and> padding sc = (0, 0) \<and> in_channels sc = in_planes
                  \<and> out_channels sc = out_planes"
    using assms by (auto simp: BasicBlock_init_def Conv2d_init_def and_then_eq_Inr split: if_splits)
  have no: "in_planes = out_planes \<Longrightarrow> BB_convShortcut b = None"
    using assms by (auto simp: BasicBlock_init_def and_then_eq_Inr split: if_splits)
  show ?thesis
    using sc no by (auto simp: BasicBlock_forward_branch eq call_shortcut_def)
qed

lemma upt3: "[0..<3] = [0, Suc 0, 2]" "[0..<2] = [0, Suc 0]" "[0..<Suc 0] = [0]"
  by (simp_all add: upt_rec)

lemma in_range4:
  "in_range [n, c, h, w] idx \<longleftrightarrow> (\<exists>i k r q. idx = [i, k, r, q] \<and> i < n \<and> k < c \<and> r < h \<and> q < w)"
  by (auto simp: in_range_def list_all2_Cons2)

lemma dims_pixels [simp]: "dims (pixels n c v) = [n, c, Suc 0, Suc 0]"
  by (simp add: pixels_def)

lemma entry_pixels:
  "entry (pixels n c v) [i, k, r, q] = (if i < n \<and> k < c \<and> r = 0 \<and> q = 0 then v else 0)"
  by (auto simp: pixels_def entry_tensor_of in_range4)

lemma pixels_eqI:
  "(\<And>i k. i < n \<Longrightarrow> k < c \<Longrightarrow> f [i, k, 0, 0] = v)
     \<Longrightarrow> tensor_of [n, c, Suc 0, Suc 0] f = pixels n c v"
  unfolding pixels_def One_nat_def by (rule tensor_of_cong) (auto simp: in_range4)

lemma padded_pixels:
  "padded (pixels n c a) (Suc 0) (Suc 0) i k r q
     = (if i < n \<and> k < c \<and> r = Suc 0 \<and> q = Suc 0 then a else 0)"
  by (auto simp: padded_def entry_pixels in_range4)

lemma sum_list_const_upt: "(\<Sum>k\<leftarrow>[0..<n]. (a::real)) = real n * a"
  by (simp add: sum_list_triv)

lemma conv3_pixels:
  assumes "0 < co"
  shows "conv2d (pixels n ci a) (tensor_of [co, ci, 3, 3] (\<lambda>idx. 1)) None (Suc 0, Suc 0)
     (Suc 0, Suc 0) (Suc 0, Suc 0) (Suc 0)
   = Inr (pixels n co (real ci * a))"
proof -
  have "conv2d (pixels n ci a) (tensor_of [co, ci, 3, 3] (\<lambda>idx. 1)) None (Suc 0, Suc 0)
     (Suc 0, Suc 0) (Suc 0, Suc 0) (Suc 0)
   = Inr (tensor_of [n, co, Suc 0, Suc 0]
       (\<lambda>idx. case idx of
                    [i, c, r, s] \<Rightarrow>
                      (\<Sum>k\<leftarrow>[0..<ci]. \<Sum>u\<leftarrow>[0..<3]. \<Sum>v\<leftarrow>[0..<3].
                           entry (tensor_of [co, ci, 3, 3] (\<lambda>idx. 1)) [c, k, u, v]
                           * padded (pixels n ci a) (fst (Suc 0, Suc 0)) (snd (Suc 0, Suc 0)) i
                               ((c div (co div Suc 0)) * ci + k)
                               (r * fst (Suc 0, Suc 0) + u * fst (Suc 0, Suc 0))
                               (s * snd (Suc 0, Suc 0) + v * snd (Suc 0, Suc 0)))
                  | _ \<Rightarrow> 0))"
    using assms unfolding conv2d_def by (simp add: conv_out_def)
  also have "\<dots> = Inr (pixels n co (real ci * a))"
  proof (rule arg_cong[where f = Inr], rule pixels_eqI)
    fix i c assume i: "i < n" and c: "c < co"
    have "(\<Sum>k\<leftarrow>[0..<ci]. \<Sum>u\<leftarrow>[0..<3]. \<Sum>v\<leftarrow>[0..<3].
                           entry (tensor_of [co, ci, 3, 3] (\<lambda>idx. 1)) [c, k, u, v]
                           * padded (pixels n ci a) (Suc 0) (Suc 0) i
                               ((c div co) * ci + k) u v)
          = (\<Sum>k\<leftarrow>[0..<ci]. a)"
      by (rule arg_cong[where f = sum_list], rule map_cong)
         (use i c in \<open>simp_all add: upt3 padded_pixels entry_tensor_of in_range4\<close>)
    then show "(case [i, c, 0, 0] of
                    [i, c, r, s] \<Rightarrow>
                      (\<Sum>k\<leftarrow>[0..<ci]. \<Sum>u\<leftarrow>[0..<3]. \<Sum>v\<leftarrow>[0..<3].
                           entry (tensor_of [co, ci, 3, 3] (\<lambda>idx. 1)) [c, k, u, v]
                           * padded (pixels n ci a) (fst (Suc 0, Suc 0)) (snd (Suc 0, Suc 0)) i
                               ((c div (co div Suc 0)) * ci + k)
                               (r * fst (Suc 0, Suc 0) + u * fst (Suc 0, Suc 0))
                               (s * snd (Suc 0, Suc 0) + v * snd (Suc 0, Suc 0)))
                  | _ \<Rightarrow> 0) = real ci * a"
      by (simp add: sum_list_const_upt)
  qed
  finally show ?thesis .
qed

lemma bn_relu_pixels:
  "bn_relu (BatchNorm2d_init c g (\<lambda>k. 1)) (pixels 2 c v) = Inr (pixels 2 c 1)"
proof -
  have m: "channel_mean (entry (pixels 2 c v)) 2 (Suc 0) (Suc 0) k = (if k < c then v else 0)" for k
    by (simp add: channel_mean_def entry_pixels upt3)
  have "BatchNorm2d_forward (BatchNorm2d_init c g (\<lambda>k. 1)) (pixels 2 c v) = Inr (pixels 2 c 1)"
    unfolding BatchNorm2d_forward_def BatchNorm2d_init_def
    by (simp add: Let_def, rule pixels_eqI) (simp add: entry_pixels m)
  then show ?thesis
    by (simp add: bn_relu_def tmap_def relu_def, intro pixels_eqI) (simp add: entry_pixels)
qed

lemma conv1_pixels:
  assumes "0 < co"
  shows "conv2d (pixels n ci a) (tensor_of [co, ci, Suc 0, Suc 0] (\<lambda>idx. 1)) None (Suc 0, Suc 0)
     (0, 0) (Suc 0, Suc 0) (Suc 0)
   = Inr (pixels n co (real ci * a))"
proof -
  have "conv2d (pixels n ci a) (tensor_of [co, ci, Suc 0, Suc 0] (\<lambda>idx. 1)) None (Suc 0, Suc 0)
     (0, 0) (Suc 0, Suc 0) (Suc 0)
   = Inr (tensor_of [n, co, Suc 0, Suc 0]
       (\<lambda>idx. case idx of
                    [i, c, r, s] \<Rightarrow>
                      (\<Sum>k\<leftarrow>[0..<ci].
                           entry (tensor_of [co, ci, Suc 0, Suc 0] (\<lambda>idx. 1)) [c, k, 0, 0]
                           * padded (pixels n ci a) 0 0 i ((c div co) * ci + k) r s)
                  | _ \<Rightarrow> 0))"
    using assms unfolding conv2d_def by (simp add: conv_out_def)
  also have "\<dots> = Inr (pixels n co (real ci * a))"
  proof (rule arg_cong[where f = Inr], rule pixels_eqI)
    fix i c assume i: "i < n" and c: "c < co"
    have "(\<Sum>k\<leftarrow>[0..<ci].
                           entry (tensor_of [co, ci, Suc 0, Suc 0] (\<lambda>idx. 1)) [c, k, 0, 0]
                           * padded (pixels n ci a) 0 0 i ((c div co) * ci + k) 0 0)
          = (\<Sum>k\<leftarrow>[0..<ci]. a)"
      by (rule arg_cong[where f = sum_list], rule map_cong)
         (use i c in \<open>simp_all add: padded_def entry_pixels entry_tensor_of in_range4\<close>)
    then show "(case [i, c, 0, 0] of
                    [i, c, r, s] \<Rightarrow>
                      (\<Sum>k\<leftarrow>[0..<ci].
                           entry (tensor_of [co, ci, Suc 0, Suc 0] (\<lambda>idx. 1)) [c, k, 0, 0]
                           * padded (pixels n ci a) 0 0 i ((c div co) * ci + k) r s)
                  | _ \<Rightarrow> 0) = real ci * a"
      by (simp add: sum_list_const_upt)
  qed
  finally show ?thesis .
qed

lemma tadd_pixels: "tadd (pixels n c a) (pixels n c b) = Inr (pixels n c (a + b))"
  unfolding tadd_def tbin_def
  by (simp, rule pixels_eqI) (simp add: bidx_in_range in_range4 entry_pixels)

lemmas block_eval =
  BasicBlock_init_def Conv2d_init_def BasicBlock_run_def BasicBlock_forward_branch
  BasicBlock_branch_def call_shortcut_def claimed_shortcut_forward_def Conv2d_forward_def
  ones_src_def[abs_def] bn_relu_pixels conv3_pixels conv1_pixels tadd_pixels
  first_entry_def entry_pixels

text \<open>
  Claim C4 as stated fails: on a batch of two one-pixel inputs holding \<open>-1\<close>, a freshly
  built block from 1 to 2 channels with all drawn parameters 1 returns 3 (shortcut of the
  activation 1, plus the branch output 2), while the shortcut of the original input would
  give \<open>-1 + 2 = 1\<close>.
\<close>

theorem BasicBlock_shortcut_reads_activation:
  "first_entry (BasicBlock_run shortcut_block BasicBlock_forward (pixels 2 1 (- 1))) = Inr 3
   \<and> first_entry (BasicBlock_run shortcut_block claimed_shortcut_forward (pixels 2 1 (- 1)))
       = Inr 1"
  by (simp add: shortcut_block_def block_eval)

theorem BasicBlock_shortcut_witness:
  "first_entry (BasicBlock_run shortcut_block BasicBlock_forward (pixels 2 1 (- 1))) = Inr 3
   \<and> first_entry (BasicBlock_run identity_block BasicBlock_forward (pixels 2 1 (- 1))) = Inr 0"
proof -
  obtain b where b: "BasicBlock_init 1 2 1 0 ones_src (\<lambda>idx. 1) = Inr b"
    by (simp add: BasicBlock_init_def Conv2d_init_def)
  obtain c where c: "BasicBlock_init 1 1 1 0 ones_src (\<lambda>idx. 1) = Inr c"
    by (simp add: BasicBlock_init_def Conv2d_init_def)
  from BasicBlock_shortcut[OF b, of "pixels 2 1 (- 1)"]
  have 1: "first_entry (BasicBlock_run shortcut_block BasicBlock_forward (pixels 2 1 (- 1))) = Inr 3"
    by (simp add: shortcut_block_def block_eval)
  from BasicBlock_shortcut[OF c, of "pixels 2 1 (- 1)"]
  have 2: "first_entry (BasicBlock_run identity_block BasicBlock_forward (pixels 2 1 (- 1))) = Inr 0"
    by (simp add: identity_block_def block_eval)
  from 1 2 show ?thesis by blast
qed

lemma conv_ok_reset: "block_ok ip op s (reset_block b) = block_ok ip op s b"
  by (simp add: block_ok_def reset_block_def reset_bn_def bn_ok_def)

lemma chain_ok_reset: "chain_ok ip op s (map reset_block bs) = chain_ok ip op s bs"
  by (induction bs arbitrary: ip s) (simp_all add: conv_ok_reset)

lemma BasicBlock_init_block_ok:
  assumes "0 < op" "0 < s" "ip = op \<longrightarrow> s = 1" "d \<le> 1"
  shows "\<exists>b. BasicBlock_init ip op s d psrc keep = Inr b \<and> block_ok ip op s b"
  using assms
  by (auto simp: BasicBlock_init_def Conv2d_init_def block_ok_def conv_ok_def BatchNorm2d_init_def
      bn_ok_def)

lemma chain_ok_all:
  "list_all (block_ok op op 1) bs \<Longrightarrow> chain_ok op op 1 bs"
  by (induction bs) simp_all

lemma make_layer_chain_ok:
  assumes "0 < ip" "0 < op" "0 < s" "ip = op \<longrightarrow> s = 1" "d \<le> 1"
  shows "\<exists>bs. make_layer n ip op s d psrc keep = Inr bs \<and> length bs = nat n \<and> chain_ok ip op s bs"
proof -
  let ?P = "\<lambda>i b. block_ok (if i = 0 then ip else op) op (if i = 0 then s else 1) b"
  have "\<exists>bs. make_layer n ip op s d psrc keep = Inr bs \<and> list_all2 ?P [0..<nat n] bs"
    unfolding make_layer_def
  proof (rule collect_map)
    fix i
    have "\<exists>b. BasicBlock_init (if i = 0 then ip else op) op (if i = 0 then s else 1) d
                  (psrc i) (keep i) = Inr b
              \<and> block_ok (if i = 0 then ip else op) op (if i = 0 then s else 1) b"
      by (rule BasicBlock_init_block_ok) (use assms in auto)
    then show "\<exists>y. BasicBlock_init (and_or (i = 0) ip op) op (and_or (i = 0) s 1) d (psrc i) (keep i)
                 = Inr y \<and> ?P i y"
      using assms by (cases "i = 0") (auto simp: and_or_def)
  qed
  then obtain bs where bs: "make_layer n ip op s d psrc keep = Inr bs"
    and all: "list_all2 ?P [0..<nat n] bs" by blast
  have len: "length bs = nat n"
    using all by (auto dest: list_all2_lengthD)
  have "chain_ok ip op s bs"
  proof (cases "nat n")
    case 0
    with len show ?thesis by simp
  next
    case (Suc m)
    with all have all': "list_all2 ?P (0 # map Suc [0..<m]) bs"
      by (simp only: upt_0_Suc)
    then obtain b rest where br: "bs = b # rest" "?P 0 b" "list_all2 ?P (map Suc [0..<m]) rest"
      by (auto simp: list_all2_Cons1)
    from br(3) have "list_all (block_ok op op 1) rest"
      by (auto simp: list_all2_map1 list_all_iff list_all2_conv_all_nth in_set_conv_nth)
    then have "chain_ok op op 1 rest" by (rule chain_ok_all)
    with br show ?thesis by simp
  qed
  with bs len show ?thesis by blast
qed

lemma conv_out_3: "0 < h \<Longrightarrow> 0 < s \<Longrightarrow> conv_out h 3 s (Suc 0) (Suc 0) = (h - 1) div s + 1"
  by (simp add: conv_out_def)

lemma conv_out_1: "0 < h \<Longrightarrow> conv_out h (Suc 0) s 0 (Suc 0) = (h - 1) div s + 1"
  by (simp add: conv_out_def)

lemma bn_relu_ok:
  assumes "dims x = [n, num_features bn, h, w]" and "n * h * w \<noteq> 1"
  shows "\<exists>y. bn_relu bn x = Inr y \<and> dims y = [n, num_features bn, h, w]"
  using BatchNorm2d_forward_ok[OF assms] by (auto simp: bn_relu_def)

lemma tadd_same_dims:
  assumes "dims a = ds" "dims b = ds"
  shows "\<exists>y. tadd a b = Inr y \<and> dims y = ds"
  using assms by (simp add: tadd_def tbin_def)

lemma dropout_ok:
  assumes "0 < p" "p \<le> 1"
  shows "\<exists>y. dropout p tr keep t = Inr y \<and> dims y = dims t"
  using assms by (simp add: dropout_def)

lemma BasicBlock_forward_ok:
  assumes ok: "block_ok ip op s b" and x: "dims x = [n, ip, h, w]"
    and pos: "0 < h" "0 < w" "0 < s"
    and batch: "n * ((h - 1) div s + 1) * ((w - 1) div s + 1) \<noteq> 1"
  shows "\<exists>y. BasicBlock_forward b x = Inr y \<and> dims y = [n, op, (h - 1) div s + 1, (w - 1) div s + 1]"
proof -
  let ?h = "(h - 1) div s + 1" and ?w = "(w - 1) div s + 1"
  note f = ok[unfolded block_ok_def]
  have "(h - 1) div s \<le> h - 1" "(w - 1) div s \<le> w - 1"
    by (rule div_le_dividend)+
  then have le: "?h \<le> h" "?w \<le> w"
    using pos by linarith+
  have batch0: "n * h * w \<noteq> 1"
    by (rule prod_ne_1_mono[OF batch le]) simp_all
  from bn_relu_ok[of x n "BB_bn1 b" h w] x f batch0 obtain act where
    act: "bn_relu (BB_bn1 b) x = Inr act" "dims act = [n, ip, h, w]" by auto
  have c1: "\<exists>y. Conv2d_forward (BB_conv1 b) act = Inr y \<and> dims y = [n, op, ?h, ?w]"
    using Conv2d_forward_ok[of "BB_conv1 b" act n h w] f act(2) pos
    by (simp add: conv_out_3)
  then obtain y1 where y1: "Conv2d_forward (BB_conv1 b) act = Inr y1" "dims y1 = [n, op, ?h, ?w]"
    by blast
  from bn_relu_ok[of y1 n "BB_bn2 b" ?h ?w] y1 f batch obtain o1 where
    o1: "bn_relu (BB_bn2 b) y1 = Inr o1" "dims o1 = [n, op, ?h, ?w]" by auto
  have "\<exists>o2. (if BB_droprate b > 0
               then dropout (BB_droprate b) (BB_training b) (BB_keep b) o1
               else Inr o1) = Inr o2 \<and> dims o2 = [n, op, ?h, ?w]"
    using dropout_ok[of "BB_droprate b" "BB_training b" "BB_keep b" o1] f o1(2) by auto
  then obtain o2 where o2: "(if BB_droprate b > 0
               then dropout (BB_droprate b) (BB_training b) (BB_keep b) o1
               else Inr o1) = Inr o2" "dims o2 = [n, op, ?h, ?w]" by blast
  have "\<exists>y. Conv2d_forward (BB_conv2 b) o2 = Inr y \<and> dims y = [n, op, ?h, ?w]"
    using Conv2d_forward_ok[of "BB_conv2 b" o2 n ?h ?w] f o2(2)
    by (simp add: conv_out_3)
  then obtain o3 where o3: "Conv2d_forward (BB_conv2 b) o2 = Inr o3" "dims o3 = [n, op, ?h, ?w]"
    by blast
  have br: "BasicBlock_branch b act = Inr o3"
    by (simp add: BasicBlock_branch_def y1 o1 o2 o3)
  have "\<exists>res. (if BB_equalInOut b then Inr x else call_shortcut b act) = Inr res
             \<and> dims res = [n, op, ?h, ?w]"
  proof (cases "BB_convShortcut b")
    case None
    with f have "ip = op" "s = 1" "BB_equalInOut b" by auto
    then show ?thesis using x pos by simp
  next
    case (Some sc)
    with f have sc: "ip \<noteq> op" "conv_ok sc" "in_channels sc = ip" "out_channels sc = op"
      "kernel_size sc = (1, 1)" "stride sc = (s, s)" "padding sc = (0, 0)" "dilation sc = (1, 1)"
      "\<not> BB_equalInOut b"
      by auto
    show ?thesis
      using Conv2d_forward_ok[of sc act n h w] sc act(2) pos Some
      by (simp add: call_shortcut_def conv_out_1)
  qed
  then obtain res where res: "(if BB_equalInOut b then Inr x else call_shortcut b act) = Inr res"
    "dims res = [n, op, ?h, ?w]" by blast
  from tadd_same_dims[OF res(2) o3(2)] obtain y where y: "tadd res o3 = Inr y"
    "dims y = [n, op, ?h, ?w]" by blast
  show ?thesis
    using y by (simp add: BasicBlock_forward_branch act br res)
qed

lemma blocks_forward_ok:
  assumes "chain_ok ip op s bs" "bs \<noteq> []" "dims x = [n, ip, h, w]" "0 < h" "0 < w" "0 < s"
    and "n * ((h - 1) div s + 1) * ((w - 1) div s + 1) \<noteq> 1"
  shows "\<exists>y. blocks_forward bs x = Inr y \<and> dims y = [n, op, (h - 1) div s + 1, (w - 1) div s + 1]"
  using assms
proof (induction bs arbitrary: ip s x h w)
  case Nil
  then show ?case by simp
next
  case (Cons b bs)
  from Cons.prems have ok: "block_ok ip op s b" and rest: "chain_ok op op 1 bs" by simp_all
  from BasicBlock_forward_ok[OF ok Cons.prems(3-7)] obtain y where
    y: "BasicBlock_forward b x = Inr y" "dims y = [n, op, (h - 1) div s + 1, (w - 1) div s + 1]"
    by blast
  show ?case
  proof (cases bs)
    case Nil
    then show ?thesis using y by simp
  next
    case (Cons c cs)
    then have ne: "bs \<noteq> []" by simp
    from Cons.IH[OF rest ne y(2)] Cons.prems(7) obtain z where
      "blocks_forward bs y = Inr z" "dims z = [n, op, (h - 1) div s + 1, (w - 1) div s + 1]"
      by auto
    then show ?thesis using y by simp
  qed
qed

lemma in_range2: "in_range [n, m] idx \<longleftrightarrow> (\<exists>i j. idx = [i, j] \<and> i < n \<and> j < m)"
  by (auto simp: in_range_def list_all2_Cons2)

lemma in_range_pair [simp]: "in_range [n, m] [i, j] \<longleftrightarrow> i < n \<and> j < m"
  by (simp add: in_range_def)

lemma sum_list_upt_cong:
  "(\<And>l. l < m \<Longrightarrow> f l = g l) \<Longrightarrow> (\<Sum>l\<leftarrow>[0..<m]. f l) = (\<Sum>l\<leftarrow>[0..<m]. (g l :: real))"
  by (rule arg_cong[where f = sum_list], rule map_cong) simp_all

lemma last_cols_ok:
  assumes "dims ctx = [n, (nC + 1) * 10]"
  shows "\<exists>lc. last_cols ctx 10 = Inr lc \<and> dims lc = [n, 10]
           \<and> (\<forall>i j. i < n \<and> j < 10 \<longrightarrow> entry lc [i, j] = entry ctx [i, 10 * nC + j])"
  using assms
  by (simp add: last_cols_def slice_cols_def entry_tensor_of mult.commute)

lemma softmax_ok:
  assumes "dims t = [n, m]"
  shows "\<exists>sm. softmax t = Inr sm \<and> dims sm = [n, m]
           \<and> (\<forall>i j. i < n \<and> j < m \<longrightarrow>
                 entry sm [i, j] = exp (entry t [i, j]) / (\<Sum>l\<leftarrow>[0..<m]. exp (entry t [i, l])))"
  using assms by (simp add: softmax_def entry_tensor_of)

lemma priors_ok:
  assumes "dims ctx = [n, (nC + 1) * 10]"
  shows "\<exists>lc pr. last_cols ctx 10 = Inr lc \<and> softmax lc = Inr pr \<and> dims pr = [n, 10]
           \<and> (\<forall>i c. i < n \<and> c < 10 \<longrightarrow> entry pr [i, c] = mos_prior ctx nC 10 i c)"
proof -
  from last_cols_ok[OF assms] obtain lc where lc: "last_cols ctx 10 = Inr lc" "dims lc = [n, 10]"
    "\<And>i j. i < n \<Longrightarrow> j < 10 \<Longrightarrow> entry lc [i, j] = entry ctx [i, 10 * nC + j]" by blast
  from softmax_ok[OF lc(2)] obtain pr where pr: "softmax lc = Inr pr" "dims pr = [n, 10]"
    "\<And>i j. i < n \<Longrightarrow> j < 10 \<Longrightarrow>
       entry pr [i, j] = exp (entry lc [i, j]) / (\<Sum>l\<leftarrow>[0..<10]. exp (entry lc [i, l]))" by blast
  have "entry pr [i, c] = mos_prior ctx nC 10 i c" if "i < n" "c < 10" for i c
  proof -
    have "(\<Sum>l\<leftarrow>[0..<10]. exp (entry lc [i, l])) = (\<Sum>l\<leftarrow>[0..<10]. exp (entry ctx [i, 10 * nC + l]))"
      by (rule sum_list_upt_cong) (simp add: lc(3) that)
    then show ?thesis
      using that by (simp add: pr(3) lc(3) mos_prior_def)
  qed
  with lc pr show ?thesis by blast
qed

lemma bdims_row: "bdims [n, Suc 0] [n, m] = Some [n, m]"
  by (simp add: bdims_def)

lemma mixture_component_ok:
  assumes ctx: "dims ctx = [n, (nC + 1) * 10]" and nc: "N_nClasses net = nC"
    and pr: "dims pr = [n, 10]" and c: "c < 10"
  shows "\<exists>t. mixture_component net ctx pr c = Inr t \<and> dims t = [n, nC]
           \<and> (\<forall>i k. i < n \<and> k < nC \<longrightarrow>
                 entry t [i, k] = entry pr [i, c] * mos_component ctx nC i c k)"
proof -
  let ?p = "tensor_of [n] (\<lambda>idx. case idx of [i] \<Rightarrow> entry pr [i, c] | _ \<Rightarrow> 0)"
  let ?p1 = "tensor_of [n, 1] (\<lambda>idx. case idx of [i, j] \<Rightarrow> entry ?p [i] | _ \<Rightarrow> 0)"
  have sel: "select_col pr c = Inr ?p"
    using pr c by (simp add: select_col_def)
  have uns: "unsqueeze1 ?p = Inr ?p1"
    by (simp add: unsqueeze1_def)
  have le: "(c + 1) * nC \<le> (nC + 1) * 10"
  proof -
    have "c + 1 \<le> 10" using c by simp
    then have "(c + 1) * nC \<le> 10 * nC" by (rule mult_le_mono1)
    also have "\<dots> \<le> (nC + 1) * 10" by simp
    finally show ?thesis .
  qed
  have le': "c * nC \<le> (c + 1) * nC" by simp
  let ?sl = "tensor_of [n, nC] (\<lambda>idx. case idx of [i, j] \<Rightarrow> entry ctx [i, c * nC + j] | _ \<Rightarrow> 0)"
  have sl: "slice_cols ctx (c * nC) ((c + 1) * nC) = Inr ?sl"
  proof -
    have 1: "min ((c + 1) * nC) ((nC + 1) * 10) = (c + 1) * nC" using le by simp
    have 2: "min (c * nC) ((nC + 1) * 10) = c * nC" using le le' by simp
    have 3: "(c + 1) * nC - c * nC = nC" by simp
    show ?thesis
      unfolding slice_cols_def ctx by (simp only: list.case 1 2 3)
  qed
  from softmax_ok[of ?sl n nC] obtain sm where sm: "softmax ?sl = Inr sm" "dims sm = [n, nC]"
    "\<And>i j. i < n \<Longrightarrow> j < nC \<Longrightarrow>
       entry sm [i, j] = exp (entry ?sl [i, j]) / (\<Sum>l\<leftarrow>[0..<nC]. exp (entry ?sl [i, l]))"
    by auto
  have smc: "entry sm [i, k] = mos_component ctx nC i c k" if "i < n" "k < nC" for i k
  proof -
    have "(\<Sum>l\<leftarrow>[0..<nC]. exp (entry ?sl [i, l])) = (\<Sum>l\<leftarrow>[0..<nC]. exp (entry ctx [i, c * nC + l]))"
      by (rule sum_list_upt_cong) (simp add: entry_tensor_of that)
    then show ?thesis
      using that by (simp add: sm(3) mos_component_def entry_tensor_of)
  qed
  have mc: "mixture_component net ctx pr c = tmul ?p1 sm"
    unfolding mixture_component_def nc by (simp only: sel uns sl sm(1) and_then_Inr)
  let ?t = "tensor_of [n, nC] (\<lambda>idx. entry ?p1 (bidx [n, 1] idx) * entry sm (bidx [n, nC] idx))"
  have t: "tmul ?p1 sm = Inr ?t"
    by (simp add: tmul_def tbin_def sm(2) bdims_row)
  have "entry ?t [i, k] = entry pr [i, c] * mos_component ctx nC i c k" if "i < n" "k < nC" for i k
  proof -
    have b1: "bidx [n, Suc 0] [i, k] = [i, 0]"
      using that by (auto simp: bidx_def)
    have b2: "bidx [n, nC] [i, k] = [i, k]"
      using that by (intro bidx_in_range) simp
    show ?thesis
      using that by (simp add: entry_tensor_of b1 b2 smc in_range_def)
  qed
  then show ?thesis
    using mc t by simp
qed

lemma sum_list_upt_set: "(\<Sum>l\<leftarrow>[0..<m]. f l) = (\<Sum>l = 0..<m. (f l :: real))"
  by (simp add: interv_sum_list_conv_sum_set_nat)

lemma exp_sum_pos: "0 < m \<Longrightarrow> 0 < (\<Sum>l\<leftarrow>[0..<m]. exp (g l :: real))"
  unfolding sum_list_upt_set by (rule sum_pos) simp_all

lemma softmax_row_sums_to_one:
  assumes "0 < m"
  shows "(\<Sum>j\<leftarrow>[0..<m]. exp (g j :: real) / (\<Sum>l\<leftarrow>[0..<m]. exp (g l))) = 1"
proof -
  have "(\<Sum>j\<leftarrow>[0..<m]. exp (g j) / (\<Sum>l\<leftarrow>[0..<m]. exp (g l)))
        = (\<Sum>j = 0..<m. exp (g j)) / (\<Sum>l\<leftarrow>[0..<m]. exp (g l))"
    unfolding sum_list_upt_set by (simp only: sum_divide_distrib)
  also have "\<dots> = 1"
    using exp_sum_pos[OF assms, of g] by (simp add: sum_list_upt_set)
  finally show ?thesis .
qed

lemma mos_prior_pos: "0 < mos_prior ctx nC 10 i c"
  unfolding mos_prior_def by (intro divide_pos_pos exp_gt_zero exp_sum_pos) simp

lemma mos_component_pos: "0 < nC \<Longrightarrow> 0 < mos_component ctx nC i c k"
  unfolding mos_component_def by (intro divide_pos_pos exp_gt_zero exp_sum_pos)

lemma mos_mixture_pos: "0 < nC \<Longrightarrow> 0 < mos_mixture ctx nC 10 i k"
  unfolding mos_mixture_def sum_list_upt_set
  by (rule sum_pos) (simp_all add: mos_prior_pos mos_component_pos)

lemma mos_mixture_sums_to_one:
  assumes "0 < nC"
  shows "(\<Sum>k\<leftarrow>[0..<nC]. mos_mixture ctx nC 10 i k) = 1"
proof -
  have "(\<Sum>k\<leftarrow>[0..<nC]. mos_mixture ctx nC 10 i k)
        = (\<Sum>k = 0..<nC. \<Sum>c = 0..<10. mos_prior ctx nC 10 i c * mos_component ctx nC i c k)"
    by (simp add: mos_mixture_def sum_list_upt_set)
  also have "\<dots> = (\<Sum>c = 0..<10. \<Sum>k = 0..<nC. mos_prior ctx nC 10 i c * mos_component ctx nC i c k)"
    by (rule sum.swap)
  also have "\<dots> = (\<Sum>c = 0..<10. mos_prior ctx nC 10 i c * (\<Sum>k = 0..<nC. mos_component ctx nC i c k))"
    by (simp add: sum_distrib_left)
  also have "\<dots> = (\<Sum>c = 0..<10. mos_prior ctx nC 10 i c)"
  proof (rule sum.cong[OF refl])
    fix c
    have "(\<Sum>k = 0..<nC. mos_component ctx nC i c k) = 1"
      using softmax_row_sums_to_one[OF assms, of "\<lambda>k. entry ctx [i, c * nC + k]"]
      by (simp add: mos_component_def sum_list_upt_set)
    then show "mos_prior ctx nC 10 i c * (\<Sum>k = 0..<nC. mos_component ctx nC i c k)
                 = mos_prior ctx nC 10 i c" by simp
  qed
  also have "\<dots> = 1"
    using softmax_row_sums_to_one[of 10 "\<lambda>c. entry ctx [i, 10 * nC + c]"]
    by (simp add: mos_prior_def sum_list_upt_set)
  finally show ?thesis .
qed

lemma mixture_head_ok:
  assumes ctx: "dims ctx = [n, (nC + 1) * 10]" and nc: "N_nClasses net = nC"
    and nk: "N_n_components net = 10" and pos: "0 < nC"
  shows "\<exists>out. mixture_head net ctx = Inr out \<and> dims out = [n, nC]
           \<and> (\<forall>i k. i < n \<and> k < nC \<longrightarrow> entry out [i, k] = ln (mos_mixture ctx nC 10 i k))"
proof -
  from priors_ok[OF ctx] obtain lc pr where lc: "last_cols ctx 10 = Inr lc"
    and pr: "softmax lc = Inr pr" "dims pr = [n, 10]"
      "\<And>i c. i < n \<Longrightarrow> c < 10 \<Longrightarrow> entry pr [i, c] = mos_prior ctx nC 10 i c" by blast
  let ?P = "\<lambda>c t. dims t = [n, nC]
             \<and> (\<forall>i k. i < n \<and> k < nC \<longrightarrow>
                   entry t [i, k] = mos_prior ctx nC 10 i c * mos_component ctx nC i c k)"
  have "\<exists>ms. collect (map (mixture_component net ctx pr) [0..<10]) = Inr ms
            \<and> list_all2 ?P [0..<10] ms"
  proof (rule collect_map)
    fix c assume "c \<in> set [0..<10]"
    then have c: "c < 10" by simp
    from mixture_component_ok[OF ctx nc pr(2) c] obtain t where
      t: "mixture_component net ctx pr c = Inr t" "dims t = [n, nC]"
      "\<And>i k. i < n \<Longrightarrow> k < nC \<Longrightarrow> entry t [i, k] = entry pr [i, c] * mos_component ctx nC i c k"
      by blast
    show "\<exists>y. mixture_component net ctx pr c = Inr y \<and> ?P c y"
      using t c by (simp add: pr(3))
  qed
  then obtain ms where ms: "collect (map (mixture_component net ctx pr) [0..<10]) = Inr ms"
    and all: "list_all2 ?P [0..<10] ms" by blast
  have len: "length ms = 10"
    using all by (auto dest: list_all2_lengthD)
  have nth: "?P c (ms ! c)" if "c < 10" for c
    using list_all2_nthD[OF all, of c] that by simp
  have dm: "\<And>u. u \<in> set ms \<Longrightarrow> dims u = [n, nC]"
    using nth len by (auto simp: in_set_conv_nth)
  let ?st = "tensor_of [n, 10, nC] (\<lambda>idx. case idx of [i, c, j] \<Rightarrow> entry (ms ! c) [i, j] | _ \<Rightarrow> 0)"
  have st: "stack1 ms = Inr ?st"
  proof -
    from len obtain t rest where tr: "ms = t # rest" by (cases ms) auto
    then have "dims t = [n, nC]" "list_all (\<lambda>u. dims u = [n, nC]) rest"
      using dm by (auto simp: list_all_iff)
    then show ?thesis
      unfolding stack1_def using len by (simp add: tr)
  qed
  let ?sm = "tensor_of [n, nC] (\<lambda>idx. case idx of [i, j] \<Rightarrow> (\<Sum>c\<leftarrow>[0..<10]. entry ?st [i, c, j]) | _ \<Rightarrow> 0)"
  have sm: "sum1 ?st = Inr ?sm"
    by (simp add: sum1_def)
  have e: "entry ?sm [i, k] = mos_mixture ctx nC 10 i k" if "i < n" "k < nC" for i k
  proof -
    have "(\<Sum>c\<leftarrow>[0..<10]. entry ?st [i, c, k])
          = (\<Sum>c\<leftarrow>[0..<10]. mos_prior ctx nC 10 i c * mos_component ctx nC i c k)"
      by (rule sum_list_upt_cong) (use that nth in \<open>simp add: entry_tensor_of in_range_def\<close>)
    then show ?thesis
      using that by (simp add: entry_tensor_of mos_mixture_def)
  qed
  have nolow: "\<not> list_ex (\<lambda>idx. entry ?sm idx \<le> 0) (indices (dims ?sm))"
  proof -
    have "0 < entry ?sm idx" if "in_range [n, nC] idx" for idx
    proof -
      from that obtain i k where "idx = [i, k]" "i < n" "k < nC" by (auto simp: in_range2)
      then show ?thesis using e mos_mixture_pos[OF pos, of ctx i k] by simp
    qed
    then show ?thesis
      by (auto simp: list_ex_iff set_indices not_le)
  qed
  have lg: "tlog ?sm = Inr (tmap ln ?sm)"
    using nolow by (simp only: tlog_def if_False)
  have head: "mixture_head net ctx = Inr (tmap ln ?sm)"
    unfolding mixture_head_def nk by (simp only: lc pr(1) ms st sm lg and_then_Inr)
  have "entry (tmap ln ?sm) [i, k] = ln (mos_mixture ctx nC 10 i k)" if "i < n" "k < nC" for i k
    using e[OF that] that by (simp add: tmap_def entry_tensor_of)
  then show ?thesis
    using head by simp
qed

lemma Network_init_structure:
  assumes init: "Network_init widen_factor depth nClasses epochs dropRate psrc keep = Inr net"
    and w: "0 < widen_factor" and d: "dropRate \<le> 1"
  shows "conv_ok (N_conv1 net) \<and> in_channels (N_conv1 net) = 3 \<and> out_channels (N_conv1 net) = 16
         \<and> kernel_size (N_conv1 net) = (3, 3) \<and> stride (N_conv1 net) = (1, 1)
         \<and> padding (N_conv1 net) = (1, 1) \<and> dilation (N_conv1 net) = (1, 1)"
    and "chain_ok 16 (16 * widen_factor) 1 (N_block1 net)
         \<and> chain_ok (16 * widen_factor) (32 * widen_factor) 2 (N_block2 net)
         \<and> chain_ok (32 * widen_factor) (64 * widen_factor) 2 (N_block3 net)"
    and "length (N_block1 net) = nat ((depth - 4) div 6)
         \<and> length (N_block2 net) = nat ((depth - 4) div 6)
         \<and> length (N_block3 net) = nat ((depth - 4) div 6)"
    and "num_features (N_bn1 net) = 64 * widen_factor \<and> in_features (N_fc net) = 64 * widen_factor
         \<and> out_features (N_fc net) = (nClasses + 1) * 10 \<and> N_nChannels net = 64 * widen_factor
         \<and> N_nClasses net = nClasses \<and> N_n_components net = 10"
    and "bn_ok (N_bn1 net)
         \<and> dims (lin_weight (N_fc net)) = [(nClasses + 1) * 10, 64 * widen_factor]
         \<and> dims (lin_bias (N_fc net)) = [(nClasses + 1) * 10]"
proof -
  let ?n = "(depth - 4) div 6" and ?w = widen_factor
  from make_layer_chain_ok[of 16 "16 * ?w" 1 dropRate ?n "psrc 1" "keep 1"] w d
  obtain b1 where b1: "make_layer ?n 16 (16 * ?w) 1 dropRate (psrc 1) (keep 1) = Inr b1"
    "length b1 = nat ?n" "chain_ok 16 (16 * ?w) 1 b1" by auto
  from make_layer_chain_ok[of "16 * ?w" "32 * ?w" 2 dropRate ?n "psrc 2" "keep 2"] w d
  obtain b2 where b2: "make_layer ?n (16 * ?w) (32 * ?w) 2 dropRate (psrc 2) (keep 2) = Inr b2"
    "length b2 = nat ?n" "chain_ok (16 * ?w) (32 * ?w) 2 b2" by auto
  from make_layer_chain_ok[of "32 * ?w" "64 * ?w" 2 dropRate ?n "psrc 3" "keep 3"] w d
  obtain b3 where b3: "make_layer ?n (32 * ?w) (64 * ?w) 2 dropRate (psrc 3) (keep 3) = Inr b3"
    "length b3 = nat ?n" "chain_ok (32 * ?w) (64 * ?w) 2 b3" by auto
  let ?c1 = "\<lparr>in_channels = 3, out_channels = 16, kernel_size = (3, 3), stride = (1, 1),
              padding = (1, 1), dilation = (1, 1), groups = 1,
              weight = tensor_of [16, 3, 3, 3] (psrc 0 0 0), bias = None\<rparr>"
  from init_loop_ok[OF b1(1) b2(1) b3(1) w, of ?c1]
  obtain ss where ss: "collect (map conv_std (?c1 # concat (map block_convs (b1 @ b2 @ b3)))) = Inr ss"
    by auto
  have a: "(depth - 4) mod 6 = 0"
    using init by (auto simp: Network_init_def Let_def split: if_splits)
  have net: "net = \<lparr>N_epochs = epochs, N_nClasses = nClasses, N_n_components = 10,
                 N_conv1 = ?c1,
                 N_block1 = map reset_block b1,
                 N_block2 = map reset_block b2,
                 N_block3 = map reset_block b3,
                 N_bn1 = reset_bn (BatchNorm2d_init (64 * ?w) (\<lambda>k. 1) (\<lambda>k. 0)),
                 N_fc = \<lparr>in_features = 64 * ?w,
                         out_features = (nClasses + 1) * 10,
                         lin_weight = tensor_of [(nClasses + 1) * 10, 64 * ?w] (psrc 0 0 1),
                         lin_bias = tensor_of [(nClasses + 1) * 10] (\<lambda>idx. 0)\<rparr>,
                 N_nChannels = 64 * ?w,
                 N_lr = 1 / 10,
                 N_j = 0\<rparr>"
    using init a b1(1) b2(1) b3(1) ss
    by (simp add: Network_init_def Let_def Conv2d_init_def)
  show "conv_ok (N_conv1 net) \<and> in_channels (N_conv1 net) = 3 \<and> out_channels (N_conv1 net) = 16
         \<and> kernel_size (N_conv1 net) = (3, 3) \<and> stride (N_conv1 net) = (1, 1)
         \<and> padding (N_conv1 net) = (1, 1) \<and> dilation (N_conv1 net) = (1, 1)"
    by (simp add: net conv_ok_def)
  show "chain_ok 16 (16 * widen_factor) 1 (N_block1 net)
         \<and> chain_ok (16 * widen_factor) (32 * widen_factor) 2 (N_block2 net)
         \<and> chain_ok (32 * widen_factor) (64 * widen_factor) 2 (N_block3 net)"
    using b1(3) b2(3) b3(3) by (simp add: net chain_ok_reset)
  show "length (N_block1 net) = nat ((depth - 4) div 6)
         \<and> length (N_block2 net) = nat ((depth - 4) div 6)
         \<and> length (N_block3 net) = nat ((depth - 4) div 6)"
    using b1(2) b2(2) b3(2) by (simp add: net)
  show "num_features (N_bn1 net) = 64 * widen_factor \<and> in_features (N_fc net) = 64 * widen_factor
         \<and> out_features (N_fc net) = (nClasses + 1) * 10 \<and> N_nChannels net = 64 * widen_factor
         \<and> N_nClasses net = nClasses \<and> N_n_components net = 10"
    by (simp add: net reset_bn_def BatchNorm2d_init_def)
  show "bn_ok (N_bn1 net)
         \<and> dims (lin_weight (N_fc net)) = [(nClasses + 1) * 10, 64 * widen_factor]
         \<and> dims (lin_bias (N_fc net)) = [(nClasses + 1) * 10]"
    by (simp add: net reset_bn_def BatchNorm2d_init_def bn_ok_def)
qed

lemma Network_init_wf:
  assumes init: "Network_init widen_factor depth nClasses epochs dropRate psrc keep = Inr net"
    and depth: "10 \<le> depth" and w: "0 < widen_factor" and d: "dropRate \<le> 1"
  shows "Network_wf widen_factor nClasses net"
proof -
  note s = Network_init_structure[OF init w d]
  have ne: "N_block1 net \<noteq> []" "N_block2 net \<noteq> []" "N_block3 net \<noteq> []"
    using s(3) depth by auto
  show ?thesis
    unfolding Network_wf_def using s(1,2,4,5) ne by simp
qed

lemma retrained_wf:
  assumes "Network_wf widen_factor nClasses net"
  shows "Network_wf widen_factor nClasses (retrained net)"
  using assms by (simp add: Network_wf_def retrained_def bn_ok_def)

lemma avg_pool_full:
  assumes "dims t = [n, c, h, w]" "0 < h" "0 < w"
  shows "\<exists>y. avg_pool2d t (h, w) = Inr y \<and> dims y = [n, c, 1, 1]"
  using assms by (simp add: avg_pool2d_def)

lemma view_rows_ok:
  assumes "dims t = [n, c, 1, 1]" "0 < n" "0 < c"
  shows "\<exists>y. view_rows c t = Inr y \<and> dims y = [n, c]"
  using assms by (simp add: view_rows_def view_def numel_def)

lemma Linear_forward_ok:
  assumes "dims t = [n, in_features l]"
  shows "\<exists>y. Linear_forward l t = Inr y \<and> dims y = [n, out_features l]"
  using assms by (simp add: Linear_forward_def)

lemma Network_init_succeeds:
  assumes "(depth - 4) mod 6 = 0" and "0 < widen_factor"
  shows "\<exists>net. Network_init widen_factor depth nClasses epochs dropRate psrc keep = Inr net"
proof -
  let ?n = "(depth - 4) div 6" and ?w = widen_factor
  from make_layer_strides[of 1 ?n 16 "16 * ?w" dropRate "psrc 1" "keep 1"]
  obtain b1 where b1: "make_layer ?n 16 (16 * ?w) 1 dropRate (psrc 1) (keep 1) = Inr b1" by auto
  from make_layer_strides[of 2 ?n "16 * ?w" "32 * ?w" dropRate "psrc 2" "keep 2"]
  obtain b2 where b2: "make_layer ?n (16 * ?w) (32 * ?w) 2 dropRate (psrc 2) (keep 2) = Inr b2"
    by auto
  from make_layer_strides[of 2 ?n "32 * ?w" "64 * ?w" dropRate "psrc 3" "keep 3"]
  obtain b3 where b3: "make_layer ?n (32 * ?w) (64 * ?w) 2 dropRate (psrc 3) (keep 3) = Inr b3"
    by auto
  let ?c1 = "\<lparr>in_channels = 3, out_channels = 16, kernel_size = (3, 3), stride = (1, 1),
              padding = (1, 1), dilation = (1, 1), groups = 1,
              weight = tensor_of [16, 3, 3, 3] (psrc 0 0 0), bias = None\<rparr>"
  from init_loop_ok[OF b1 b2 b3 assms(2), of ?c1]
  obtain ss where ss: "collect (map conv_std (?c1 # concat (map block_convs (b1 @ b2 @ b3)))) = Inr ss"
    by auto
  show ?thesis
    using assms b1 b2 b3 ss by (simp add: Network_init_def Let_def Conv2d_init_def)
qed

lemma Network_context_ok:
  assumes wf: "Network_wf widen_factor nClasses net"
    and x: "dims x = [n, 3, h, w]" "0 < n" "0 < h" "0 < w"
    and batch: "1 < n \<or> 4 < h \<or> 4 < w"
  shows "\<exists>ctx. Network_context net x = Inr ctx \<and> dims ctx = [n, (nClasses + 1) * 10]"
proof -
  let ?w = widen_factor
  from wf have c1: "conv_ok (N_conv1 net) \<and> in_channels (N_conv1 net) = 3
         \<and> out_channels (N_conv1 net) = 16
         \<and> kernel_size (N_conv1 net) = (3, 3) \<and> stride (N_conv1 net) = (1, 1)
         \<and> padding (N_conv1 net) = (1, 1) \<and> dilation (N_conv1 net) = (1, 1)"
    and ch: "chain_ok 16 (16 * ?w) 1 (N_block1 net)"
      "chain_ok (16 * ?w) (32 * ?w) 2 (N_block2 net)"
      "chain_ok (32 * ?w) (64 * ?w) 2 (N_block3 net)"
    and ne: "N_block1 net \<noteq> []" "N_block2 net \<noteq> []" "N_block3 net \<noteq> []"
    and f: "num_features (N_bn1 net) = 64 * ?w" "in_features (N_fc net) = 64 * ?w"
      "out_features (N_fc net) = (nClasses + 1) * 10" "N_nChannels net = 64 * ?w"
    by (simp_all add: Network_wf_def)
  have pos: "0 < ?w"
  proof (cases "N_block1 net")
    case Nil
    with ne show ?thesis by simp
  next
    case (Cons b bs)
    with ch(1) have "0 < out_channels (BB_conv1 b)" "out_channels (BB_conv1 b) = 16 * ?w"
      by (simp_all add: block_ok_def conv_ok_def)
    then show ?thesis by simp
  qed
  have "\<exists>y. Conv2d_forward (N_conv1 net) x = Inr y \<and> dims y = [n, 16, h, w]"
    using Conv2d_forward_ok[of "N_conv1 net" x n h w] c1 x
    by (simp add: conv_out_3)
  then obtain o1 where o1: "Conv2d_forward (N_conv1 net) x = Inr o1" "dims o1 = [n, 16, h, w]"
    by blast
  let ?h2 = "(h - 1) div 2 + 1" and ?w2 = "(w - 1) div 2 + 1"
  let ?h3 = "(?h2 - 1) div 2 + 1" and ?w3 = "(?w2 - 1) div 2 + 1"
  have b3: "n * ?h3 * ?w3 \<noteq> 1"
  proof
    assume "n * ?h3 * ?w3 = 1"
    then have "n * ?h3 = 1 \<and> ?w3 = 1" by (simp only: nat_mult_eq_1_iff)
    then have "n = 1" "?h3 = 1" "?w3 = 1" by (simp_all only: nat_mult_eq_1_iff)
    then have "n = 1" "h \<le> 4" "w \<le> 4" by presburger+
    with batch show False by auto
  qed
  have b2: "n * ?h2 * ?w2 \<noteq> 1"
    by (rule prod_ne_1_mono[OF b3]) simp_all
  have b1: "n * h * w \<noteq> 1"
    by (rule prod_ne_1_mono[OF b2]) (use x in auto)
  from blocks_forward_ok[of 16 "16 * ?w" 1 "N_block1 net" o1 n h w] ch ne o1(2) x b1
  obtain o2 where o2: "blocks_forward (N_block1 net) o1 = Inr o2" "dims o2 = [n, 16 * ?w, h, w]"
    by auto
  from blocks_forward_ok[of "16 * ?w" "32 * ?w" 2 "N_block2 net" o2 n h w] ch ne o2(2) x b2
  obtain o3 where o3: "blocks_forward (N_block2 net) o2 = Inr o3"
    "dims o3 = [n, 32 * ?w, ?h2, ?w2]"
    by auto
  from blocks_forward_ok[of "32 * ?w" "64 * ?w" 2 "N_block3 net" o3 n ?h2 ?w2] ch ne o3(2) b3
  obtain o4 where o4: "blocks_forward (N_block3 net) o3 = Inr o4"
    "dims o4 = [n, 64 * ?w, ?h3, ?w3]"
    by auto
  from bn_relu_ok[of o4 n "N_bn1 net" ?h3 ?w3] o4(2) f b3
  obtain o5 where o5: "bn_relu (N_bn1 net) o4 = Inr o5" "dims o5 = [n, 64 * ?w, ?h3, ?w3]"
    by auto
  have sz: "size_of o5 2 = Inr ?h3" "size_of o5 3 = Inr ?w3"
    by (simp_all add: size_of_def getitem_def o5(2) nat_numerals)
  from avg_pool_full[OF o5(2)]
  obtain o6 where o6: "avg_pool2d o5 (?h3, ?w3) = Inr o6" "dims o6 = [n, 64 * ?w, 1, 1]"
    by auto
  from view_rows_ok[OF o6(2) x(2)] pos f
  obtain o7 where o7: "view_rows (N_nChannels net) o6 = Inr o7" "dims o7 = [n, 64 * ?w]"
    by auto
  from Linear_forward_ok[of o7 n "N_fc net"] o7(2) f
  obtain ctx where c: "Linear_forward (N_fc net) o7 = Inr ctx" "dims ctx = [n, (nClasses + 1) * 10]"
    by auto
  have "Network_context net x = Inr ctx"
    unfolding Network_context_def
    by (simp only: o1 o2 o3 o4 o5 sz o6 o7 c and_then_Inr)
  with c(2) show ?thesis by blast
qed

lemma mos_prior_sums_to_one: "(\<Sum>c\<leftarrow>[0..<10]. mos_prior ctx nC 10 i c) = 1"
  using softmax_row_sums_to_one[of 10 "\<lambda>c. entry ctx [i, 10 * nC + c]"]
  by (simp add: mos_prior_def)

lemma mos_component_sums_to_one:
  "0 < nC \<Longrightarrow> (\<Sum>k\<leftarrow>[0..<nC]. mos_component ctx nC i c k) = 1"
  using softmax_row_sums_to_one[of nC "\<lambda>k. entry ctx [i, c * nC + k]"]
  by (simp add: mos_component_def)


lemma dims_zero_image [simp]: "dims (zero_image n h w) = [n, 3, h, w]"
  by (simp add: zero_image_def)



end
